(* ===== verification/Camber_Prelude.thy ===== *)
theory Camber_Prelude
  imports Main "HOL-Library.Word" "HOL-Library.Char_ord" "HOL-Library.List_Lexorder"
begin

text \<open>
  The parts of the Rust language and standard library that several components of Camber
  share: strings as lists of bytes, \<open>str::split\<close>, \<open>str::split_once\<close> and
  \<open>str::strip_prefix\<close>, unsigned parsing and printing, ASCII case, durations, and
  the binary search of slices. A Rust \<open>&str\<close> is
  a \<open>string\<close> holding its UTF-8 bytes; string order is the bytewise lexicographic order
  of \<open>HOL-Library.List_Lexorder\<close>. A \<open>Result<T, E>\<close> is \<open>'e + 't\<close> with
  \<open>Inl\<close> for the error.

  The collections \<open>str_simps\<close> and \<open>search_simps\<close> carry the component proofs.
\<close>

named_theorems str_simps
named_theorems search_simps

type_synonym u8 = "8 word"
type_synonym u16 = "16 word"
type_synonym u32 = "32 word"
type_synonym u64 = "64 word"
type_synonym usize = "64 word"

section \<open>Splitting and stripping strings\<close>

text \<open>\<open>str::split(char)\<close>: one more piece than there are separators.\<close>

fun str_split :: "char \<Rightarrow> string \<Rightarrow> string list" where
  "str_split c [] = [[]]"
| "str_split c (x # xs) =
     (if x = c then [] # str_split c xs
      else (case str_split c xs of [] \<Rightarrow> [[x]] | w # ws \<Rightarrow> (x # w) # ws))"

text \<open>The same split keeping each piece's byte offset into the text it is a slice of.\<close>

type_synonym slice = "nat \<times> string"

fun str_split_at :: "char \<Rightarrow> nat \<Rightarrow> string \<Rightarrow> slice list" where
  "str_split_at c n [] = [(n, [])]"
| "str_split_at c n (x # xs) =
     (if x = c then (n, []) # str_split_at c (Suc n) xs
      else (case str_split_at c (Suc n) xs of
              [] \<Rightarrow> [(n, [x])]
            | (_, w) # ws \<Rightarrow> (n, x # w) # ws))"

fun strip_prefix :: "string \<Rightarrow> string \<Rightarrow> string option" where
  "strip_prefix [] s = Some s"
| "strip_prefix (p # ps) [] = None"
| "strip_prefix (p # ps) (x # xs) = (if p = x then strip_prefix ps xs else None)"

text \<open>\<open>str::split_once(char)\<close> and \<open>str::rsplit_once(char)\<close>.\<close>

fun split_once :: "char \<Rightarrow> string \<Rightarrow> (string \<times> string) option" where
  "split_once c [] = None"
| "split_once c (x # xs) =
     (if x = c then Some ([], xs)
      else map_option (\<lambda>(a, b). (x # a, b)) (split_once c xs))"

definition rsplit_once :: "char \<Rightarrow> string \<Rightarrow> (string \<times> string) option" where
  "rsplit_once c s = map_option (\<lambda>(a, b). (rev b, rev a)) (split_once c (rev s))"

lemma str_split_not_Nil [simp]: "str_split c s \<noteq> []"
  by (induction s) (auto split: list.splits)

lemma str_split_pieces: "w \<in> set (str_split c s) \<Longrightarrow> c \<notin> set w"
proof (induction s arbitrary: w)
  case (Cons x s)
  then show ?case
    by (cases "str_split c s") (auto split: if_splits)
qed simp

lemma str_split_no_sep [simp]: "c \<notin> set s \<Longrightarrow> str_split c s = [s]"
  by (induction s) auto

lemma str_split_append [str_simps]:
  "str_split c (a @ c # b) = str_split c a @ str_split c b"
  by (induction a) (auto split: list.splits)

lemma str_split_at_not_Nil [simp]: "str_split_at c n s \<noteq> []"
  by (induction s arbitrary: n) (auto split: list.splits)

lemma map_snd_str_split_at [simp]: "map snd (str_split_at c n s) = str_split c s"
proof (induction s arbitrary: n)
  case (Cons x s)
  from Cons [of "Suc n"] show ?case
    by (cases "str_split_at c (Suc n) s"; cases "str_split c s") auto
qed simp

text \<open>Every piece of \<^const>\<open>str_split_at\<close> is the slice of the text at its offset.\<close>

lemma str_split_at_slice:
  assumes "(k, w) \<in> set (str_split_at c n s)"
  shows "n \<le> k \<and> k - n + length w \<le> length s \<and> take (length w) (drop (k - n) s) = w"
  using assms
proof (induction s arbitrary: n k w)
  case (Cons x s)
  have step: "n \<le> k \<and> k - n + length w \<le> length (x # s) \<and> take (length w) (drop (k - n) (x # s)) = w"
    if "(k, w) \<in> set (str_split_at c (Suc n) s)" for k w
  proof -
    from Cons.IH [OF that] have "Suc n \<le> k" and "k - Suc n + length w \<le> length s"
      and "take (length w) (drop (k - Suc n) s) = w" by auto
    moreover from \<open>Suc n \<le> k\<close> have "k - n = Suc (k - Suc n)" by arith
    ultimately show ?thesis by simp
  qed
  show ?case
  proof (cases "str_split_at c (Suc n) s")
    case Nil
    then show ?thesis by simp
  next
    case (Cons h ws)
    obtain m v where h: "h = (m, v)" by (cases h)
    have m: "m = Suc n" using Cons h
      by (cases s) (auto split: if_splits list.splits prod.splits)
    have hd: "length v \<le> length s \<and> take (length v) s = v"
      using Cons.IH [of m v "Suc n"] Cons h m by simp
    show ?thesis
    proof (cases "x = c")
      case True
      with Cons.prems show ?thesis using step by auto
    next
      case False
      with Cons.prems Cons h have "(k, w) = (n, x # v) \<or> (k, w) \<in> set ws" by simp
      then show ?thesis
      proof
        assume "(k, w) = (n, x # v)"
        with hd show ?thesis by simp
      next
        assume "(k, w) \<in> set ws"
        then have "(k, w) \<in> set (str_split_at c (Suc n) s)" by (simp add: Cons)
        then show ?thesis by (rule step)
      qed
    qed
  qed
qed simp

lemma str_split_at_offsets_sorted:
  "sorted (map fst (str_split_at c n s)) \<and> (\<forall>k \<in> set (map fst (str_split_at c n s)). n \<le> k)"
proof (induction s arbitrary: n)
  case (Cons x s)
  have "\<forall>k \<in> set (map fst (str_split_at c (Suc n) s)). n \<le> k"
    using Cons [of "Suc n"] by fastforce
  with Cons [of "Suc n"] show ?case
    by (cases "str_split_at c (Suc n) s") auto
qed simp

lemma strip_prefix_Some [str_simps]: "strip_prefix p s = Some r \<longleftrightarrow> s = p @ r"
  by (induction p s rule: strip_prefix.induct) auto

lemma split_once_Some [str_simps]:
  "split_once c s = Some (a, b) \<longleftrightarrow> s = a @ c # b \<and> c \<notin> set a"
proof (induction s arbitrary: a b)
  case (Cons x s)
  show ?case
  proof (cases "x = c")
    case True
    then show ?thesis by (cases a) auto
  next
    case False
    then have "split_once c (x # s) = Some (a, b) \<longleftrightarrow>
        (\<exists>a'. a = x # a' \<and> split_once c s = Some (a', b))" by auto
    also have "\<dots> \<longleftrightarrow> x # s = a @ c # b \<and> c \<notin> set a"
      using False Cons.IH by (cases a) auto
    finally show ?thesis .
  qed
qed simp

lemma split_once_None [str_simps]: "split_once c s = None \<longleftrightarrow> c \<notin> set s"
  by (induction s) auto

lemma rsplit_once_Some [str_simps]:
  "rsplit_once c s = Some (a, b) \<longleftrightarrow> s = a @ c # b \<and> c \<notin> set b"
proof -
  have "rsplit_once c s = Some (a, b) \<longleftrightarrow> split_once c (rev s) = Some (rev b, rev a)"
    by (auto simp: rsplit_once_def)
  also have "\<dots> \<longleftrightarrow> s = a @ c # b \<and> c \<notin> set b"
    by (auto simp: split_once_Some rev_swap)
  finally show ?thesis .
qed

lemma rsplit_once_None [str_simps]: "rsplit_once c s = None \<longleftrightarrow> c \<notin> set s"
  by (simp add: rsplit_once_def split_once_None)

section \<open>ASCII case\<close>

definition is_ascii_uppercase :: "char \<Rightarrow> bool" where
  "is_ascii_uppercase c \<longleftrightarrow> CHR ''A'' \<le> c \<and> c \<le> CHR ''Z''"

definition is_ascii_digit :: "char \<Rightarrow> bool" where
  "is_ascii_digit c \<longleftrightarrow> CHR ''0'' \<le> c \<and> c \<le> CHR ''9''"

definition is_ascii_alphabetic :: "char \<Rightarrow> bool" where
  "is_ascii_alphabetic c \<longleftrightarrow>
     (CHR ''A'' \<le> c \<and> c \<le> CHR ''Z'') \<or> (CHR ''a'' \<le> c \<and> c \<le> CHR ''z'')"

definition is_ascii_alphanumeric :: "char \<Rightarrow> bool" where
  "is_ascii_alphanumeric c \<longleftrightarrow> is_ascii_alphabetic c \<or> is_ascii_digit c"

definition to_ascii_lowercase_char :: "char \<Rightarrow> char" where
  "to_ascii_lowercase_char c = (if is_ascii_uppercase c then char_of (of_char c + 32 :: nat) else c)"

definition to_ascii_lowercase :: "string \<Rightarrow> string" where
  "to_ascii_lowercase = map to_ascii_lowercase_char"

definition eq_ignore_ascii_case :: "string \<Rightarrow> string \<Rightarrow> bool" where
  "eq_ignore_ascii_case a b \<longleftrightarrow> to_ascii_lowercase a = to_ascii_lowercase b"

lemma is_ascii_uppercase_iff: "is_ascii_uppercase c \<longleftrightarrow> 65 \<le> (of_char c :: nat) \<and> of_char c \<le> (90 :: nat)"
  by (simp add: is_ascii_uppercase_def less_eq_char_def)

lemma lowercase_char_not_upper [simp]: "\<not> is_ascii_uppercase (to_ascii_lowercase_char c)"
proof (cases "is_ascii_uppercase c")
  case True
  then have "(of_char (char_of (of_char c + 32 :: nat)) :: nat) = of_char c + 32"
    by (simp add: is_ascii_uppercase_iff)
  with True show ?thesis
    by (simp add: to_ascii_lowercase_char_def is_ascii_uppercase_iff)
qed (simp add: to_ascii_lowercase_char_def)

lemma lowercase_char_idem [simp]:
  "to_ascii_lowercase_char (to_ascii_lowercase_char c) = to_ascii_lowercase_char c"
  using lowercase_char_not_upper [of c] by (simp add: to_ascii_lowercase_char_def [of "to_ascii_lowercase_char c"])

lemma to_ascii_lowercase_idem [simp]:
  "to_ascii_lowercase (to_ascii_lowercase s) = to_ascii_lowercase s"
  by (simp add: to_ascii_lowercase_def)

lemma to_ascii_lowercase_id:
  "\<not> list_ex is_ascii_uppercase s \<Longrightarrow> to_ascii_lowercase s = s"
  by (induction s) (auto simp: to_ascii_lowercase_def to_ascii_lowercase_char_def)

lemma length_to_ascii_lowercase [simp]: "length (to_ascii_lowercase s) = length s"
  by (simp add: to_ascii_lowercase_def)

section \<open>Parsing unsigned integers\<close>

definition digit_val :: "char \<Rightarrow> nat option" where
  "digit_val c = (if is_ascii_digit c then Some (of_char c - 48) else None)"

fun parse_digits :: "nat \<Rightarrow> nat \<Rightarrow> string \<Rightarrow> nat option" where
  "parse_digits m acc [] = Some acc"
| "parse_digits m acc (c # cs) =
     (case digit_val c of
        None \<Rightarrow> None
      | Some d \<Rightarrow> if acc * 10 + d \<le> m then parse_digits m (acc * 10 + d) cs else None)"

text \<open>
  \<open>str::parse::<uN>\<close>: an optional leading plus sign, then at least one decimal digit, with
  overflow past the type's maximum \<open>m\<close> an error.
\<close>

definition parse_unsigned :: "nat \<Rightarrow> string \<Rightarrow> nat option" where
  "parse_unsigned m s =
     (case s of
        [] \<Rightarrow> None
      | c # cs \<Rightarrow>
          if c = CHR ''+'' then (if cs = [] then None else parse_digits m 0 cs)
          else parse_digits m 0 s)"

abbreviation parse_u16 :: "string \<Rightarrow> nat option" where
  "parse_u16 \<equiv> parse_unsigned 65535"

lemma parse_digits_le: "acc \<le> m \<Longrightarrow> parse_digits m acc s = Some n \<Longrightarrow> n \<le> m"
  by (induction s arbitrary: acc) (auto split: option.splits if_splits)

lemma parse_unsigned_le: "parse_unsigned m s = Some n \<Longrightarrow> n \<le> m"
  by (auto simp: parse_unsigned_def simp del: parse_digits.simps
      dest: parse_digits_le [rotated] split: list.splits if_splits)

lemma parse_unsigned_not_Nil: "parse_unsigned m s = Some n \<Longrightarrow> s \<noteq> []"
  by (auto simp: parse_unsigned_def)

section \<open>Filtering maps\<close>

lemma set_map_filter: "set (List.map_filter f xs) = {y. \<exists>x \<in> set xs. f x = Some y}"
  by (force simp: List.map_filter_def)

section \<open>Printing numbers\<close>

text \<open>The decimal text the \<open>Display\<close> implementation of an unsigned integer writes.\<close>

fun show_nat :: "nat \<Rightarrow> string" where
  "show_nat n =
     (if n < 10 then [char_of (48 + n)]
      else show_nat (n div 10) @ [char_of (48 + n mod 10)])"

declare show_nat.simps [simp del]

text \<open>A \<open>Duration\<close> and a point on a monotonic clock count nanoseconds.\<close>

type_synonym duration = nat
type_synonym instant = nat

definition from_secs :: "nat \<Rightarrow> duration" where
  "from_secs n = n * 1000000000"

definition from_millis :: "nat \<Rightarrow> duration" where
  "from_millis n = n * 1000000"

definition as_secs :: "duration \<Rightarrow> nat" where
  "as_secs d = d div 1000000000"

lemma as_secs_from_secs [simp]: "as_secs (from_secs n) = n"
  by (simp add: as_secs_def from_secs_def)

lemma parse_digits_append:
  "parse_digits m acc (s @ t) =
     (case parse_digits m acc s of None \<Rightarrow> None | Some n \<Rightarrow> parse_digits m n t)"
  by (induction m acc s rule: parse_digits.induct) (auto split: option.splits)

lemma digit_val_char_of [simp]: "n < 10 \<Longrightarrow> digit_val (char_of (48 + n)) = Some n"
  by (simp add: digit_val_def is_ascii_digit_def less_eq_char_def)

lemma parse_digits_show_nat: "n \<le> m \<Longrightarrow> parse_digits m 0 (show_nat n) = Some n"
proof (induction n rule: show_nat.induct)
  case (1 n)
  show ?case
  proof (cases "n < 10")
    case True
    then show ?thesis
      using 1(2) unfolding show_nat.simps [of n] by simp
  next
    case False
    have prefix: "parse_digits m 0 (show_nat (n div 10)) = Some (n div 10)"
      by (rule 1(1)) (use False 1(2) in auto)
    have digit: "digit_val (char_of (48 + n mod 10)) = Some (n mod 10)"
      by (rule digit_val_char_of) simp
    have "parse_digits m (n div 10) [char_of (48 + n mod 10)] = Some n"
      unfolding parse_digits.simps digit option.case by (simp add: 1(2))
    with prefix False show ?thesis
      unfolding show_nat.simps [of n] by (simp only: parse_digits_append if_False option.case)
  qed
qed

lemma show_nat_not_Nil [simp]: "show_nat n \<noteq> []"
  unfolding show_nat.simps [of n] by simp

lemma show_nat_inject [simp]: "show_nat m = show_nat n \<longleftrightarrow> m = n"
proof
  assume "show_nat m = show_nat n"
  then have "Some m = Some n"
    using parse_digits_show_nat [of m "max m n"] parse_digits_show_nat [of n "max m n"]
    by (simp only: max.cobounded1 max.cobounded2 simp_thms)
  then show "m = n" by simp
qed simp

section \<open>Binary search on a sorted slice\<close>

text \<open>
  \<open>slice::binary_search_by_key\<close> as the standard library runs it: the base moves to the
  middle unless the middle's key is greater than the target, and the size shrinks by half
  until one candidate is left.
\<close>

function bs_loop :: "('a \<Rightarrow> 'k::linorder) \<Rightarrow> 'k \<Rightarrow> 'a list \<Rightarrow> nat \<Rightarrow> nat \<Rightarrow> nat" where
  "bs_loop key t xs base n =
     (if 1 < n
      then bs_loop key t xs
             (if t < key (xs ! (base + n div 2)) then base else base + n div 2)
             (n - n div 2)
      else base)"
  by pat_completeness auto
termination
  by (relation "measure (\<lambda>(key, t, xs, base, n). n)") auto

declare bs_loop.simps [simp del]

definition binary_search_by_key :: "('a \<Rightarrow> 'k::linorder) \<Rightarrow> 'k \<Rightarrow> 'a list \<Rightarrow> nat + nat" where
  "binary_search_by_key key t xs =
     (if xs = [] then Inl 0
      else let base = bs_loop key t xs 0 (length xs); k = key (xs ! base)
           in if k = t then Inr base else Inl (if k < t then base + 1 else base))"

lemma bs_loop_inv:
  assumes "sorted (map key xs)" "0 < n" "base + n \<le> length xs"
    and "\<forall>j. base + n \<le> j \<and> j < length xs \<longrightarrow> t < key (xs ! j)"
    and "base = 0 \<or> key (xs ! base) \<le> t"
  shows "let b = bs_loop key t xs base n
         in b < length xs \<and> (\<forall>j. b < j \<and> j < length xs \<longrightarrow> t < key (xs ! j))
            \<and> (b = 0 \<or> key (xs ! b) \<le> t)"
  using assms
proof (induction key t xs base n rule: bs_loop.induct)
  case (1 key t xs base n)
  show ?case
  proof (cases "1 < n")
    case True
    let ?mid = "base + n div 2"
    let ?b = "if t < key (xs ! ?mid) then base else ?mid"
    have hi: "t < key (xs ! j)" if "?b + (n - n div 2) \<le> j" "j < length xs" for j
    proof (cases "t < key (xs ! ?mid)")
      case mid: True
      from that mid have "?mid \<le> j" by (simp split: if_splits)
      then have "key (xs ! ?mid) \<le> key (xs ! j)"
        using "1.prems"(1) that(2) sorted_nth_mono [of "map key xs" ?mid j] by simp
      with mid show ?thesis by simp
    next
      case False
      with that have "base + n \<le> j" by simp
      with that(2) "1.prems"(4) show ?thesis by simp
    qed
    have "let b = bs_loop key t xs ?b (n - n div 2)
         in b < length xs \<and> (\<forall>j. b < j \<and> j < length xs \<longrightarrow> t < key (xs ! j))
            \<and> (b = 0 \<or> key (xs ! b) \<le> t)"
    proof (rule "1.IH" [OF True "1.prems"(1)])
      show "0 < n - n div 2" using True by simp
      show "?b + (n - n div 2) \<le> length xs" using "1.prems"(3) True by auto
      show "\<forall>j. ?b + (n - n div 2) \<le> j \<and> j < length xs \<longrightarrow> t < key (xs ! j)"
        using hi by blast
      show "?b = 0 \<or> key (xs ! ?b) \<le> t" using "1.prems"(5) by auto
    qed
    with True show ?thesis by (simp add: bs_loop.simps [of key t xs base n])
  next
    case False
    with "1.prems" have "n = 1" by simp
    moreover have "bs_loop key t xs base n = base"
      using False by (simp add: bs_loop.simps [of key t xs base n])
    ultimately show ?thesis using "1.prems" by (auto simp: Let_def)
  qed
qed

lemma bs_base:
  assumes "sorted (map key xs)" "xs \<noteq> []"
  shows "bs_loop key t xs 0 (length xs) < length xs"
    and "\<forall>j. bs_loop key t xs 0 (length xs) < j \<and> j < length xs \<longrightarrow> t < key (xs ! j)"
    and "bs_loop key t xs 0 (length xs) = 0 \<or> key (xs ! bs_loop key t xs 0 (length xs)) \<le> t"
proof -
  have "\<forall>j. 0 + length xs \<le> j \<and> j < length xs \<longrightarrow> t < key (xs ! j)" by (auto dest: leD)
  with assms have "let b = bs_loop key t xs 0 (length xs)
         in b < length xs \<and> (\<forall>j. b < j \<and> j < length xs \<longrightarrow> t < key (xs ! j))
            \<and> (b = 0 \<or> key (xs ! b) \<le> t)"
    by (intro bs_loop_inv) auto
  then show "bs_loop key t xs 0 (length xs) < length xs"
    and "\<forall>j. bs_loop key t xs 0 (length xs) < j \<and> j < length xs \<longrightarrow> t < key (xs ! j)"
    and "bs_loop key t xs 0 (length xs) = 0 \<or> key (xs ! bs_loop key t xs 0 (length xs)) \<le> t"
    by (simp_all add: Let_def)
qed

text \<open>A hit is the index of an element with the target key.\<close>

lemma binary_search_hit:
  assumes "sorted (map key xs)" "binary_search_by_key key t xs = Inr i"
  shows "i < length xs \<and> key (xs ! i) = t"
  using assms bs_base(1) [of key xs t]
  by (auto simp: binary_search_by_key_def Let_def split: if_splits)

text \<open>A miss means that no element has the target key.\<close>

lemma binary_search_miss:
  assumes "sorted (map key xs)" "binary_search_by_key key t xs = Inl i"
  shows "t \<notin> key ` set xs"
proof
  assume "t \<in> key ` set xs"
  then obtain j where j: "j < length xs" "key (xs ! j) = t" by (auto simp: in_set_conv_nth)
  let ?b = "bs_loop key t xs 0 (length xs)"
  from j have ne: "xs \<noteq> []" by auto
  note b = bs_base [OF assms(1) ne, of t]
  from b(2) j have "j \<le> ?b" by (meson less_irrefl not_le)
  then have "t \<le> key (xs ! ?b)"
    using sorted_nth_mono [of "map key xs" j ?b] assms(1) b(1) j by simp
  moreover have "key (xs ! ?b) \<le> t"
    using b(3) \<open>j \<le> ?b\<close> j by auto
  ultimately have "binary_search_by_key key t xs = Inr ?b"
    using ne by (simp add: binary_search_by_key_def Let_def)
  with assms(2) show False by simp
qed

text \<open>On an association list with strictly increasing keys the search is the map lookup.\<close>

lemma binary_search_map_of [search_simps]:
  assumes "sorted_wrt (<) (map fst xs)"
  shows "(case binary_search_by_key fst t xs of Inr i \<Rightarrow> Some (snd (xs ! i)) | Inl _ \<Rightarrow> None)
       = map_of xs t"
proof -
  from assms have s: "sorted (map fst xs)" and d: "distinct (map fst xs)"
    by (auto simp: strict_sorted_iff)
  show ?thesis
  proof (cases "binary_search_by_key fst t xs")
    case (Inl i)
    from binary_search_miss [OF s this] Inl show ?thesis
      by (simp add: map_of_eq_None_iff [symmetric])
  next
    case (Inr i)
    from binary_search_hit [OF s this] have "(t, snd (xs ! i)) \<in> set xs"
      by (metis nth_mem prod.collapse)
    with d Inr show ?thesis by simp
  qed
qed

section \<open>Keyed registries\<close>

text \<open>
  The contract several components share: entries are registered under a key in order, and
  reading a key gives what was registered under it, oldest first. The client lemmas describe
  a registry built from a list of registrations.
\<close>

locale keyed_registry =
  fixes empty :: 't
    and register :: "'p \<Rightarrow> 'r \<Rightarrow> 't \<Rightarrow> 't"
    and entries :: "'k \<Rightarrow> 't \<Rightarrow> 'r list"
    and key :: "'p \<Rightarrow> 'k"
    and invar :: "'t \<Rightarrow> bool"
  assumes invar_empty: "invar empty"
    and invar_register: "invar t \<Longrightarrow> invar (register p r t)"
    and entries_empty: "entries k empty = []"
    and entries_register:
      "invar t \<Longrightarrow> entries k (register p r t) = entries k t @ (if k = key p then [r] else [])"
begin

lemma invar_fold: "invar t \<Longrightarrow> invar (fold (\<lambda>(p, r). register p r) rs t)"
  by (induction rs arbitrary: t) (auto simp: invar_register)

lemma entries_fold:
  "invar t \<Longrightarrow>
   entries k (fold (\<lambda>(p, r). register p r) rs t) =
     entries k t @ map snd (filter (\<lambda>(p, _). key p = k) rs)"
proof (induction rs arbitrary: t)
  case (Cons x rs)
  then show ?case
    by (cases x) (simp add: invar_register entries_register)
qed simp

lemmas invar_build = invar_fold [OF invar_empty]

lemma entries_build:
  "entries k (fold (\<lambda>(p, r). register p r) rs empty) = map snd (filter (\<lambda>(p, _). key p = k) rs)"
  by (simp add: entries_fold invar_empty entries_empty)

end

end
