(* ===== verification/Http_Method.thy ===== *)
theory Http_Method
  imports Camber_Prelude
begin

text \<open>
  The closed set of methods Camber routes on and the method one accepted request arrived
  with, as \<open>src/crates/camber/src/http/method.rs\<close> has them. The lemmas show that parsing
  and printing are inverse on the routable methods, that \<open>ordinal\<close> is a bijection onto the
  slots \<open>0..6\<close> of the dispatch arrays, and that every recorded label stays inside the
  published vocabulary.
\<close>

section \<open>Routable methods\<close>

datatype http_method = Get | Post | Put | Delete | Patch | Head | Options

definition method_all :: "http_method list" where
  "method_all = [Get, Post, Put, Delete, Patch, Head, Options]"

abbreviation method_count :: nat where
  "method_count \<equiv> 7"

fun method_as_str :: "http_method \<Rightarrow> string" where
  "method_as_str Get = ''GET''"
| "method_as_str Post = ''POST''"
| "method_as_str Put = ''PUT''"
| "method_as_str Delete = ''DELETE''"
| "method_as_str Patch = ''PATCH''"
| "method_as_str Head = ''HEAD''"
| "method_as_str Options = ''OPTIONS''"

definition method_parse :: "string \<Rightarrow> http_method option" where
  "method_parse s =
     (if s = ''GET'' then Some Get
      else if s = ''POST'' then Some Post
      else if s = ''PUT'' then Some Put
      else if s = ''DELETE'' then Some Delete
      else if s = ''PATCH'' then Some Patch
      else if s = ''HEAD'' then Some Head
      else if s = ''OPTIONS'' then Some Options
      else None)"

datatype parse_method_error = ParseMethodError

definition method_from_str :: "string \<Rightarrow> parse_method_error + http_method" where
  "method_from_str s = (case method_parse s of Some m \<Rightarrow> Inr m | None \<Rightarrow> Inl ParseMethodError)"

fun ordinal :: "http_method \<Rightarrow> nat" where
  "ordinal Get = 0"
| "ordinal Post = 1"
| "ordinal Put = 2"
| "ordinal Delete = 3"
| "ordinal Patch = 4"
| "ordinal Head = 5"
| "ordinal Options = 6"

text \<open>The derived \<open>Ord\<close>: variants compare in declaration order.\<close>

instantiation http_method :: linorder
begin

definition less_eq_http_method :: "http_method \<Rightarrow> http_method \<Rightarrow> bool" where
  "less_eq_http_method a b \<longleftrightarrow> ordinal a \<le> ordinal b"

definition less_http_method :: "http_method \<Rightarrow> http_method \<Rightarrow> bool" where
  "less_http_method a b \<longleftrightarrow> ordinal a < ordinal b"

instance
proof
  fix a b :: http_method
  assume "a \<le> b" and "b \<le> a"
  then show "a = b"
    unfolding less_eq_http_method_def by (cases a; cases b) simp_all
qed (auto simp: less_eq_http_method_def less_http_method_def)

end

section \<open>The method a request arrived with\<close>

datatype request_method = Known http_method | Unnameable string

abbreviation unnameable_method :: string where
  "unnameable_method \<equiv> ''UNKNOWN''"

text \<open>The argument is the method text hyper delivered.\<close>

definition request_method_from_hyper :: "string \<Rightarrow> request_method" where
  "request_method_from_hyper m = (case method_parse m of None \<Rightarrow> Unnameable m | Some k \<Rightarrow> Known k)"

fun routable :: "request_method \<Rightarrow> http_method option" where
  "routable (Known m) = Some m"
| "routable (Unnameable _) = None"

fun request_method_as_str :: "request_method \<Rightarrow> string" where
  "request_method_as_str (Known m) = method_as_str m"
| "request_method_as_str (Unnameable t) = t"

abbreviation method_vocabulary :: "string list" where
  "method_vocabulary \<equiv> map method_as_str method_all @ [unnameable_method]"

fun method_label :: "request_method \<Rightarrow> string" where
  "method_label (Known m) = method_as_str m"
| "method_label (Unnameable _) = unnameable_method"

section \<open>Lemmas\<close>

lemma set_method_all [simp]: "m \<in> set method_all"
  by (cases m) (simp_all add: method_all_def)

lemma ordinal_less [simp]: "ordinal m < method_count"
  by (cases m) simp_all

lemma ordinal_less_7 [simp]: "ordinal m < 7"
  by (cases m) simp_all

lemma ordinal_inject [simp]: "ordinal a = ordinal b \<longleftrightarrow> a = b"
  by (cases a; cases b) simp_all

lemma method_parse_as_str [simp]: "method_parse (method_as_str m) = Some m"
  by (cases m) (simp_all add: method_parse_def)

lemma method_parse_Some: "method_parse s = Some m \<longleftrightarrow> s = method_as_str m"
proof
  show "method_parse s = Some m \<Longrightarrow> s = method_as_str m"
    by (auto simp: method_parse_def split: if_splits)
qed simp

lemma method_as_str_inject [simp]: "method_as_str a = method_as_str b \<longleftrightarrow> a = b"
  by (metis method_parse_as_str option.inject)

lemma request_method_text [simp]: "request_method_as_str (request_method_from_hyper t) = t"
  by (auto simp: request_method_from_hyper_def method_parse_Some split: option.splits)

lemma method_label_in_vocabulary: "method_label rm \<in> set method_vocabulary"
  by (cases rm) auto

end
