(* ===== verification/Response_Origin.thy ===== *)
theory Response_Origin
  imports Camber_Prelude
begin

text \<open>
  Which production owner produced an operation's committed response head
  (\<open>ResponseOrigin\<close> of \<open>src/crates/camber/src/http/response_commitment.rs\<close>), in a build
  with the \<open>grpc\<close> and \<open>ws\<close> features on.
\<close>

datatype response_origin =
    Application
  | Middleware
  | RouterOrigin
  | Framework
  | Upstream
  | StaticFile
  | ServerSentEvents
  | Grpc
  | WebSocketOrigin
  | Internal
  | Protocol

definition origin_all :: "response_origin list" where
  "origin_all =
     [Application, Middleware, RouterOrigin, Framework, Upstream, StaticFile,
      ServerSentEvents, Grpc, WebSocketOrigin, Internal, Protocol]"

abbreviation origin_count :: nat where
  "origin_count \<equiv> 9 + 1 + 1"

fun origin_label :: "response_origin \<Rightarrow> string" where
  "origin_label Application = ''application''"
| "origin_label Middleware = ''middleware''"
| "origin_label RouterOrigin = ''router''"
| "origin_label Framework = ''framework''"
| "origin_label Upstream = ''upstream''"
| "origin_label StaticFile = ''static-file''"
| "origin_label ServerSentEvents = ''sse''"
| "origin_label Grpc = ''grpc''"
| "origin_label WebSocketOrigin = ''websocket''"
| "origin_label Internal = ''internal''"
| "origin_label Protocol = ''protocol''"

lemma length_origin_all [simp]: "length origin_all = origin_count"
  by (simp add: origin_all_def)

lemma set_origin_all [simp]: "r \<in> set origin_all"
  by (cases r) (simp_all add: origin_all_def)

lemma origin_label_inject: "origin_label a = origin_label b \<Longrightarrow> a = b"
  by (cases a; cases b) simp_all

end
