(* ===== verification/Route_Trie.thy ===== *)
theory Route_Trie
  imports Http_Method Response_Origin
begin

text \<open>
  The routing trie of \<open>src/crates/camber/src/http/trie.rs\<close>: patterns as segment lists, the
  mutable trie routes are registered in, the frozen trie requests are matched against, and
  the lookup that selects a handler or explains a refusal. A \<open>BTreeMap\<close> is an association
  list with strictly increasing keys, a boxed slice of children is the list it was collected
  into, and a borrowed path segment is its text with its byte offset into the path, which is
  what the wildcard capture's pointer arithmetic reads. A handler closure (or the shared
  registration behind an \<open>Arc\<close>) is a value of the type parameter \<open>'h\<close>.

  \<open>accepts\<close>, a \<open>FnMut\<close> closure in the code, is a function on the state it captures, so
  one traversal serves selection and the collecting refusal as it does in the code.
\<close>

unbundle bit_operations_syntax

section \<open>Handlers and patterns\<close>

datatype 'h route_handler =
    Async 'h response_origin
  | Stream 'h
  | Sse 'h
  | Multipart 'h
  | WebSocket 'h
  | Proxy string string 'h
  | ProxyStream string string 'h

fun answers_head :: "'h route_handler \<Rightarrow> bool" where
  "answers_head (Async _ _) = True"
| "answers_head (Stream _) = True"
| "answers_head (Sse _) = True"
| "answers_head (Proxy _ _ _) = True"
| "answers_head (ProxyStream _ _ _) = True"
| "answers_head (WebSocket _) = True"
| "answers_head (Multipart _) = False"

record 'h registered_handler =
  rg_method :: http_method
  rg_handler :: "'h route_handler"
  rg_capture_names :: "string list"
  rg_route :: string

definition canonical_methods :: "http_method list" where
  "canonical_methods = [Get, Head, Post, Put, Patch, Delete, Options]"

datatype segment = Static string | Param string | Wildcard string

fun segment_render :: "segment \<Rightarrow> string" where
  "segment_render (Static name) = name"
| "segment_render (Param name) = CHR '':'' # name"
| "segment_render (Wildcard name) = CHR ''*'' # name"

definition parse_segment :: "string \<Rightarrow> segment" where
  "parse_segment s =
     (case strip_prefix ''*'' s of
        Some name \<Rightarrow> Wildcard name
      | None \<Rightarrow> (case strip_prefix '':'' s of Some name \<Rightarrow> Param name | None \<Rightarrow> Static s))"

definition parse_segments :: "string \<Rightarrow> segment list" where
  "parse_segments path = map parse_segment (filter (\<lambda>s. s \<noteq> []) (str_split (CHR ''/'') path))"

definition normalize_route :: "segment list \<Rightarrow> string" where
  "normalize_route segments =
     (if segments = [] then ''/''
      else fold (\<lambda>segment pattern. pattern @ ''/'' @ segment_render segment) segments [])"

section \<open>Registration\<close>

datatype (dead 'h) trie_node = TrieNode
  (static_children: "(string \<times> 'h trie_node) list")
  (param_child: "'h trie_node option")
  (wildcard: "'h registered_handler list option")
  (node_handlers: "'h registered_handler list")

definition trie_new :: "'h trie_node" where
  "trie_new = TrieNode [] None None []"

text \<open>\<open>BTreeMap::entry(k).or_insert_with(..)\<close> followed by an update of the entry.\<close>

fun btree_update :: "'k::linorder \<Rightarrow> ('v option \<Rightarrow> 'v) \<Rightarrow> ('k \<times> 'v) list \<Rightarrow> ('k \<times> 'v) list" where
  "btree_update k f [] = [(k, f None)]"
| "btree_update k f ((k', v) # m) =
     (if k < k' then (k, f None) # (k', v) # m
      else if k = k' then (k, f (Some v)) # m
      else (k', v) # btree_update k f m)"

fun insert_segments :: "segment list \<Rightarrow> 'h registered_handler \<Rightarrow> 'h trie_node \<Rightarrow> 'h trie_node" where
  "insert_segments [] r (TrieNode sc pc wc hs) = TrieNode sc pc wc (hs @ [r])"
| "insert_segments (Static name # rest) r (TrieNode sc pc wc hs) =
     TrieNode
       (btree_update name
          (\<lambda>child. insert_segments rest r (case child of None \<Rightarrow> trie_new | Some n \<Rightarrow> n)) sc)
       pc wc hs"
| "insert_segments (Param _ # rest) r (TrieNode sc pc wc hs) =
     TrieNode sc (Some (insert_segments rest r (case pc of None \<Rightarrow> trie_new | Some n \<Rightarrow> n))) wc hs"
| "insert_segments (Wildcard _ # rest) r (TrieNode sc pc wc hs) =
     TrieNode sc pc (Some ((case wc of None \<Rightarrow> [] | Some ws \<Rightarrow> ws) @ [r])) hs"

fun capture_name :: "segment \<Rightarrow> string option" where
  "capture_name (Param name) = Some name"
| "capture_name (Wildcard name) = Some name"
| "capture_name (Static _) = None"

definition registration :: "http_method \<Rightarrow> string \<Rightarrow> 'h route_handler \<Rightarrow> 'h registered_handler" where
  "registration method path handler =
     (let segments = parse_segments path
      in \<lparr>rg_method = method, rg_handler = handler,
          rg_capture_names = List.map_filter capture_name segments,
          rg_route = normalize_route segments\<rparr>)"

definition insert_route ::
  "http_method \<Rightarrow> string \<Rightarrow> 'h route_handler \<Rightarrow> 'h trie_node \<Rightarrow> 'h trie_node" where
  "insert_route method path handler t =
     insert_segments (parse_segments path) (registration method path handler) t"

fun walk_static :: "'h trie_node \<Rightarrow> string list \<Rightarrow> 'h trie_node option" where
  "walk_static node [] = Some node"
| "walk_static node (s # ss) =
     (case map_of (static_children node) s of None \<Rightarrow> None | Some child \<Rightarrow> walk_static child ss)"

definition claims_static :: "'h trie_node \<Rightarrow> string \<Rightarrow> bool" where
  "claims_static t path =
     (case walk_static t (filter (\<lambda>s. s \<noteq> []) (str_split (CHR ''/'') path)) of
        None \<Rightarrow> False
      | Some node \<Rightarrow> node_handlers node \<noteq> [])"

section \<open>Freezing\<close>

record 'h frozen_handler =
  fh_handler :: "'h route_handler"
  fh_capture_names :: "string list"
  fh_route :: string

type_synonym 'h method_slots = "'h frozen_handler option list"
type_synonym method_mask = u8

record claimed =
  cl_route :: string
  cl_allow :: string
  cl_served :: method_mask

record 'h frozen_method_handlers =
  by_method :: "'h method_slots"
  claim :: "claimed option"

definition method_bit :: "http_method \<Rightarrow> method_mask" where
  "method_bit m = push_bit (ordinal m) 1"

definition head_from_get :: "'h method_slots \<Rightarrow> 'h frozen_handler option" where
  "head_from_get slots =
     (case slots ! ordinal Get of
        None \<Rightarrow> None
      | Some registered \<Rightarrow> if answers_head (fh_handler registered) then Some registered else None)"

definition select_slot :: "'h method_slots \<Rightarrow> http_method \<Rightarrow> 'h frozen_handler option" where
  "select_slot slots m =
     (case slots ! ordinal m of
        Some h \<Rightarrow> Some h
      | None \<Rightarrow> (case m of Head \<Rightarrow> head_from_get slots | _ \<Rightarrow> None))"

definition slot_serves :: "'h method_slots \<Rightarrow> http_method \<Rightarrow> bool" where
  "slot_serves slots m \<longleftrightarrow> select_slot slots m \<noteq> None"

definition served_mask :: "'h method_slots \<Rightarrow> method_mask" where
  "served_mask slots =
     fold (\<lambda>m mask. mask OR method_bit m) (filter (slot_serves slots) canonical_methods) 0"

definition render_allow :: "method_mask \<Rightarrow> string" where
  "render_allow served =
     fold (\<lambda>m rendered. rendered @ (if rendered = [] then [] else '', '') @ method_as_str m)
       (filter (\<lambda>m. served AND method_bit m \<noteq> 0) canonical_methods) []"

fun find_map :: "('a \<Rightarrow> 'b option) \<Rightarrow> 'a list \<Rightarrow> 'b option" where
  "find_map f [] = None"
| "find_map f (x # xs) = (case f x of None \<Rightarrow> find_map f xs | Some y \<Rightarrow> Some y)"

definition freeze_claim :: "'h method_slots \<Rightarrow> claimed option" where
  "freeze_claim slots =
     (case find_map (\<lambda>m. slots ! ordinal m) canonical_methods of
        None \<Rightarrow> None
      | Some handler \<Rightarrow>
          let served = served_mask slots
          in Some \<lparr>cl_route = fh_route handler, cl_allow = render_allow served, cl_served = served\<rparr>)"

definition freeze_slots :: "'h registered_handler list \<Rightarrow> 'h method_slots" where
  "freeze_slots registered =
     fold (\<lambda>entry slots. slots[ordinal (rg_method entry) :=
             Some \<lparr>fh_handler = rg_handler entry, fh_capture_names = rg_capture_names entry,
                   fh_route = rg_route entry\<rparr>])
       registered (replicate method_count None)"

definition freeze_handlers :: "'h registered_handler list \<Rightarrow> 'h frozen_method_handlers" where
  "freeze_handlers registered =
     (let slots = freeze_slots registered in \<lparr>by_method = slots, claim = freeze_claim slots\<rparr>)"

datatype (dead 'h) frozen_node = FrozenNode
  (frozen_static: "(string \<times> 'h frozen_node) list")
  (frozen_param: "'h frozen_node option")
  (frozen_wildcard: "'h frozen_method_handlers option")
  (frozen_handlers: "'h frozen_method_handlers")

fun freeze :: "'h trie_node \<Rightarrow> 'h frozen_node" where
  "freeze (TrieNode sc pc wc hs) =
     FrozenNode (map (\<lambda>(k, v). (k, freeze v)) sc) (map_option freeze pc)
       (map_option freeze_handlers wc) (freeze_handlers hs)"

section \<open>Matching a path\<close>

abbreviation path_segment_limit :: nat where
  "path_segment_limit \<equiv> 32"

text \<open>\<open>ArrayVec::try_push\<close> refuses the element past the capacity.\<close>

fun push_segments :: "slice list \<Rightarrow> slice list \<Rightarrow> slice list option" where
  "push_segments acc [] = Some acc"
| "push_segments acc (s # ss) =
     (if length acc < path_segment_limit then push_segments (acc @ [s]) ss else None)"

definition split_path_segments :: "string \<Rightarrow> slice list option" where
  "split_path_segments path =
     push_segments [] (filter (\<lambda>s. snd s \<noteq> []) (str_split_at (CHR ''/'') 0 path))"

definition wildcard_span :: "string \<Rightarrow> slice list \<Rightarrow> string" where
  "wildcard_span path segments =
     (case segments of
        [] \<Rightarrow> []
      | first # _ \<Rightarrow>
          let start = fst first; stop = fst (last segments) + length (snd (last segments))
          in take (stop - start) (drop start path))"

type_synonym ('h, 's) accepts = "'s \<Rightarrow> 'h frozen_method_handlers \<Rightarrow> bool \<times> 's"
type_synonym 'h path_match = "'h frozen_method_handlers \<times> string list"

definition resolve_wildcard ::
  "('h, 's) accepts \<Rightarrow> string \<Rightarrow> 'h frozen_node \<Rightarrow> slice list \<Rightarrow> 's \<Rightarrow> 'h path_match option \<times> 's" where
  "resolve_wildcard accepts path node segments s =
     (case frozen_wildcard node of
        None \<Rightarrow> (None, s)
      | Some handlers \<Rightarrow>
          (case accepts s handlers of
             (ok, s') \<Rightarrow>
               (if ok then Some (handlers, [wildcard_span path segments]) else None, s')))"

function (sequential) resolve ::
    "('h, 's) accepts \<Rightarrow> string \<Rightarrow> 'h frozen_node \<Rightarrow> slice list \<Rightarrow> 's \<Rightarrow> 'h path_match option \<times> 's"
  and resolve_static ::
    "('h, 's) accepts \<Rightarrow> string \<Rightarrow> 'h frozen_node \<Rightarrow> string \<Rightarrow> slice list \<Rightarrow> 's
       \<Rightarrow> 'h path_match option \<times> 's"
  and resolve_param ::
    "('h, 's) accepts \<Rightarrow> string \<Rightarrow> 'h frozen_node \<Rightarrow> string \<Rightarrow> slice list \<Rightarrow> 's
       \<Rightarrow> 'h path_match option \<times> 's"
where
  "resolve accepts path node [] s =
     (case accepts s (frozen_handlers node) of
        (ok, s') \<Rightarrow> (if ok then Some (frozen_handlers node, []) else None, s'))"
| "resolve accepts path node (segment # rest) s =
     (case resolve_static accepts path node (snd segment) rest s of
        (Some matched, s1) \<Rightarrow> (Some matched, s1)
      | (None, s1) \<Rightarrow>
          (case resolve_param accepts path node (snd segment) rest s1 of
             (Some matched, s2) \<Rightarrow> (Some matched, s2)
           | (None, s2) \<Rightarrow> resolve_wildcard accepts path node (segment # rest) s2))"
| "resolve_static accepts path node segment rest s =
     (case binary_search_by_key fst segment (frozen_static node) of
        Inl _ \<Rightarrow> (None, s)
      | Inr idx \<Rightarrow> resolve accepts path (snd (frozen_static node ! idx)) rest s)"
| "resolve_param accepts path node segment rest s =
     (case frozen_param node of
        None \<Rightarrow> (None, s)
      | Some child \<Rightarrow>
          (case resolve accepts path child rest s of
             (None, s') \<Rightarrow> (None, s')
           | (Some (handlers, captures), s') \<Rightarrow> (Some (handlers, captures @ [segment]), s')))"
  by pat_completeness auto
termination
  by (relation "measure (\<lambda>x. case x of
        Inl (_, _, _, segs, _) \<Rightarrow> 2 * length segs
      | Inr (Inl (_, _, _, _, rest, _)) \<Rightarrow> 2 * length rest + 1
      | Inr (Inr (_, _, _, _, rest, _)) \<Rightarrow> 2 * length rest + 1)") auto

record 'h selected =
  sel_route :: string
  sel_handler :: "'h route_handler"
  sel_capture_names :: "string list"
  sel_captures :: "string list"

definition select :: "'h frozen_node \<Rightarrow> http_method \<Rightarrow> string \<Rightarrow> slice list \<Rightarrow> 'h selected option" where
  "select node method path segments =
     (case fst (resolve (\<lambda>s handlers. (slot_serves (by_method handlers) method, s))
                  path node segments ()) of
        None \<Rightarrow> None
      | Some (handlers, captures) \<Rightarrow>
          (case select_slot (by_method handlers) method of
             None \<Rightarrow> None
           | Some h \<Rightarrow>
               Some \<lparr>sel_route = fh_route h, sel_handler = fh_handler h,
                     sel_capture_names = fh_capture_names h, sel_captures = rev captures\<rparr>))"

definition bind_params :: "'h selected \<Rightarrow> (string \<times> string) list" where
  "bind_params sel = zip (sel_capture_names sel) (sel_captures sel)"

datatype 'h route_lookup = Matched "'h selected" | MethodMismatch string string | Unmatched

definition merge_allow :: "claimed \<Rightarrow> claimed list \<Rightarrow> string" where
  "merge_allow first rest =
     (let served = fold (\<lambda>c mask. mask OR cl_served c) rest (cl_served first)
      in if served = cl_served first then cl_allow first else render_allow served)"

definition refuse_method :: "'h frozen_node \<Rightarrow> string \<Rightarrow> slice list \<Rightarrow> 'h route_lookup" where
  "refuse_method node path segments =
     (case snd (resolve
            (\<lambda>claims handlers.
               (False, claims @ (case claim handlers of None \<Rightarrow> [] | Some c \<Rightarrow> [c])))
            path node segments []) of
        [] \<Rightarrow> Unmatched
      | first # rest \<Rightarrow> MethodMismatch (cl_route first) (merge_allow first rest))"

definition lookup ::
  "'h frozen_node \<Rightarrow> http_method option \<Rightarrow> string \<Rightarrow> slice list \<Rightarrow> 'h route_lookup" where
  "lookup node method path segments =
     (case Option.bind method (\<lambda>m. select node m path segments) of
        Some sel \<Rightarrow> Matched sel
      | None \<Rightarrow> refuse_method node path segments)"

fun visit_handlers :: "'h frozen_method_handlers \<Rightarrow> (http_method \<times> string \<times> 'h route_handler) list" where
  "visit_handlers fmh =
     List.map_filter (\<lambda>m. map_option (\<lambda>h. (m, fh_route h, fh_handler h)) (by_method fmh ! ordinal m))
       method_all"

fun visit_registrations :: "'h frozen_node \<Rightarrow> (http_method \<times> string \<times> 'h route_handler) list" where
  "visit_registrations (FrozenNode sc pc wc hs) =
     visit_handlers hs
     @ (case wc of None \<Rightarrow> [] | Some w \<Rightarrow> visit_handlers w)
     @ concat (map (\<lambda>(_, child). visit_registrations child) sc)
     @ (case pc of None \<Rightarrow> [] | Some child \<Rightarrow> visit_registrations child)"

end
