(* ===== verification/Route_Matching.thy ===== *)
theory Route_Matching
  imports Route_Trie
begin

text \<open>
  The behaviour of the routing trie. A pattern is registered under a key (its literal
  segments, with the capture names dropped and everything after a catch-all ignored), and
  \<open>match_keys\<close> lists the keys that match a path in precedence order: literal before
  parameter before catch-all, segment by segment. \<open>spec_select\<close> and \<open>spec_lookup\<close> say
  what routing promises in those terms, without a tree; the trie refines them.
\<close>

section \<open>Keys of patterns\<close>

datatype seg_key = KStatic string | KParam | KWild

fun pattern_key :: "segment list \<Rightarrow> seg_key list" where
  "pattern_key [] = []"
| "pattern_key (Static n # rest) = KStatic n # pattern_key rest"
| "pattern_key (Param _ # rest) = KParam # pattern_key rest"
| "pattern_key (Wildcard _ # rest) = [KWild]"

fun handlers_at :: "seg_key list \<Rightarrow> 'h trie_node \<Rightarrow> 'h registered_handler list" where
  "handlers_at [] t = node_handlers t"
| "handlers_at (KStatic n # ks) t =
     (case map_of (static_children t) n of None \<Rightarrow> [] | Some c \<Rightarrow> handlers_at ks c)"
| "handlers_at (KParam # ks) t =
     (case param_child t of None \<Rightarrow> [] | Some c \<Rightarrow> handlers_at ks c)"
| "handlers_at (KWild # ks) t =
     (case ks of [] \<Rightarrow> (case wildcard t of None \<Rightarrow> [] | Some w \<Rightarrow> w) | _ \<Rightarrow> [])"

fun key_matches :: "seg_key list \<Rightarrow> string list \<Rightarrow> bool" where
  "key_matches [] ss = (ss = [])"
| "key_matches (KStatic n # ks) ss = (case ss of [] \<Rightarrow> False | s # ss' \<Rightarrow> s = n \<and> key_matches ks ss')"
| "key_matches (KParam # ks) ss = (case ss of [] \<Rightarrow> False | s # ss' \<Rightarrow> key_matches ks ss')"
| "key_matches (KWild # ks) ss = (ks = [] \<and> ss \<noteq> [])"

fun match_keys :: "string list \<Rightarrow> seg_key list list" where
  "match_keys [] = [[]]"
| "match_keys (s # ss) =
     map ((#) (KStatic s)) (match_keys ss) @ map ((#) KParam) (match_keys ss) @ [[KWild]]"

fun key_rank :: "seg_key \<Rightarrow> nat" where
  "key_rank (KStatic _) = 0"
| "key_rank KParam = 1"
| "key_rank KWild = 2"

text \<open>The captures a match collects, innermost first, as the traversal pushes them.\<close>

fun key_captures :: "string \<Rightarrow> seg_key list \<Rightarrow> slice list \<Rightarrow> string list" where
  "key_captures path [] segs = []"
| "key_captures path (KStatic _ # ks) segs = key_captures path ks (tl segs)"
| "key_captures path (KParam # ks) segs = key_captures path ks (tl segs) @ [snd (hd segs)]"
| "key_captures path (KWild # ks) segs = [wildcard_span path segs]"

lemma key_cases [case_names Nil Static Param Wild]:
  fixes k :: "seg_key list"
  obtains "k = []" | n ks where "k = KStatic n # ks" | ks where "k = KParam # ks"
    | ks where "k = KWild # ks"
proof (cases k)
  case (Cons x xs)
  then show ?thesis by (cases x) (auto intro: that)
qed (rule that(1))

lemma match_keys_iff: "k \<in> set (match_keys ss) \<longleftrightarrow> key_matches k ss"
proof (induction ss arbitrary: k)
  case Nil
  show ?case by (cases k rule: key_cases) auto
next
  case (Cons s ss)
  show ?case by (cases k rule: key_cases) (auto simp: Cons.IH)
qed

lemma match_keys_sorted: "sorted_wrt (\<lambda>a b. map key_rank a < map key_rank b) (match_keys ss)"
  by (induction ss) (auto simp: sorted_wrt_append sorted_wrt_map)

section \<open>The trie invariant\<close>

fun wf_trie :: "'h trie_node \<Rightarrow> bool" where
  "wf_trie (TrieNode sc pc wc hs) \<longleftrightarrow>
     sorted_wrt (<) (map fst sc) \<and> list_all (\<lambda>(_, c). wf_trie c) sc
     \<and> (case pc of None \<Rightarrow> True | Some c \<Rightarrow> wf_trie c)"

lemma btree_update_keys: "fst ` set (btree_update k f m) = insert k (fst ` set m)"
  by (induction k f m rule: btree_update.induct) auto

lemma btree_update_sorted:
  "sorted_wrt (<) (map fst m) \<Longrightarrow> sorted_wrt (<) (map fst (btree_update k f m))"
proof (induction m)
  case (Cons x m)
  obtain k' v where x: "x = (k', v)" by (cases x)
  have "\<forall>y \<in> set (map fst (btree_update k f m)). k' < y" if "k' < k"
    using that Cons.prems btree_update_keys [of k f m] by (auto simp: x)
  with Cons show ?case by (auto simp: x)
qed simp

lemma map_of_btree_update:
  "sorted_wrt (<) (map fst m) \<Longrightarrow>
   map_of (btree_update k f m) = (map_of m)(k \<mapsto> f (map_of m k))"
proof (induction m)
  case (Cons x m)
  obtain k' v where x: "x = (k', v)" by (cases x)
  have "map_of m k = None" if "k < k' \<or> k = k'"
    using that Cons.prems by (auto simp: x map_of_eq_None_iff)
  with Cons show ?case by (auto simp: x fun_eq_iff)
qed simp

lemma btree_update_all:
  assumes "\<forall>x \<in> set m. P (snd x)" and "P (f None)" and "\<And>v. P v \<Longrightarrow> P (f (Some v))"
  shows "\<forall>x \<in> set (btree_update k f m). P (snd x)"
  using assms(1) by (induction m) (fastforce simp: assms(2,3) split: if_splits)+

lemma wf_trie_new [simp]: "wf_trie trie_new"
  by (simp add: trie_new_def)

lemma wf_trie_child:
  "wf_trie t \<Longrightarrow> map_of (static_children t) n = Some c \<Longrightarrow> wf_trie c"
  by (cases t) (auto simp: list_all_iff dest!: map_of_SomeD)

lemma wf_trie_param: "wf_trie t \<Longrightarrow> param_child t = Some c \<Longrightarrow> wf_trie c"
  by (cases t) auto

lemma wf_trie_sorted: "wf_trie t \<Longrightarrow> sorted_wrt (<) (map fst (static_children t))"
  by (cases t) auto

lemma wf_insert_segments: "wf_trie t \<Longrightarrow> wf_trie (insert_segments segs r t)"
proof (induction segs r t rule: insert_segments.induct)
  case (2 name rest r sc pc wc hs)
  let ?f = "\<lambda>child. insert_segments rest r (case child of None \<Rightarrow> trie_new | Some n \<Rightarrow> n)"
  have "\<forall>x \<in> set (btree_update name ?f sc). wf_trie (snd x)"
  proof (rule btree_update_all)
    show "\<forall>x \<in> set sc. wf_trie (snd x)"
      using "2.prems" by (auto simp: list_all_iff)
    show "wf_trie (?f None)" using "2.IH" [of None] by simp
    show "wf_trie (?f (Some v))" if "wf_trie v" for v using "2.IH" [of "Some v"] that by simp
  qed
  then show ?case
    using "2.prems" btree_update_sorted [of sc name ?f] by (auto simp: list_all_iff)
next
  case (3 uu rest r sc pc wc hs)
  then show ?case by (cases pc) auto
qed auto

lemma handlers_at_new [simp]: "handlers_at k trie_new = []"
  by (cases k rule: key_cases) (auto simp: trie_new_def split: list.splits)

lemma handlers_at_insert:
  "wf_trie t \<Longrightarrow>
   handlers_at k (insert_segments segs r t) =
     handlers_at k t @ (if k = pattern_key segs then [r] else [])"
proof (induction segs r t arbitrary: k rule: insert_segments.induct)
  case (1 r sc pc wc hs)
  show ?case by (cases k rule: key_cases) (auto split: list.splits)
next
  case (2 name rest r sc pc wc hs)
  have wf: "wf_trie (case map_of sc name of None \<Rightarrow> trie_new | Some n \<Rightarrow> n)"
    using wf_trie_child [OF "2.prems"] by (auto split: option.splits)
  have "sorted_wrt (<) (map fst sc)" using "2.prems" by simp
  note upd = map_of_btree_update [OF this]
  show ?case
    using "2.IH" [OF wf] by (cases k rule: key_cases) (auto simp: upd split: option.splits)
next
  case (3 uu rest r sc pc wc hs)
  have wf: "wf_trie (case pc of None \<Rightarrow> trie_new | Some n \<Rightarrow> n)"
    using "3.prems" by (auto split: option.splits)
  show ?case
    using "3.IH" [OF wf] by (cases k rule: key_cases) (auto split: option.splits)
next
  case (4 uu rest r sc pc wc hs)
  show ?case by (cases k rule: key_cases) (auto split: list.splits)
qed

text \<open>The trie is a keyed registry, under the keys of the registered patterns.\<close>

interpretation trie: keyed_registry trie_new insert_segments handlers_at pattern_key wf_trie
  by unfold_locales (simp_all add: wf_insert_segments handlers_at_insert)

section \<open>The traversal as a scan of candidates\<close>

text \<open>The handler sets a path reaches, in precedence order, with their raw captures.\<close>

fun cands :: "string \<Rightarrow> 'h trie_node \<Rightarrow> slice list \<Rightarrow> ('h registered_handler list \<times> string list) list" where
  "cands path t [] = [(node_handlers t, [])]"
| "cands path t (seg # rest) =
     (case map_of (static_children t) (snd seg) of None \<Rightarrow> [] | Some c \<Rightarrow> cands path c rest)
     @ (case param_child t of
          None \<Rightarrow> []
        | Some c \<Rightarrow> map (\<lambda>(h, cs). (h, cs @ [snd seg])) (cands path c rest))
     @ (case wildcard t of None \<Rightarrow> [] | Some w \<Rightarrow> [(w, [wildcard_span path (seg # rest)])])"

fun scan :: "('s \<Rightarrow> 'a \<Rightarrow> bool \<times> 's) \<Rightarrow> ('a \<times> 'c) list \<Rightarrow> 's \<Rightarrow> ('a \<times> 'c) option \<times> 's" where
  "scan acc [] s = (None, s)"
| "scan acc (x # xs) s =
     (case acc s (fst x) of (ok, s') \<Rightarrow> if ok then (Some x, s') else scan acc xs s')"

lemma scan_append:
  "scan acc (xs @ ys) s =
     (case scan acc xs s of (Some x, s') \<Rightarrow> (Some x, s') | (None, s') \<Rightarrow> scan acc ys s')"
  by (induction xs arbitrary: s) (auto split: prod.splits)

lemma scan_map_snd:
  "scan acc (map (\<lambda>(h, cs). (h, g cs)) xs) s =
     (case scan acc xs s of (r, s') \<Rightarrow> (map_option (\<lambda>(h, cs). (h, g cs)) r, s'))"
  by (induction xs arbitrary: s) (auto split: prod.splits)

lemma scan_find:
  "fst (scan (\<lambda>s h. (P h, s)) xs s) = find (\<lambda>x. P (fst x)) xs"
  by (induction xs) auto

lemma scan_collect:
  "scan (\<lambda>cl h. (False, cl @ f h)) xs s = (None, s @ concat (map (f \<circ> fst) xs))"
  by (induction xs arbitrary: s) auto

lemma freeze_sel [simp]:
  "frozen_handlers (freeze t) = freeze_handlers (node_handlers t)"
  "frozen_param (freeze t) = map_option freeze (param_child t)"
  "frozen_wildcard (freeze t) = map_option freeze_handlers (wildcard t)"
  "frozen_static (freeze t) = map (\<lambda>(k, v). (k, freeze v)) (static_children t)"
  by (cases t; simp)+

lemma freeze_search:
  assumes "wf_trie t"
  shows "(case binary_search_by_key fst n (frozen_static (freeze t)) of
            Inl _ \<Rightarrow> None | Inr i \<Rightarrow> Some (snd (frozen_static (freeze t) ! i)))
         = map_option freeze (map_of (static_children t) n)"
proof -
  have "sorted_wrt (<) (map fst (frozen_static (freeze t)))"
    using wf_trie_sorted [OF assms] by (simp add: comp_def case_prod_beta)
  from binary_search_map_of [OF this, of n] show ?thesis
    by (simp add: map_of_map split: sum.splits)
qed

lemma resolve_static_freeze:
  assumes "wf_trie t"
  shows "resolve_static acc path (freeze t) n rest s =
     (case map_of (static_children t) n of
        None \<Rightarrow> (None, s) | Some c \<Rightarrow> resolve acc path (freeze c) rest s)"
  using freeze_search [OF assms, of n]
  by (auto split: sum.splits option.splits simp del: freeze_sel)

lemma resolve_freeze:
  "wf_trie t \<Longrightarrow>
   resolve acc path (freeze t) segs s =
     scan acc (map (\<lambda>(h, cs). (freeze_handlers h, cs)) (cands path t segs)) s"
proof (induction segs arbitrary: t s)
  case Nil
  show ?case by (auto split: prod.splits)
next
  case (Cons seg rest)
  let ?fz = "map (\<lambda>(h, cs). (freeze_handlers h, cs))"
  have stat: "resolve_static acc path (freeze t) (snd seg) rest s =
      scan acc (?fz (case map_of (static_children t) (snd seg) of
                       None \<Rightarrow> [] | Some c \<Rightarrow> cands path c rest)) s" for s
    using Cons.IH wf_trie_child [OF Cons.prems]
    by (auto simp: resolve_static_freeze [OF Cons.prems] simp del: resolve_static.simps
        split: option.splits)
  have param: "resolve_param acc path (freeze t) (snd seg) rest s =
      scan acc (?fz (case param_child t of
                       None \<Rightarrow> []
                     | Some c \<Rightarrow> map (\<lambda>(h, cs). (h, cs @ [snd seg])) (cands path c rest))) s" for s
  proof (cases "param_child t")
    case (Some c)
    have swap: "?fz (map (\<lambda>(h, cs). (h, cs @ [snd seg])) xs) =
        map (\<lambda>(h, cs). (h, cs @ [snd seg])) (?fz xs)" for xs :: "('a registered_handler list \<times> string list) list"
      by auto
    show ?thesis
      using Cons.IH [OF wf_trie_param [OF Cons.prems Some]] Some
      by (simp add: swap scan_map_snd del: map_map split: option.splits prod.splits)
  qed simp
  have wild: "resolve_wildcard acc path (freeze t) (seg # rest) s =
      scan acc (?fz (case wildcard t of
                       None \<Rightarrow> [] | Some w \<Rightarrow> [(w, [wildcard_span path (seg # rest)])])) s" for s
    by (auto simp: resolve_wildcard_def split: option.splits prod.splits)
  show ?case
    by (simp add: stat param wild scan_append del: resolve_static.simps resolve_param.simps
        split: option.splits prod.splits)
qed

section \<open>Candidates and keys\<close>

text \<open>
  A node that exists but serves nothing claims nothing, so what decides a lookup is the list of
  matching keys under which something is registered.
\<close>

abbreviation live :: "('a list \<times> 'b) list \<Rightarrow> ('a list \<times> 'b) list" where
  "live \<equiv> filter (\<lambda>x. fst x \<noteq> [])"

definition key_cands ::
  "string \<Rightarrow> (seg_key list \<Rightarrow> 'r list) \<Rightarrow> slice list \<Rightarrow> ('r list \<times> string list) list" where
  "key_cands path at segs =
     map (\<lambda>k. (at k, key_captures path k segs)) (match_keys (map snd segs))"

lemma live_cands:
  "live (cands path t segs) = live (key_cands path (\<lambda>k. handlers_at k t) segs)"
proof (induction segs arbitrary: t)
  case Nil
  show ?case by (simp add: key_cands_def)
next
  case (Cons seg rest)
  let ?ks = "match_keys (map snd rest)"
  have stat: "live (case map_of (static_children t) (snd seg) of None \<Rightarrow> [] | Some c \<Rightarrow> cands path c rest)
      = live (map (\<lambda>k. (handlers_at (KStatic (snd seg) # k) t, key_captures path (KStatic (snd seg) # k) (seg # rest))) ?ks)"
  proof (cases "map_of (static_children t) (snd seg)")
    case None
    then show ?thesis by (simp add: filter_empty_conv)
  next
    case (Some c)
    with Cons.IH [of c] show ?thesis by (simp add: key_cands_def)
  qed
  have param: "live (case param_child t of None \<Rightarrow> []
        | Some c \<Rightarrow> map (\<lambda>(h, cs). (h, cs @ [snd seg])) (cands path c rest))
      = live (map (\<lambda>k. (handlers_at (KParam # k) t, key_captures path (KParam # k) (seg # rest))) ?ks)"
  proof (cases "param_child t")
    case None
    then show ?thesis by (simp add: filter_empty_conv)
  next
    case (Some c)
    have "live (map (\<lambda>(h, cs). (h, cs @ [snd seg])) xs) = map (\<lambda>(h, cs). (h, cs @ [snd seg])) (live xs)"
      for xs :: "('a registered_handler list \<times> string list) list"
      by (induction xs) auto
    with Cons.IH [of c] Some show ?thesis
      by (simp add: key_cands_def filter_map comp_def)
  qed
  have wild: "live (case wildcard t of None \<Rightarrow> [] | Some w \<Rightarrow> [(w, [wildcard_span path (seg # rest)])])
      = live [(handlers_at [KWild] t, key_captures path [KWild] (seg # rest))]"
    by (auto split: option.splits)
  show ?case
    by (simp add: stat param wild key_cands_def comp_def del: handlers_at.simps key_captures.simps)
qed

section \<open>Slots of a handler set\<close>

text \<open>The registration a method selects: the last one of that method, HEAD falling back to GET.\<close>

definition last_with :: "http_method \<Rightarrow> 'h registered_handler list \<Rightarrow> 'h registered_handler option" where
  "last_with m rs = find (\<lambda>r. rg_method r = m) (rev rs)"

definition spec_slot :: "'h registered_handler list \<Rightarrow> http_method \<Rightarrow> 'h registered_handler option" where
  "spec_slot rs m =
     (case last_with m rs of
        Some r \<Rightarrow> Some r
      | None \<Rightarrow>
          if m = Head
          then Option.bind (last_with Get rs) (\<lambda>r. if answers_head (rg_handler r) then Some r else None)
          else None)"

definition frozen_of :: "'h registered_handler \<Rightarrow> 'h frozen_handler" where
  "frozen_of r = \<lparr>fh_handler = rg_handler r, fh_capture_names = rg_capture_names r, fh_route = rg_route r\<rparr>"

lemma length_freeze_slots [simp]: "length (freeze_slots rs) = method_count"
proof (induction rs rule: rev_induct)
  case (snoc r rs)
  then show ?case by (simp add: freeze_slots_def)
qed (simp add: freeze_slots_def)

lemma freeze_slots_nth [simp]: "freeze_slots rs ! ordinal m = map_option frozen_of (last_with m rs)"
proof (induction rs rule: rev_induct)
  case Nil
  show ?case by (simp add: freeze_slots_def last_with_def)
next
  case (snoc r rs)
  have "freeze_slots (rs @ [r]) = (freeze_slots rs)[ordinal (rg_method r) := Some (frozen_of r)]"
    by (simp add: freeze_slots_def frozen_of_def)
  with snoc show ?case
    by (cases "rg_method r = m") (simp_all add: last_with_def)
qed

lemma select_slot_freeze [simp]: "select_slot (freeze_slots rs) m = map_option frozen_of (spec_slot rs m)"
proof (cases "last_with m rs")
  case None
  have "head_from_get (freeze_slots rs) =
      map_option frozen_of (Option.bind (last_with Get rs) (\<lambda>r. if answers_head (rg_handler r) then Some r else None))"
    by (cases "last_with Get rs") (auto simp: head_from_get_def freeze_slots_nth [of rs Get] frozen_of_def
        simp del: ordinal.simps)
  with None show ?thesis by (cases m) (simp_all add: select_slot_def spec_slot_def del: ordinal.simps)
next
  case (Some r)
  then show ?thesis by (simp add: select_slot_def spec_slot_def)
qed

lemma slot_serves_freeze [simp]: "slot_serves (freeze_slots rs) m \<longleftrightarrow> spec_slot rs m \<noteq> None"
  by (simp add: slot_serves_def)

lemma last_with_None: "last_with m rs = None \<longleftrightarrow> (\<forall>r \<in> set rs. rg_method r \<noteq> m)"
  by (auto simp: last_with_def find_None_iff)

lemma last_with_Some: "last_with m rs = Some r \<Longrightarrow> r \<in> set rs \<and> rg_method r = m"
  by (induction rs rule: rev_induct) (auto simp: last_with_def split: if_splits)

lemma spec_slot_in: "spec_slot rs m = Some r \<Longrightarrow> r \<in> set rs"
  by (auto simp: spec_slot_def split: option.splits if_splits bind_splits dest: last_with_Some)

lemma spec_slot_Nil [simp]: "spec_slot [] m = None"
  by (simp add: spec_slot_def last_with_def)

lemma find_map_None: "find_map f xs = None \<longleftrightarrow> (\<forall>x \<in> set xs. f x = None)"
  by (induction xs) (auto split: option.splits)

lemma canonical_methods_all [simp]: "m \<in> set canonical_methods"
  by (cases m) (simp_all add: canonical_methods_def)

text \<open>The route a refusal names: the first served method in canonical order.\<close>

definition claim_route :: "'h registered_handler list \<Rightarrow> string option" where
  "claim_route rs = map_option rg_route (find_map (\<lambda>m. last_with m rs) canonical_methods)"

lemma claim_route_None [simp]: "claim_route rs = None \<longleftrightarrow> rs = []"
proof -
  have "claim_route rs = None \<longleftrightarrow> (\<forall>m. last_with m rs = None)"
    by (auto simp: claim_route_def find_map_None)
  also have "\<dots> \<longleftrightarrow> rs = []"
    by (cases rs) (auto simp: last_with_None)
  finally show ?thesis .
qed

lemma claim_route_Nil [simp]: "claim_route [] = None"
  by simp

lemma find_map_map_option: "find_map (\<lambda>x. map_option g (f x)) xs = map_option g (find_map f xs)"
  by (induction xs) (auto split: option.splits)

lemma freeze_claim_freeze [simp]:
  "freeze_claim (freeze_slots rs) =
     map_option (\<lambda>route. \<lparr>cl_route = route, cl_allow = render_allow (served_mask (freeze_slots rs)),
        cl_served = served_mask (freeze_slots rs)\<rparr>) (claim_route rs)"
  by (auto simp: freeze_claim_def claim_route_def find_map_map_option frozen_of_def Let_def
      split: option.splits)

lemma freeze_handlers_sel [simp]:
  "by_method (freeze_handlers rs) = freeze_slots rs"
  "claim (freeze_handlers rs) = freeze_claim (freeze_slots rs)"
  by (simp_all add: freeze_handlers_def Let_def)

section \<open>Method masks\<close>

lemma bit_method_bit [simp]: "bit (method_bit a) (ordinal b) \<longleftrightarrow> a = b"
proof -
  have "ordinal b < 8" by (cases b) simp_all
  then show ?thesis by (auto simp: method_bit_def push_bit_eq_mult bit_exp_iff)
qed

lemma and_method_bit [simp]: "msk AND method_bit m \<noteq> 0 \<longleftrightarrow> bit msk (ordinal m)"
  by (simp add: method_bit_def push_bit_eq_mult and_exp_eq_0_iff_not_bit)

lemma bit_fold_or: "bit (fold (\<lambda>x mask. mask OR g x) xs (a :: 'a::len word)) n \<longleftrightarrow> bit a n \<or> (\<exists>x \<in> set xs. bit (g x) n)"
  by (induction xs arbitrary: a) (auto simp: bit_or_iff)

lemma bit_served_mask [simp]: "bit (served_mask slots) (ordinal m) \<longleftrightarrow> slot_serves slots m"
  by (auto simp: served_mask_def bit_fold_or)

text \<open>The text of an \<open>Allow\<close> header for a list of methods.\<close>

fun allow_text :: "http_method list \<Rightarrow> string" where
  "allow_text [] = []"
| "allow_text [m] = method_as_str m"
| "allow_text (m # ms) = method_as_str m @ '', '' @ allow_text ms"

lemma method_as_str_not_Nil [simp]: "method_as_str m \<noteq> []"
  by (cases m) simp_all

lemma allow_text_Cons: "ms \<noteq> [] \<Longrightarrow> allow_text (m # ms) = method_as_str m @ '', '' @ allow_text ms"
  by (cases ms) simp_all

lemma fold_allow:
  "r \<noteq> [] \<Longrightarrow>
   fold (\<lambda>m rendered. rendered @ (if rendered = [] then [] else '', '') @ method_as_str m) ms r =
     (if ms = [] then r else r @ '', '' @ allow_text ms)"
proof (induction ms arbitrary: r)
  case (Cons m ms)
  from Cons.prems Cons.IH [of "r @ '', '' @ method_as_str m"] show ?case
    by (cases "ms = []") (simp_all add: allow_text_Cons)
qed simp

lemma render_allow_text:
  "render_allow msk = allow_text (filter (\<lambda>m. bit msk (ordinal m)) canonical_methods)"
proof -
  have "fold (\<lambda>m rendered. rendered @ (if rendered = [] then [] else '', '') @ method_as_str m) ms [] =
      allow_text ms" for ms
  proof (cases ms)
    case (Cons m ms')
    then show ?thesis by (simp add: fold_allow allow_text_Cons)
  qed simp
  then show ?thesis by (simp add: render_allow_def)
qed

section \<open>What routing promises\<close>

definition selected_of :: "'h registered_handler \<Rightarrow> string list \<Rightarrow> 'h selected" where
  "selected_of r captures =
     \<lparr>sel_route = rg_route r, sel_handler = rg_handler r,
      sel_capture_names = rg_capture_names r, sel_captures = captures\<rparr>"

text \<open>
  Selection reads the matching keys in precedence order and answers with the first whose
  registrations serve the method.
\<close>

definition spec_select ::
  "(seg_key list \<Rightarrow> 'h registered_handler list) \<Rightarrow> http_method \<Rightarrow> string \<Rightarrow> slice list \<Rightarrow> 'h selected option" where
  "spec_select at m path segs =
     find_map (\<lambda>k. map_option (\<lambda>r. selected_of r (rev (key_captures path k segs))) (spec_slot (at k) m))
       (match_keys (map snd segs))"

text \<open>
  A refusal names the first claiming key's route and every method some matching key serves.
\<close>

definition served_methods ::
  "(seg_key list \<Rightarrow> 'h registered_handler list) \<Rightarrow> string list \<Rightarrow> http_method list" where
  "served_methods at ss =
     filter (\<lambda>m. \<exists>k \<in> set (match_keys ss). spec_slot (at k) m \<noteq> None) canonical_methods"

definition spec_lookup ::
  "(seg_key list \<Rightarrow> 'h registered_handler list) \<Rightarrow> http_method option \<Rightarrow> string \<Rightarrow> slice list \<Rightarrow> 'h route_lookup" where
  "spec_lookup at mo path segs =
     (case Option.bind mo (\<lambda>m. spec_select at m path segs) of
        Some sel \<Rightarrow> Matched sel
      | None \<Rightarrow>
          (case find_map (\<lambda>k. claim_route (at k)) (match_keys (map snd segs)) of
             None \<Rightarrow> Unmatched
           | Some route \<Rightarrow> MethodMismatch route (allow_text (served_methods at (map snd segs)))))"

lemma find_live: "(\<And>x. P x \<Longrightarrow> fst x \<noteq> []) \<Longrightarrow> find P (live xs) = find P xs"
  by (induction xs) auto

lemma find_find_map: "find_map f (map g xs) = find_map (f \<circ> g) xs"
  by (induction xs) (auto split: option.splits)

lemma find_as_find_map:
  "Option.bind (find (\<lambda>x. f x \<noteq> None) xs) f = find_map f xs"
  by (induction xs) auto

lemma find_map_option_fz:
  "find P (map g xs) = map_option g (find (\<lambda>x. P (g x)) xs)"
  by (induction xs) auto

lemma select_refines:
  assumes "wf_trie t"
  shows "select (freeze t) m path segs = spec_select (\<lambda>k. handlers_at k t) m path segs"
proof -
  let ?at = "\<lambda>k. handlers_at k t"
  let ?f = "\<lambda>x. map_option (\<lambda>r. selected_of r (rev (snd x))) (spec_slot (fst x) m)"
  let ?cs = "cands path t segs"
  have serves: "(?f x \<noteq> None) \<longleftrightarrow> spec_slot (fst x) m \<noteq> None" for x by simp
  have "fst (resolve (\<lambda>s h. (slot_serves (by_method h) m, s)) path (freeze t) segs ()) =
      map_option (\<lambda>(h, cs). (freeze_handlers h, cs)) (find (\<lambda>x. spec_slot (fst x) m \<noteq> None) ?cs)"
    unfolding resolve_freeze [OF assms] scan_find find_map_option_fz by (simp add: case_prod_beta)
  then have "select (freeze t) m path segs = Option.bind (find (\<lambda>x. spec_slot (fst x) m \<noteq> None) ?cs) ?f"
    by (cases "find (\<lambda>x. spec_slot (fst x) m \<noteq> None) ?cs")
       (auto simp: select_def selected_of_def frozen_of_def split: option.splits)
  also have "\<dots> = Option.bind (find (\<lambda>x. spec_slot (fst x) m \<noteq> None) (live ?cs)) ?f"
    by (subst find_live) auto
  also have "\<dots> = Option.bind (find (\<lambda>x. spec_slot (fst x) m \<noteq> None) (key_cands path ?at segs)) ?f"
    unfolding live_cands by (subst find_live) auto
  also have "\<dots> = find_map ?f (key_cands path ?at segs)"
    using find_as_find_map [of ?f "key_cands path ?at segs"] by (simp only: serves)
  also have "\<dots> = spec_select ?at m path segs"
    by (simp add: key_cands_def spec_select_def find_find_map comp_def)
  finally show ?thesis .
qed

lemma find_map_filter: "find_map f xs = (case List.map_filter f xs of [] \<Rightarrow> None | y # _ \<Rightarrow> Some y)"
  by (induction xs) (auto simp: List.map_filter_simps split: option.splits)

lemma map_filter_live:
  "(\<And>x. fst x = [] \<Longrightarrow> f x = None) \<Longrightarrow> List.map_filter f (live xs) = List.map_filter f xs"
  by (induction xs) (auto simp: List.map_filter_simps split: option.splits)

lemma concat_claims:
  "concat (map (\<lambda>x. case f x of None \<Rightarrow> [] | Some c \<Rightarrow> [c]) xs) = List.map_filter f xs"
  by (induction xs) (auto simp: List.map_filter_simps split: option.splits)

lemma map_filter_map: "List.map_filter f (map g xs) = List.map_filter (f \<circ> g) xs"
  by (simp add: List.map_filter_def comp_def filter_map)

lemma map_filter_map_option: "List.map_filter (\<lambda>x. map_option g (f x)) xs = map g (List.map_filter f xs)"
  by (induction xs) (auto simp: List.map_filter_simps split: option.splits)

lemma refusal_claims:
  assumes "wf_trie t"
  shows "snd (resolve (\<lambda>cl h. (False, cl @ (case claim h of None \<Rightarrow> [] | Some c \<Rightarrow> [c])))
            path (freeze t) segs []) =
         List.map_filter (\<lambda>k. freeze_claim (freeze_slots (handlers_at k t))) (match_keys (map snd segs))"
proof -
  let ?f = "\<lambda>x :: 'a registered_handler list \<times> string list. freeze_claim (freeze_slots (fst x))"
  have none: "fst x = [] \<Longrightarrow> ?f x = None" for x :: "'a registered_handler list \<times> string list"
    by (simp add: option.map_disc_iff)
  have "snd (resolve (\<lambda>cl h. (False, cl @ (case claim h of None \<Rightarrow> [] | Some c \<Rightarrow> [c])))
            path (freeze t) segs []) = List.map_filter ?f (cands path t segs)"
    unfolding resolve_freeze [OF assms] scan_collect concat_claims [symmetric]
    by (simp add: comp_def case_prod_beta)
  also have "\<dots> = List.map_filter ?f (live (cands path t segs))"
    by (rule map_filter_live [symmetric]) (rule none)
  also have "\<dots> = List.map_filter ?f (key_cands path (\<lambda>k. handlers_at k t) segs)"
    unfolding live_cands by (rule map_filter_live) (rule none)
  finally show ?thesis by (simp add: key_cands_def map_filter_map comp_def)
qed

lemma merge_allow_render:
  "cl_allow c = render_allow (cl_served c) \<Longrightarrow>
   merge_allow c cs = render_allow (fold (\<lambda>c msk. msk OR cl_served c) cs (cl_served c))"
  by (simp add: merge_allow_def Let_def)

lemma refuse_refines:
  assumes "wf_trie t"
  shows "refuse_method (freeze t) path segs =
     (case find_map (\<lambda>k. claim_route (handlers_at k t)) (match_keys (map snd segs)) of
        None \<Rightarrow> Unmatched
      | Some route \<Rightarrow>
          MethodMismatch route (allow_text (served_methods (\<lambda>k. handlers_at k t) (map snd segs))))"
proof -
  let ?keys = "match_keys (map snd segs)" and ?at = "\<lambda>k. handlers_at k t"
  let ?claims = "List.map_filter (\<lambda>k. freeze_claim (freeze_slots (?at k))) ?keys"
  have route: "find_map (\<lambda>k. claim_route (?at k)) ?keys =
      (case ?claims of [] \<Rightarrow> None | c # _ \<Rightarrow> Some (cl_route c))"
  proof -
    have "find_map (\<lambda>k. claim_route (?at k)) ?keys =
        find_map (\<lambda>k. map_option cl_route (freeze_claim (freeze_slots (?at k)))) ?keys"
      by (simp add: option.map_comp comp_def option.map_ident)
    also have "\<dots> = map_option cl_route (find_map (\<lambda>k. freeze_claim (freeze_slots (?at k))) ?keys)"
      by (rule find_map_map_option)
    finally show ?thesis by (auto simp: find_map_filter split: list.splits)
  qed
  have served: "(\<exists>c \<in> set ?claims. bit (cl_served c) (ordinal m)) \<longleftrightarrow>
      (\<exists>k \<in> set ?keys. spec_slot (?at k) m \<noteq> None)" for m
  proof -
    have one: "(\<exists>c. freeze_claim (freeze_slots rs) = Some c \<and> bit (cl_served c) (ordinal m)) \<longleftrightarrow>
        spec_slot rs m \<noteq> None" for rs :: "'a registered_handler list"
    proof (cases "rs = []")
      case False
      then obtain route where "claim_route rs = Some route" by (metis claim_route_None not_Some_eq)
      then show ?thesis by simp
    qed simp
    have "(\<exists>c \<in> set ?claims. bit (cl_served c) (ordinal m)) \<longleftrightarrow>
        (\<exists>k \<in> set ?keys. \<exists>c. freeze_claim (freeze_slots (?at k)) = Some c \<and> bit (cl_served c) (ordinal m))"
      unfolding Bex_def set_map_filter mem_Collect_eq by blast
    then show ?thesis unfolding one .
  qed
  show ?thesis
  proof (cases ?claims)
    case Nil
    then show ?thesis
      unfolding refuse_method_def refusal_claims [OF assms] route by simp
  next
    case (Cons c cs)
    then have "c \<in> set ?claims" by simp
    then have "cl_allow c = render_allow (cl_served c)"
      by (auto simp: set_map_filter)
    then have "merge_allow c cs = allow_text (filter (\<lambda>m. \<exists>c' \<in> set (c # cs). bit (cl_served c') (ordinal m)) canonical_methods)"
      by (simp add: merge_allow_render render_allow_text bit_fold_or)
    also have "\<dots> = allow_text (served_methods ?at (map snd segs))"
      unfolding served_methods_def Cons [symmetric] served ..
    finally show ?thesis
      unfolding refuse_method_def refusal_claims [OF assms] route Cons by simp
  qed
qed

lemma lookup_refines:
  "wf_trie t \<Longrightarrow> lookup (freeze t) mo path segs = spec_lookup (\<lambda>k. handlers_at k t) mo path segs"
  by (simp add: lookup_def spec_lookup_def refuse_refines select_refines split: option.split)

section \<open>Routing tables\<close>

text \<open>A router's registrations, in order, and what is registered under a key.\<close>

type_synonym 'h route = "http_method \<times> string \<times> 'h route_handler"

definition build_trie :: "'h route list \<Rightarrow> 'h trie_node" where
  "build_trie rs = fold (\<lambda>(m, p, h). insert_route m p h) rs trie_new"

definition route_table :: "'h route list \<Rightarrow> seg_key list \<Rightarrow> 'h registered_handler list" where
  "route_table rs k =
     map (\<lambda>(m, p, h). registration m p h) (filter (\<lambda>(m, p, h). pattern_key (parse_segments p) = k) rs)"

lemma insert_route_eq:
  "insert_route m p h = insert_segments (parse_segments p) (registration m p h)"
  by (simp add: fun_eq_iff insert_route_def)

lemma build_trie_fold:
  "build_trie rs = fold (\<lambda>(p, r). insert_segments p r)
     (map (\<lambda>(m, p, h). (parse_segments p, registration m p h)) rs) trie_new"
  by (simp add: build_trie_def fold_map comp_def insert_route_eq split_def)

lemma wf_build_trie [simp]: "wf_trie (build_trie rs)"
  unfolding build_trie_fold by (rule trie.invar_build)

lemma handlers_at_build [simp]: "handlers_at k (build_trie rs) = route_table rs k"
  unfolding build_trie_fold trie.entries_build
  by (simp add: route_table_def filter_map comp_def split_def)

text \<open>A route claims a path when its pattern matches the path's segments.\<close>

definition route_matches :: "'h route \<Rightarrow> string list \<Rightarrow> bool" where
  "route_matches rt ss \<longleftrightarrow> key_matches (pattern_key (parse_segments (fst (snd rt)))) ss"

lemma route_table_iff:
  "r \<in> set (route_table rs k) \<longleftrightarrow>
     (\<exists>(m, p, h) \<in> set rs. pattern_key (parse_segments p) = k \<and> r = registration m p h)"
  by (force simp: route_table_def)

text \<open>A set of registrations serves a method it registers, and HEAD where a GET may answer it.\<close>

definition route_serves :: "'h route \<Rightarrow> http_method \<Rightarrow> bool" where
  "route_serves rt m \<longleftrightarrow> fst rt = m \<or> (m = Head \<and> fst rt = Get \<and> answers_head (snd (snd rt)))"

lemma registration_sel [simp]:
  "rg_method (registration m p h) = m" "rg_handler (registration m p h) = h"
  "rg_route (registration m p h) = normalize_route (parse_segments p)"
  "rg_capture_names (registration m p h) = List.map_filter capture_name (parse_segments p)"
  by (simp_all add: registration_def Let_def)

lemma spec_select_None:
  "spec_select at m path segs = None \<longleftrightarrow> (\<forall>k. key_matches k (map snd segs) \<longrightarrow> spec_slot (at k) m = None)"
  by (auto simp: spec_select_def find_map_None match_keys_iff)

lemma find_map_first:
  assumes "find_map f xs = Some y" and "sorted_wrt R xs"
  shows "\<exists>x \<in> set xs. f x = Some y \<and> (\<forall>x' \<in> set xs. f x' \<noteq> None \<longrightarrow> x' = x \<or> R x x')"
  using assms by (induction xs) (auto split: option.splits)

lemma spec_select_Some:
  assumes "spec_select at m path segs = Some sel"
  shows "\<exists>k r. key_matches k (map snd segs) \<and> spec_slot (at k) m = Some r
           \<and> sel = selected_of r (rev (key_captures path k segs))
           \<and> (\<forall>k'. key_matches k' (map snd segs) \<and> spec_slot (at k') m \<noteq> None
                 \<longrightarrow> map key_rank k \<le> map key_rank k')"
proof -
  from find_map_first [OF assms [unfolded spec_select_def] match_keys_sorted]
  obtain k where k: "k \<in> set (match_keys (map snd segs))"
    and "map_option (\<lambda>r. selected_of r (rev (key_captures path k segs))) (spec_slot (at k) m) = Some sel"
    and least: "\<forall>k' \<in> set (match_keys (map snd segs)).
        map_option (\<lambda>r. selected_of r (rev (key_captures path k' segs))) (spec_slot (at k') m) \<noteq> None
        \<longrightarrow> k' = k \<or> map key_rank k < map key_rank k'"
    by blast
  then obtain r where "spec_slot (at k) m = Some r"
    and "sel = selected_of r (rev (key_captures path k segs))" by auto
  moreover have "map key_rank k \<le> map key_rank k'"
    if "key_matches k' (map snd segs)" "spec_slot (at k') m \<noteq> None" for k'
    using least that by (auto simp: match_keys_iff)
  ultimately show ?thesis using k by (auto simp: match_keys_iff)
qed

section \<open>Segments of a path\<close>

abbreviation nonempty :: "string list \<Rightarrow> string list" where
  "nonempty \<equiv> filter (\<lambda>s. s \<noteq> [])"

abbreviation path_slices :: "nat \<Rightarrow> string \<Rightarrow> slice list" where
  "path_slices n s \<equiv> filter (\<lambda>x. snd x \<noteq> []) (str_split_at (CHR ''/'') n s)"

lemma map_snd_path_slices [simp]: "map snd (path_slices n s) = nonempty (str_split (CHR ''/'') s)"
proof -
  have "map snd (path_slices n s) = nonempty (map snd (str_split_at (CHR ''/'') n s))"
    by (simp add: filter_map comp_def del: map_snd_str_split_at)
  then show ?thesis unfolding map_snd_str_split_at .
qed

lemma push_segments_eq:
  "length acc \<le> path_segment_limit \<Longrightarrow>
   push_segments acc ss =
     (if length acc + length ss \<le> path_segment_limit then Some (acc @ ss) else None)"
  by (induction ss arbitrary: acc) auto

lemma split_path_segments_eq:
  "split_path_segments path =
     (if length (nonempty (str_split (CHR ''/'') path)) \<le> path_segment_limit
      then Some (path_slices 0 path) else None)"
proof -
  have "length (path_slices 0 path) = length (nonempty (str_split (CHR ''/'') path))"
    by (metis length_map map_snd_path_slices)
  then show ?thesis by (simp add: split_path_segments_def push_segments_eq)
qed

lemma str_split_at_head:
  "\<exists>w ws. str_split_at c n s = (n, w) # ws"
  by (cases s) (auto split: list.splits prod.splits)

lemma path_slices_sep: "path_slices n (CHR ''/'' # s) = path_slices (Suc n) s"
  by simp

lemma path_slices_char:
  assumes "x \<noteq> CHR ''/''"
  obtains w ws where "path_slices n (x # s) = (n, x # w) # ws"
    and "path_slices (Suc n) s = (if w = [] then ws else (Suc n, w) # ws)"
proof -
  from str_split_at_head [of "CHR ''/''" "Suc n" s] obtain w ws
    where "str_split_at (CHR ''/'') (Suc n) s = (Suc n, w) # ws" by blast
  with assms that [of w "filter (\<lambda>x. snd x \<noteq> []) ws"] show ?thesis by auto
qed

lemma path_slices_Nil: "path_slices n s = [] \<Longrightarrow> set s \<subseteq> {CHR ''/''}"
proof (induction s arbitrary: n)
  case (Cons x s)
  show ?case
  proof (cases "x = CHR ''/''")
    case True
    with Cons.IH Cons.prems show ?thesis by simp
  next
    case False
    then show ?thesis using Cons.prems path_slices_char [OF False, of n s] by (metis list.discI)
  qed
qed simp

lemma path_slices_suffix:
  "path_slices n s = pre @ (k, w) # rest \<Longrightarrow>
   n \<le> k \<and> path_slices k (drop (k - n) s) = (k, w) # rest"
proof (induction s arbitrary: n pre)
  case (Cons x s)
  have step: "n \<le> k \<and> path_slices k (drop (k - n) (x # s)) = (k, w) # rest"
    if "path_slices (Suc n) s = pre' @ (k, w) # rest" for pre'
  proof -
    from Cons.IH [OF that] have "Suc n \<le> k" "path_slices k (drop (k - Suc n) s) = (k, w) # rest" by auto
    moreover from \<open>Suc n \<le> k\<close> have "k - n = Suc (k - Suc n)" by arith
    ultimately show ?thesis by (metis Suc_leD drop_Suc_Cons)
  qed
  show ?case
  proof (cases "x = CHR ''/''")
    case True
    with Cons.prems show ?thesis using step by (metis path_slices_sep)
  next
    case False
    obtain v ws where v: "path_slices n (x # s) = (n, x # v) # ws"
      and ws: "path_slices (Suc n) s = (if v = [] then ws else (Suc n, v) # ws)"
      using path_slices_char [OF False] by blast
    show ?thesis
    proof (cases pre)
      case Nil
      with Cons.prems v have "k = n" by (metis append_Nil list.inject prod.inject)
      with Cons.prems Nil show ?thesis by (metis append_Nil diff_self_eq_0 drop_0 order_refl)
    next
      case (Cons p pre')
      with Cons.prems v have "ws = pre' @ (k, w) # rest" by (metis append_Cons list.inject)
      with ws have "\<exists>q. path_slices (Suc n) s = q @ (k, w) # rest"
        by (metis append_Cons)
      then show ?thesis using step by blast
    qed
  qed
qed simp

lemma path_slices_last:
  "path_slices n s \<noteq> [] \<Longrightarrow> last (path_slices n s) = (k, w) \<Longrightarrow>
   set (drop (k + length w - n) s) \<subseteq> {CHR ''/''}"
proof (induction s arbitrary: n k w)
  case (Cons x s)
  have step: "set (drop (k + length w - n) (x # s)) \<subseteq> {CHR ''/''}"
    if "path_slices (Suc n) s \<noteq> []" "last (path_slices (Suc n) s) = (k, w)"
  proof -
    from that have "(k, w) \<in> set (str_split_at (CHR ''/'') (Suc n) s)"
      by (metis (no_types, lifting) filter_is_subset last_in_set subsetD)
    then have "Suc n \<le> k" using str_split_at_slice by blast
    then have "k + length w - n = Suc (k + length w - Suc n)" by arith
    then show ?thesis using Cons.IH [OF that] by (metis drop_Suc_Cons)
  qed
  show ?case
  proof (cases "x = CHR ''/''")
    case True
    with Cons.prems show ?thesis using step by (metis path_slices_sep)
  next
    case False
    obtain v ws where v: "path_slices n (x # s) = (n, x # v) # ws"
      and ws: "path_slices (Suc n) s = (if v = [] then ws else (Suc n, v) # ws)"
      using path_slices_char [OF False] by blast
    show ?thesis
    proof (cases "ws = []")
      case False
      with v Cons.prems(2) have "last ws = (k, w)" by (metis last_ConsR)
      with ws False have "path_slices (Suc n) s \<noteq> []" "last (path_slices (Suc n) s) = (k, w)"
        by (auto simp del: filter.simps)
      then show ?thesis by (rule step)
    next
      case True
      with v Cons.prems(2) have kw: "k = n" "w = x # v" by auto
      show ?thesis
      proof (cases "v = []")
        case v: True
        with ws True have "path_slices (Suc n) s = []" by simp
        then show ?thesis using path_slices_Nil kw v by simp
      next
        case False
        with ws True have eq: "path_slices (Suc n) s = [(Suc n, v)]" by simp
        have "set (drop (length v) s) \<subseteq> {CHR ''/''}"
          using Cons.IH [of "Suc n" "Suc n" v] eq by simp
        with kw show ?thesis by simp
      qed
    qed
  qed
qed simp

text \<open>The catch-all capture, split again, is exactly the segments it matched.\<close>

lemma nonempty_split_trailing:
  "set t \<subseteq> {CHR ''/''} \<Longrightarrow> nonempty (str_split (CHR ''/'') (u @ t)) = nonempty (str_split (CHR ''/'') u)"
proof (induction t arbitrary: u)
  case (Cons x t)
  then have "x = CHR ''/''" and t: "set t \<subseteq> {CHR ''/''}" by auto
  from Cons.IH [OF t, of "[]"] have "nonempty (str_split (CHR ''/'') t) = []" by simp
  with \<open>x = CHR ''/''\<close> show ?case by (simp add: str_split_append)
qed simp

lemma wildcard_resplit:
  assumes "path_slices 0 path = pre @ sg" and "sg \<noteq> []"
  shows "nonempty (str_split (CHR ''/'') (wildcard_span path sg)) = map snd sg"
proof -
  obtain k w rest where sg: "sg = (k, w) # rest" using assms(2) by (metis list.exhaust surj_pair)
  obtain k' w' where l: "last sg = (k', w')" by (cases "last sg")
  have suffix: "path_slices k (drop k path) = sg"
    using path_slices_suffix [of 0 path pre k w rest] assms(1) sg by simp
  have lst: "last (path_slices 0 path) = (k', w')" "path_slices 0 path \<noteq> []"
    using assms l by auto
  have tail: "set (drop (k' + length w') path) \<subseteq> {CHR ''/''}"
    using path_slices_last [OF lst(2,1)] by simp
  have "(k', w') \<in> set (path_slices k (drop k path))"
    using suffix l assms(2) by (metis last_in_set)
  then have "k \<le> k'" using str_split_at_slice by fastforce
  then have "drop (k' + length w') path = drop (k' + length w' - k) (drop k path)"
    by simp
  moreover have "wildcard_span path sg = take (k' + length w' - k) (drop k path)"
    using l by (simp add: wildcard_span_def sg Let_def)
  ultimately have "drop k path = wildcard_span path sg @ drop (k' + length w') path"
    by (simp only: append_take_drop_id)
  then have "nonempty (str_split (CHR ''/'') (wildcard_span path sg)) =
      nonempty (str_split (CHR ''/'') (drop k path))"
    using nonempty_split_trailing [OF tail] by simp
  also have "\<dots> = map snd sg"
    using suffix map_snd_path_slices [of k "drop k path"] by simp
  finally show ?thesis .
qed

text \<open>A pattern with its captures filled in, as a list of path segments.\<close>

fun instantiate :: "segment list \<Rightarrow> string list \<Rightarrow> string list option" where
  "instantiate [] cs = (if cs = [] then Some [] else None)"
| "instantiate (Static n # ps) cs = map_option ((#) n) (instantiate ps cs)"
| "instantiate (Param _ # ps) cs =
     (case cs of [] \<Rightarrow> None | c # cs' \<Rightarrow> map_option ((#) c) (instantiate ps cs'))"
| "instantiate (Wildcard _ # ps) cs =
     (case cs of [c] \<Rightarrow> Some (nonempty (str_split (CHR ''/'') c)) | _ \<Rightarrow> None)"

lemma instantiate_captures:
  assumes "key_matches (pattern_key ps) (map snd sg)" and "path_slices 0 path = pre @ sg"
  shows "instantiate ps (rev (key_captures path (pattern_key ps) sg)) = Some (map snd sg)"
  using assms
proof (induction ps arbitrary: sg pre rule: pattern_key.induct)
  case (2 n rest)
  from "2.prems"(1) obtain x sg' where sg: "sg = x # sg'" and "key_matches (pattern_key rest) (map snd sg')"
    and "snd x = n" by (cases sg) auto
  with "2.IH" [of sg' "pre @ [x]"] "2.prems"(2) show ?case by simp
next
  case (3 uu rest)
  from "3.prems"(1) obtain x sg' where sg: "sg = x # sg'" and "key_matches (pattern_key rest) (map snd sg')"
    by (cases sg) auto
  with "3.IH" [of sg' "pre @ [x]"] "3.prems"(2) show ?case by simp
next
  case (4 uu rest)
  then show ?case using wildcard_resplit [of path pre sg] by simp
qed simp

fun wildcard_last :: "segment list \<Rightarrow> bool" where
  "wildcard_last [] = True"
| "wildcard_last (Wildcard _ # ps) = (ps = [])"
| "wildcard_last (_ # ps) = wildcard_last ps"

lemma length_key_captures:
  "wildcard_last ps \<Longrightarrow>
   length (key_captures path (pattern_key ps) sg) = length (List.map_filter capture_name ps)"
  by (induction ps arbitrary: sg rule: pattern_key.induct) (auto simp: List.map_filter_simps)

section \<open>Normalised patterns\<close>

lemma render_parse [simp]: "segment_render (parse_segment s) = s"
  by (cases s) (auto simp: parse_segment_def)

lemma fold_render:
  "fold (\<lambda>segment pattern. pattern @ ''/'' @ segment_render segment) segs acc =
     acc @ concat (map (\<lambda>s. CHR ''/'' # segment_render s) segs)"
  by (induction segs arbitrary: acc) auto

lemma split_concat_pieces:
  assumes "\<forall>w \<in> set ws. w \<noteq> [] \<and> CHR ''/'' \<notin> set w"
  shows "nonempty (str_split (CHR ''/'') (concat (map ((#) (CHR ''/'')) ws))) = ws"
  using assms
proof (induction ws)
  case (Cons w ws)
  show ?case
  proof (cases ws)
    case Nil
    with Cons show ?thesis by simp
  next
    case (Cons v vs)
    define rest where "rest = v @ concat (map ((#) (CHR ''/'')) vs)"
    have "nonempty (str_split (CHR ''/'') rest) = ws"
      using Cons.IH Cons.prems Cons by (simp add: rest_def)
    moreover have "concat (map ((#) (CHR ''/'')) (w # ws)) = CHR ''/'' # w @ CHR ''/'' # rest"
      by (simp add: Cons rest_def)
    ultimately show ?thesis
      using Cons.prems by (simp add: str_split_append)
  qed
qed simp

section \<open>Properties\<close>

text \<open>C1: A lookup in the frozen trie built from any list of registrations gives exactly what the
  specification without a tree gives: the handler of the most specific matching pattern that
  serves the method, otherwise the refusal naming the most specific claiming pattern and
  every method some matching pattern serves, otherwise no match.\<close>

theorem lookup_refines_spec:
  "lookup (freeze (build_trie rs)) mo path segs = spec_lookup (route_table rs) mo path segs"
  using lookup_refines [OF wf_build_trie, of rs mo path segs] by simp

text \<open>C2: For a method other than HEAD, selection finds no handler exactly when no registration of
  that method has a pattern that matches the path: a route is never shadowed into a miss.\<close>

theorem select_complete:
  assumes "m \<noteq> Head"
  shows "select (freeze (build_trie rs)) m path segs = None \<longleftrightarrow>
    (\<forall>rt \<in> set rs. fst rt = m \<longrightarrow> \<not> route_matches rt (map snd segs))"
proof -
  have "spec_slot (route_table rs k) m = None \<longleftrightarrow>
      (\<forall>rt \<in> set rs. fst rt = m \<longrightarrow> pattern_key (parse_segments (fst (snd rt))) \<noteq> k)" for k
  proof -
    have "spec_slot (route_table rs k) m = None \<longleftrightarrow> (\<forall>r \<in> set (route_table rs k). rg_method r \<noteq> m)"
      using assms by (simp add: spec_slot_def last_with_None [symmetric] split: option.splits)
    also have "\<dots> \<longleftrightarrow> (\<forall>rt \<in> set rs. fst rt = m \<longrightarrow> pattern_key (parse_segments (fst (snd rt))) \<noteq> k)"
      by (fastforce simp: route_table_def)
    finally show ?thesis .
  qed
  then show ?thesis
    using select_refines [OF wf_build_trie, of rs m path segs]
    by (auto simp: spec_select_None route_matches_def)
qed

theorem select_complete_witness:
  "Get \<noteq> Head \<and>
   select (freeze (build_trie [(Get, ''/a/:id'', Stream (0::nat))])) Get ''/a'' [(1, ''a'')] = None"
  using select_complete [of Get "[(Get, ''/a/:id'', Stream (0::nat))]" "''/a''" "[(1, ''a'')]"]
  by (simp add: route_matches_def parse_segments_def parse_segment_def)

text \<open>C3: The selected handler is registered under a pattern that matches the path, with the request's
  method or as a GET that may answer HEAD, and no registration of the method has a matching
  pattern of higher precedence (literal before parameter before catch-all, segment by
  segment).\<close>

theorem select_precedence:
  assumes "select (freeze (build_trie rs)) m path segs = Some sel"
  shows "\<exists>(m', p, h) \<in> set rs.
     route_matches (m', p, h) (map snd segs)
     \<and> (m' = m \<or> m = Head \<and> m' = Get \<and> answers_head h)
     \<and> sel_route sel = normalize_route (parse_segments p) \<and> sel_handler sel = h
     \<and> (\<forall>(m2, p2, h2) \<in> set rs. m2 = m \<and> route_matches (m2, p2, h2) (map snd segs) \<longrightarrow>
          map key_rank (pattern_key (parse_segments p)) \<le> map key_rank (pattern_key (parse_segments p2)))"
proof -
  from assms have "spec_select (route_table rs) m path segs = Some sel"
    by (simp add: select_refines)
  from spec_select_Some [OF this] obtain k r where k: "key_matches k (map snd segs)"
    and r: "spec_slot (route_table rs k) m = Some r"
    and sel: "sel = selected_of r (rev (key_captures path k segs))"
    and least: "\<And>k'. key_matches k' (map snd segs) \<Longrightarrow> spec_slot (route_table rs k') m \<noteq> None
        \<Longrightarrow> map key_rank k \<le> map key_rank k'" by blast
  from spec_slot_in [OF r] obtain m' p h where rt: "(m', p, h) \<in> set rs"
    and key: "pattern_key (parse_segments p) = k" and reg: "r = registration m' p h"
    by (auto simp: route_table_iff)
  have serves: "m' = m \<or> m = Head \<and> m' = Get \<and> answers_head h"
    using r reg by (auto simp: spec_slot_def split: option.splits if_splits bind_splits dest: last_with_Some)
  have "map key_rank k \<le> map key_rank (pattern_key (parse_segments p2))"
    if "(m, p2, h2) \<in> set rs" "route_matches (m, p2, h2) (map snd segs)" for p2 h2
  proof (rule least)
    show "key_matches (pattern_key (parse_segments p2)) (map snd segs)"
      using that by (simp add: route_matches_def)
    have "registration m p2 h2 \<in> set (route_table rs (pattern_key (parse_segments p2)))"
      using that by (auto simp: route_table_iff)
    then show "spec_slot (route_table rs (pattern_key (parse_segments p2))) m \<noteq> None"
      by (auto simp: spec_slot_def last_with_None split: option.splits)
  qed
  with rt key k serves sel reg show ?thesis
    by (intro bexI [of _ "(m', p, h)"]) (auto simp: route_matches_def selected_of_def)
qed

theorem select_precedence_witness:
  "\<exists>sel. select (freeze (build_trie [(Get, ''/:id'', Stream (0::nat)), (Get, ''/a'', Stream 1)])) Get ''/a'' [(1, ''a'')]
       = Some sel
     \<and> (\<exists>(m', p, h) \<in> set [(Get, ''/:id'', Stream (0::nat)), (Get, ''/a'', Stream 1)].
         sel_route sel = normalize_route (parse_segments p) \<and> sel_handler sel = h)"
proof -
  let ?rs = "[(Get, ''/:id'', Stream (0::nat)), (Get, ''/a'', Stream 1)]"
  have "select (freeze (build_trie ?rs)) Get ''/a'' [(1, ''a'')] \<noteq> None" by code_simp
  then obtain sel where sel: "select (freeze (build_trie ?rs)) Get ''/a'' [(1, ''a'')] = Some sel" by blast
  from select_precedence [OF this] sel show ?thesis by fastforce
qed

lemma mismatch_allow:
  assumes "lookup (freeze (build_trie rs)) mo path segs = MethodMismatch route allow"
  shows "allow = allow_text (filter (\<lambda>m. \<exists>sel. lookup (freeze (build_trie rs)) (Some m) path segs = Matched sel)
                   canonical_methods)"
proof -
  let ?at = "route_table rs"
  have matched: "(\<exists>sel. spec_lookup ?at (Some m) path segs = Matched sel) \<longleftrightarrow>
      (\<exists>k \<in> set (match_keys (map snd segs)). spec_slot (?at k) m \<noteq> None)" for m
  proof -
    have "(\<exists>sel. spec_lookup ?at (Some m) path segs = Matched sel) \<longleftrightarrow> spec_select ?at m path segs \<noteq> None"
      by (auto simp: spec_lookup_def split: option.splits)
    then show ?thesis by (auto simp: spec_select_None match_keys_iff)
  qed
  from assms have "allow = allow_text (served_methods ?at (map snd segs))"
    unfolding lookup_refines [OF wf_build_trie] handlers_at_build
    by (auto simp: spec_lookup_def split: option.splits)
  then show ?thesis
    unfolding lookup_refines [OF wf_build_trie] handlers_at_build matched served_methods_def .
qed

text \<open>C4: When a path is claimed but not with the received method, the refusal's \<open>Allow\<close> value
  lists, in canonical order, exactly the methods a request for the same path would be matched
  with.\<close>

theorem allow_exact:
  assumes "lookup (freeze (build_trie rs)) mo path segs = MethodMismatch route allow"
  shows "allow = allow_text (filter (\<lambda>m. \<exists>sel. lookup (freeze (build_trie rs)) (Some m) path segs = Matched sel)
                   canonical_methods)"
  using assms by (rule mismatch_allow)

theorem allow_exact_witness:
  "lookup (freeze (build_trie [(Get, ''/:id'', Stream (0::nat)), (Post, ''/a'', Stream 1)])) (Some Put) ''/a'' [(1, ''a'')]
     = MethodMismatch ''/a'' ''GET, HEAD, POST''
   \<and> ''GET, HEAD, POST'' =
       allow_text (filter (\<lambda>m. \<exists>sel.
           lookup (freeze (build_trie [(Get, ''/:id'', Stream (0::nat)), (Post, ''/a'', Stream 1)])) (Some m) ''/a'' [(1, ''a'')]
             = Matched sel) canonical_methods)"
proof -
  have h: "lookup (freeze (build_trie [(Get, ''/:id'', Stream (0::nat)), (Post, ''/a'', Stream 1)])) (Some Put) ''/a'' [(1, ''a'')]
     = MethodMismatch ''/a'' ''GET, HEAD, POST''"
    by code_simp
  from allow_exact [OF h] h show ?thesis by blast
qed

text \<open>C5: The captures of a match are the ones its pattern names: filling the matched pattern with
  them gives back the path's segments (a catch-all's capture re-split at the slashes), and a
  pattern whose catch-all comes last has one name for each capture.\<close>

theorem captures_roundtrip:
  assumes "split_path_segments path = Some segs"
    and "select (freeze (build_trie rs)) m path segs = Some sel"
  shows "\<exists>(m', p, h) \<in> set rs.
     sel_route sel = normalize_route (parse_segments p) \<and> sel_handler sel = h
     \<and> sel_capture_names sel = List.map_filter capture_name (parse_segments p)
     \<and> instantiate (parse_segments p) (sel_captures sel) = Some (nonempty (str_split (CHR ''/'') path))
     \<and> (wildcard_last (parse_segments p) \<longrightarrow> length (sel_capture_names sel) = length (sel_captures sel))"
proof -
  from assms(1) have segs: "segs = path_slices 0 path"
    by (auto simp: split_path_segments_eq split: if_splits)
  from assms(2) have "spec_select (route_table rs) m path segs = Some sel"
    by (simp add: select_refines)
  from spec_select_Some [OF this] obtain k r where k: "key_matches k (map snd segs)"
    and r: "spec_slot (route_table rs k) m = Some r"
    and sel: "sel = selected_of r (rev (key_captures path k segs))" by blast
  from spec_slot_in [OF r] obtain m' p h where rt: "(m', p, h) \<in> set rs"
    and key: "pattern_key (parse_segments p) = k" and reg: "r = registration m' p h"
    by (auto simp: route_table_iff)
  have "path_slices 0 path = [] @ segs" by (simp only: segs append_Nil)
  from instantiate_captures [OF k [folded key] this]
  have "instantiate (parse_segments p) (sel_captures sel) = Some (nonempty (str_split (CHR ''/'') path))"
    unfolding sel key [symmetric] segs map_snd_path_slices by (simp only: selected_of_def selected.simps)
  moreover have "wildcard_last (parse_segments p) \<longrightarrow>
      length (List.map_filter capture_name (parse_segments p)) = length (key_captures path k segs)"
    unfolding key [symmetric] by (metis length_key_captures)
  ultimately show ?thesis
    using rt sel reg by (intro bexI [of _ "(m', p, h)"]) (simp_all add: selected_of_def)
qed

theorem captures_roundtrip_witness:
  "\<exists>segs sel. split_path_segments ''/u/7//f/x/'' = Some segs
     \<and> select (freeze (build_trie [(Get, ''/u/:id/*rest'', Stream (0::nat))])) Get ''/u/7//f/x/'' segs = Some sel
     \<and> sel_captures sel = [''7'', ''f/x'']
     \<and> instantiate (parse_segments ''/u/:id/*rest'') (sel_captures sel) = Some [''u'', ''7'', ''f'', ''x'']"
proof -
  let ?rs = "[(Get, ''/u/:id/*rest'', Stream (0::nat))]" and ?p = "''/u/7//f/x/''"
  have s: "split_path_segments ?p = Some [(1, ''u''), (3, ''7''), (6, ''f''), (8, ''x'')]" by code_simp
  have "map_option sel_captures (select (freeze (build_trie ?rs)) Get ?p [(1, ''u''), (3, ''7''), (6, ''f''), (8, ''x'')])
      = Some [''7'', ''f/x'']" by code_simp
  then obtain sel where sel: "select (freeze (build_trie ?rs)) Get ?p [(1, ''u''), (3, ''7''), (6, ''f''), (8, ''x'')] = Some sel"
    and c: "sel_captures sel = [''7'', ''f/x'']" by auto
  have "nonempty (str_split (CHR ''/'') ?p) = [''u'', ''7'', ''f'', ''x'']" by code_simp
  with captures_roundtrip [OF s sel] s sel c show ?thesis by auto
qed

text \<open>C6: Normalising a registered pattern keeps what it matches: the normal form parses to the same
  segments, so two spellings of one route carry one name exactly when they match alike.\<close>

theorem normalize_roundtrip:
  "parse_segments (normalize_route (parse_segments p)) = parse_segments p
   \<and> (normalize_route (parse_segments p) = normalize_route (parse_segments q)
        \<longleftrightarrow> parse_segments p = parse_segments q)"
proof -
  have rt: "parse_segments (normalize_route (parse_segments p)) = parse_segments p" for p
  proof (cases "parse_segments p = []")
    case True
    then show ?thesis by (simp add: normalize_route_def parse_segments_def)
  next
    case False
    let ?ws = "nonempty (str_split (CHR ''/'') p)"
    from False have "normalize_route (parse_segments p) = concat (map ((#) (CHR ''/'')) ?ws)"
      unfolding normalize_route_def fold_render by (simp add: parse_segments_def comp_def)
    moreover have "nonempty (str_split (CHR ''/'') (concat (map ((#) (CHR ''/'')) ?ws))) = ?ws"
      by (rule split_concat_pieces) (auto dest: str_split_pieces)
    ultimately show ?thesis by (simp add: parse_segments_def)
  qed
  show ?thesis using rt [of p] rt [of q] by metis
qed

text \<open>C7: A static path is claimed exactly when some registration's pattern is that path spelled with
  literal segments only; parameters and catch-alls that also match it do not claim it.\<close>

theorem claims_static_iff:
  "claims_static (build_trie rs) path \<longleftrightarrow>
     (\<exists>(m, p, h) \<in> set rs. parse_segments p = map Static (nonempty (str_split (CHR ''/'') path)))"
proof -
  let ?ss = "nonempty (str_split (CHR ''/'') path)"
  have walk: "(case walk_static t ss of None \<Rightarrow> [] | Some n \<Rightarrow> node_handlers n) = handlers_at (map KStatic ss) t"
    for t :: "'a trie_node" and ss
    by (induction ss arbitrary: t) (auto split: option.splits)
  have key: "pattern_key ps = map KStatic ss \<longleftrightarrow> ps = map Static ss" for ps ss
  proof (induction ps arbitrary: ss rule: pattern_key.induct)
    case (2 n rest)
    then show ?case by (cases ss) auto
  qed auto
  have "claims_static (build_trie rs) path \<longleftrightarrow> handlers_at (map KStatic ?ss) (build_trie rs) \<noteq> []"
    unfolding walk [symmetric] claims_static_def by (simp split: option.splits)
  also have "\<dots> \<longleftrightarrow> (\<exists>(m, p, h) \<in> set rs. parse_segments p = map Static ?ss)"
    by (auto simp: route_table_def filter_empty_conv key)
  finally show ?thesis .
qed

text \<open>A pattern with a catch-all before its end is accepted, and its later names have no capture.\<close>

lemma inner_wildcard_names:
  "sel_capture_names (selected_of (registration m ''/*rest/:id'' h) cs) = [''rest'', ''id'']
   \<and> pattern_key (parse_segments ''/*rest/:id'') = [KWild]
   \<and> length (key_captures path [KWild] segs) = 1"
  by (simp add: selected_of_def parse_segments_def parse_segment_def List.map_filter_simps)


end
