(* ===== verification/Runtime_Error.thy ===== *)
theory Runtime_Error
  imports Camber_Prelude
begin

text \<open>
  The failures Camber reports, from \<open>error.rs\<close>, \<open>error/integration.rs\<close>,
  \<open>http/boundary.rs\<close>, \<open>http/client/error.rs\<close> and the failure types of
  \<open>lifecycle/\<close>: the closed label sets, the recursive datatype of runtime errors and
  lifecycle failures, their texts, and the failure log a shutdown drains into one error.
  Labels that telemetry uses are proved to name their variants uniquely.
\<close>

section \<open>Deadline and byte boundaries\<close>

datatype deadline_boundary =
    BoundHeader | BoundRequestBodyIdle | BoundRequestTotal | BoundTransferIdle
  | BoundTransferTotal | BoundProxyConnect | BoundProxyRequest | BoundProxyUpstreamIdle
  | BoundClientConnect | BoundClientRequest | BoundClientResponseIdle | BoundClientRetry
  | BoundResourceStartupHealth | BoundResourcePeriodicHealth | BoundResourceShutdown
  | BoundAggregateShutdown

definition deadline_boundary_all :: "deadline_boundary list" where
  "deadline_boundary_all =
     [BoundHeader, BoundRequestBodyIdle, BoundRequestTotal, BoundTransferIdle,
      BoundTransferTotal, BoundProxyConnect, BoundProxyRequest, BoundProxyUpstreamIdle,
      BoundClientConnect, BoundClientRequest, BoundClientResponseIdle, BoundClientRetry,
      BoundResourceStartupHealth, BoundResourcePeriodicHealth, BoundResourceShutdown,
      BoundAggregateShutdown]"

fun deadline_label :: "deadline_boundary \<Rightarrow> string" where
  "deadline_label BoundHeader = ''header''"
| "deadline_label BoundRequestBodyIdle = ''request_body_idle''"
| "deadline_label BoundRequestTotal = ''request_total''"
| "deadline_label BoundTransferIdle = ''transfer_idle''"
| "deadline_label BoundTransferTotal = ''transfer_total''"
| "deadline_label BoundProxyConnect = ''proxy_connect''"
| "deadline_label BoundProxyRequest = ''proxy_request''"
| "deadline_label BoundProxyUpstreamIdle = ''proxy_upstream_idle''"
| "deadline_label BoundClientConnect = ''client_connect''"
| "deadline_label BoundClientRequest = ''client_request''"
| "deadline_label BoundClientResponseIdle = ''client_response_idle''"
| "deadline_label BoundClientRetry = ''client_retry''"
| "deadline_label BoundResourceStartupHealth = ''resource_startup_health''"
| "deadline_label BoundResourcePeriodicHealth = ''resource_periodic_health''"
| "deadline_label BoundResourceShutdown = ''resource_shutdown''"
| "deadline_label BoundAggregateShutdown = ''aggregate_shutdown''"

datatype byte_boundary =
    BytesRequestBody | BytesTransferUpload | BytesTransferDownload | BytesClientResponse
  | BytesProxyBufferedResponse | BytesStaticFile | BytesProfilingResponse

definition byte_boundary_all :: "byte_boundary list" where
  "byte_boundary_all =
     [BytesRequestBody, BytesTransferUpload, BytesTransferDownload, BytesClientResponse,
      BytesProxyBufferedResponse, BytesStaticFile, BytesProfilingResponse]"

fun byte_label :: "byte_boundary \<Rightarrow> string" where
  "byte_label BytesRequestBody = ''request_body''"
| "byte_label BytesTransferUpload = ''transfer_upload''"
| "byte_label BytesTransferDownload = ''transfer_download''"
| "byte_label BytesClientResponse = ''client_response''"
| "byte_label BytesProxyBufferedResponse = ''proxy_buffered_response''"
| "byte_label BytesStaticFile = ''static_file''"
| "byte_label BytesProfilingResponse = ''profiling_response''"

datatype crossed_bound =
    NoBoundCrossed
  | CrossedDeadline deadline_boundary
  | CrossedBytes byte_boundary
  | SourceFailure

fun crossed_label :: "crossed_bound \<Rightarrow> string" where
  "crossed_label NoBoundCrossed = ''none''"
| "crossed_label (CrossedDeadline d) = deadline_label d"
| "crossed_label (CrossedBytes b) = byte_label b"
| "crossed_label SourceFailure = ''source_failure''"

definition crossed_vocabulary :: "string list" where
  "crossed_vocabulary =
     [crossed_label NoBoundCrossed]
       @ map (\<lambda>d. crossed_label (CrossedDeadline d)) deadline_boundary_all
       @ map (\<lambda>b. crossed_label (CrossedBytes b)) byte_boundary_all
       @ [crossed_label SourceFailure]"

section \<open>Client failures\<close>

datatype client_redirect_policy = ZeroHops | EmptyAllowlist | OriginAt usize

datatype client_input =
    InputMethod | InputUrl | InputHeader | InputReservedHeader | InputBody
  | InputResponseLimit | InputEgressPolicy | InputRedirectPolicy client_redirect_policy
  | InputStreamBudget

fun client_input_label :: "client_input \<Rightarrow> string" where
  "client_input_label InputMethod = ''method''"
| "client_input_label InputUrl = ''url''"
| "client_input_label InputHeader = ''header''"
| "client_input_label InputReservedHeader = ''reserved header''"
| "client_input_label InputBody = ''body''"
| "client_input_label InputResponseLimit = ''response limit''"
| "client_input_label InputEgressPolicy = ''egress policy''"
| "client_input_label (InputRedirectPolicy _) = ''redirect policy''"
| "client_input_label InputStreamBudget = ''stream budget''"

abbreviation show_usize :: "usize \<Rightarrow> string" where
  "show_usize n \<equiv> show_nat (unat n)"

fun display_redirect_policy :: "client_redirect_policy \<Rightarrow> string" where
  "display_redirect_policy ZeroHops = ''zero hops''"
| "display_redirect_policy EmptyAllowlist = ''empty allowlist''"
| "display_redirect_policy (OriginAt i) = ''origin at index '' @ show_usize i"

fun display_client_input :: "client_input \<Rightarrow> string" where
  "display_client_input (InputRedirectPolicy r) =
     client_input_label (InputRedirectPolicy r) @ '': '' @ display_redirect_policy r"
| "display_client_input i = client_input_label i"

datatype client_timeout =
  TimeoutOperation | TimeoutAttempt | TimeoutTransport | TimeoutResponseIdle

fun client_timeout_label :: "client_timeout \<Rightarrow> string" where
  "client_timeout_label TimeoutOperation = ''operation''"
| "client_timeout_label TimeoutAttempt = ''attempt''"
| "client_timeout_label TimeoutTransport = ''transport''"
| "client_timeout_label TimeoutResponseIdle = ''response idle''"

datatype client_redirect =
  InvalidLocation | OriginChanged | Downgrade | HopLimit | UnsafeMethod

fun client_redirect_label :: "client_redirect \<Rightarrow> string" where
  "client_redirect_label InvalidLocation = ''invalid location''"
| "client_redirect_label OriginChanged = ''origin changed''"
| "client_redirect_label Downgrade = ''scheme downgrade''"
| "client_redirect_label HopLimit = ''hop limit''"
| "client_redirect_label UnsafeMethod = ''unsafe method''"

datatype client_decode = DecodeUtf8 | DecodeJson

fun client_decode_label :: "client_decode \<Rightarrow> string" where
  "client_decode_label DecodeUtf8 = ''utf-8''"
| "client_decode_label DecodeJson = ''json''"

datatype client_egress = EgressScheme | EgressAddress | EgressResolutionLimit

fun client_egress_label :: "client_egress \<Rightarrow> string" where
  "client_egress_label EgressScheme = ''scheme''"
| "client_egress_label EgressAddress = ''address''"
| "client_egress_label EgressResolutionLimit = ''resolution limit''"

datatype client_error =
    ClientConfiguration
  | ClientInvalidRequest client_input
  | ClientEncode
  | ClientDns
  | ClientConnect
  | ClientTls
  | ClientTransport
  | ClientTimedOut client_timeout
  | ClientRedirectRefused client_redirect
  | ClientStatus u16
  | ClientDecodeFailed client_decode
  | ClientResponseTooLarge usize
  | ClientEgressRefused client_egress

fun display_client_error :: "client_error \<Rightarrow> string" where
  "display_client_error ClientConfiguration = ''client configuration failed''"
| "display_client_error (ClientInvalidRequest i) = ''invalid request: '' @ display_client_input i"
| "display_client_error ClientEncode = ''request encoding failed''"
| "display_client_error ClientDns = ''dns resolution failed''"
| "display_client_error ClientConnect = ''connection failed''"
| "display_client_error ClientTls = ''tls failure''"
| "display_client_error ClientTransport = ''transport failure''"
| "display_client_error (ClientTimedOut t) = ''timed out: '' @ client_timeout_label t"
| "display_client_error (ClientRedirectRefused r) =
     ''redirect refused: '' @ client_redirect_label r"
| "display_client_error (ClientStatus s) = ''status '' @ show_nat (unat s)"
| "display_client_error (ClientDecodeFailed d) =
     ''response decoding failed: '' @ client_decode_label d"
| "display_client_error (ClientResponseTooLarge limit) =
     ''response exceeded '' @ show_usize limit @ '' bytes''"
| "display_client_error (ClientEgressRefused e) = ''egress refused: '' @ client_egress_label e"

section \<open>Integration failures\<close>

datatype integration_kind = Nats | Sqs | Dns01

fun integration_kind_label :: "integration_kind \<Rightarrow> string" where
  "integration_kind_label Nats = ''nats''"
| "integration_kind_label Sqs = ''sqs''"
| "integration_kind_label Dns01 = ''dns01''"

datatype integration_operation =
    OpConnect | OpReady | OpPublish | OpSubscribe | OpReceive | OpDelete | OpClose
  | OpZoneLookup | OpCreateTxt | OpDeleteTxt | OpProvision | OpCacheRead | OpCacheWrite
  | OpRenew

fun integration_operation_label :: "integration_operation \<Rightarrow> string" where
  "integration_operation_label OpConnect = ''connect''"
| "integration_operation_label OpReady = ''ready''"
| "integration_operation_label OpPublish = ''publish''"
| "integration_operation_label OpSubscribe = ''subscribe''"
| "integration_operation_label OpReceive = ''receive''"
| "integration_operation_label OpDelete = ''delete''"
| "integration_operation_label OpClose = ''close''"
| "integration_operation_label OpZoneLookup = ''zone_lookup''"
| "integration_operation_label OpCreateTxt = ''create_txt''"
| "integration_operation_label OpDeleteTxt = ''delete_txt''"
| "integration_operation_label OpProvision = ''provision''"
| "integration_operation_label OpCacheRead = ''cache_read''"
| "integration_operation_label OpCacheWrite = ''cache_write''"
| "integration_operation_label OpRenew = ''renew''"

datatype integration_failure =
    InvalidConfig | Unavailable | PermissionDenied | RejectedRequest | Busy
  | IntegrationLimitExceeded | IntegrationTimeout | IntegrationCancelled | IntegrationClosed
  | IntegrationOutcomeUnknown | CleanupIncomplete | InvalidCertificate

fun integration_failure_label :: "integration_failure \<Rightarrow> string" where
  "integration_failure_label InvalidConfig = ''invalid_config''"
| "integration_failure_label Unavailable = ''unavailable''"
| "integration_failure_label PermissionDenied = ''permission_denied''"
| "integration_failure_label RejectedRequest = ''rejected''"
| "integration_failure_label Busy = ''busy''"
| "integration_failure_label IntegrationLimitExceeded = ''limit_exceeded''"
| "integration_failure_label IntegrationTimeout = ''timeout''"
| "integration_failure_label IntegrationCancelled = ''cancelled''"
| "integration_failure_label IntegrationClosed = ''closed''"
| "integration_failure_label IntegrationOutcomeUnknown = ''outcome_unknown''"
| "integration_failure_label CleanupIncomplete = ''cleanup_incomplete''"
| "integration_failure_label InvalidCertificate = ''invalid_certificate''"

datatype retryability = RetryNever | RetrySafe | RetryOutcomeUnknown

fun retryability_label :: "retryability \<Rightarrow> string" where
  "retryability_label RetryNever = ''never''"
| "retryability_label RetrySafe = ''safe''"
| "retryability_label RetryOutcomeUnknown = ''outcome_unknown''"

datatype effect = ReadOnly | SideEffect

fun interrupted :: "effect \<Rightarrow> bool \<Rightarrow> retryability" where
  "interrupted SideEffect True = RetryOutcomeUnknown"
| "interrupted SideEffect False = RetrySafe"
| "interrupted ReadOnly _ = RetrySafe"

abbreviation integration_max_duration :: duration where
  "integration_max_duration \<equiv> from_secs (24 * 60 * 60)"

abbreviation valid_duration :: "duration \<Rightarrow> bool" where
  "valid_duration d \<equiv> d \<noteq> 0 \<and> d \<le> integration_max_duration"

abbreviation max_cleanup_items :: nat where
  "max_cleanup_items \<equiv> 100"

record cleanup_item =
  ci_domain :: string
  ci_record_id :: "string option"
  ci_failure :: integration_failure

text \<open>The source of an integration error is opaque; it is kept as the text it displays.\<close>

record integration_error =
  ie_kind :: integration_kind
  ie_operation :: integration_operation
  ie_failure :: integration_failure
  ie_retryability :: retryability
  ie_instance_id :: "u64 option"
  ie_cleanup :: "cleanup_item list option"
  ie_source :: "string option"

definition integration_error_new ::
  "integration_kind \<Rightarrow> integration_operation \<Rightarrow> integration_failure \<Rightarrow> retryability \<Rightarrow> integration_error"
where
  "integration_error_new kind operation failure retry =
     \<lparr>ie_kind = kind, ie_operation = operation, ie_failure = failure, ie_retryability = retry,
      ie_instance_id = None, ie_cleanup = None, ie_source = None\<rparr>"

definition incomplete_close :: "integration_kind \<Rightarrow> integration_error" where
  "incomplete_close kind = integration_error_new kind OpClose IntegrationTimeout RetryNever"

abbreviation with_instance :: "u64 \<Rightarrow> integration_error \<Rightarrow> integration_error" where
  "with_instance i e \<equiv> e\<lparr>ie_instance_id := Some i\<rparr>"

abbreviation with_source :: "string \<Rightarrow> integration_error \<Rightarrow> integration_error" where
  "with_source src e \<equiv> e\<lparr>ie_source := Some src\<rparr>"

definition with_cleanup :: "cleanup_item list \<Rightarrow> integration_error \<Rightarrow> integration_error" where
  "with_cleanup items e = e\<lparr>ie_cleanup := Some (take max_cleanup_items items)\<rparr>"

definition integration_cleanup :: "integration_error \<Rightarrow> cleanup_item list" where
  "integration_cleanup e = (case ie_cleanup e of None \<Rightarrow> [] | Some items \<Rightarrow> items)"

definition display_integration_error :: "integration_error \<Rightarrow> string" where
  "display_integration_error e =
     ''integration '' @ integration_kind_label (ie_kind e) @ '' ''
       @ integration_operation_label (ie_operation e) @ '' failed: ''
       @ integration_failure_label (ie_failure e) @ '' (retry: ''
       @ retryability_label (ie_retryability e) @ '')''
       @ (case ie_instance_id e of None \<Rightarrow> [] | Some i \<Rightarrow> '', instance '' @ show_nat (unat i))
       @ (if length (integration_cleanup e) = 0 then []
          else '', '' @ show_nat (length (integration_cleanup e))
                 @ '' cleanup records unresolved'')"

section \<open>Lifecycle participants and phases\<close>

datatype resource_phase = StartupHealth | PeriodicHealth | ShutdownPhase

fun resource_phase_label :: "resource_phase \<Rightarrow> string" where
  "resource_phase_label StartupHealth = ''startup-health''"
| "resource_phase_label PeriodicHealth = ''periodic-health''"
| "resource_phase_label ShutdownPhase = ''shutdown''"

datatype lifecycle_phase = Startup | GracefulDrain | ForcedJoin | ResourceStep resource_phase | Finalize

fun lifecycle_phase_label :: "lifecycle_phase \<Rightarrow> string" where
  "lifecycle_phase_label Startup = ''startup''"
| "lifecycle_phase_label GracefulDrain = ''graceful-drain''"
| "lifecycle_phase_label ForcedJoin = ''forced-join''"
| "lifecycle_phase_label (ResourceStep p) = resource_phase_label p"
| "lifecycle_phase_label Finalize = ''finalize''"

datatype lifecycle_participant =
    RootScope
  | BackgroundTask
  | IntegrationParticipant integration_kind u64
  | ResourceParticipant string
  | Exporter

fun report_order :: "lifecycle_participant \<Rightarrow> u8" where
  "report_order RootScope = 0"
| "report_order BackgroundTask = 1"
| "report_order (IntegrationParticipant _ _) = 2"
| "report_order (ResourceParticipant _) = 3"
| "report_order Exporter = 4"

fun display_participant :: "lifecycle_participant \<Rightarrow> string" where
  "display_participant (ResourceParticipant name) = ''resource '' @ name"
| "display_participant (IntegrationParticipant kind i) =
     ''integration '' @ integration_kind_label kind @ '' '' @ show_nat (unat i)"
| "display_participant RootScope = ''root-scope''"
| "display_participant BackgroundTask = ''background-task''"
| "display_participant Exporter = ''exporter''"

section \<open>Runtime errors and lifecycle failures\<close>

datatype turn_refused = TurnDeadline | TurnCancelled | TurnClosed

fun display_turn_refused :: "turn_refused \<Rightarrow> string" where
  "display_turn_refused TurnDeadline = ''turn wait deadline expired''"
| "display_turn_refused TurnCancelled = ''turn wait cancelled''"
| "display_turn_refused TurnClosed = ''turn admission closed''"

datatype ws_close_cause =
    PeerClosed | PeerDisconnected | ServerShutdown | ServerCancelled | ReceiverDropped
  | SendersDropped

fun discards_queued_messages :: "ws_close_cause \<Rightarrow> bool" where
  "discards_queued_messages ServerCancelled = True"
| "discards_queued_messages ReceiverDropped = True"
| "discards_queued_messages PeerClosed = False"
| "discards_queued_messages PeerDisconnected = False"
| "discards_queued_messages ServerShutdown = False"
| "discards_queued_messages SendersDropped = False"

fun ws_close_cause_as_str :: "ws_close_cause \<Rightarrow> string" where
  "ws_close_cause_as_str PeerClosed = ''peer closed''"
| "ws_close_cause_as_str PeerDisconnected = ''peer disconnected''"
| "ws_close_cause_as_str ServerShutdown = ''server shutdown''"
| "ws_close_cause_as_str ServerCancelled = ''server cancelled''"
| "ws_close_cause_as_str ReceiverDropped = ''receiver dropped''"
| "ws_close_cause_as_str SendersDropped = ''senders dropped''"

text \<open>
  The kinds of \<open>std::io::Error\<close> the code distinguishes, and the error with its raw
  operating-system code and its text.
\<close>

datatype io_error_kind =
    ConnectionReset | ConnectionAborted | BrokenPipe | NotConnected | ConnectionRefused
  | Interrupted | OtherKind nat

record io_error =
  io_kind_of :: io_error_kind
  io_raw_os_error :: "int option"
  io_text :: string

datatype runtime_error =
    Io io_error
  | ChannelClosed
  | ChannelFull
  | Turn turn_refused
  | BlockingInAsyncContext
  | WebSocketClosed ws_close_cause
  | Timeout
  | DeadlineExceeded deadline_boundary
  | LimitExceeded byte_boundary
  | Cancelled
  | TaskPanicked string
  | NoRuntime
  | ScopeClosed
  | ScopeDrainTimeout usize
  | Lifecycle "lifecycle_failure list"
  | Http string
  | Client client_error
  | BadRequest string
  | MalformedBody string
  | MultipartInvalid string
  | RequestBodyLimitExceeded string
  | RequestBodyUnreadable string
  | Database string
  | Tls string
  | InvalidArgument string
  | Schedule string
  | Integration integration_error
  | Config string
  | Secret string
  | Dns string
  | Acme string
and lifecycle_failure =
  LifecycleFailure (lf_participant: lifecycle_participant) (lf_phase: lifecycle_phase)
    (lf_kind: lifecycle_failure_kind)
and lifecycle_failure_kind =
    FailDeadlineExceeded deadline_boundary
  | FailCancelled
  | FailTaskPanicked string
  | FailScopeDrainTimeout usize
  | FailResource resource_failure
  | FailJoinLost string
  | FailOperation runtime_error
and resource_failure =
  ResourceFailure (rf_name: string) (rf_phase: resource_phase) (rf_kind: resource_failure_kind)
and resource_failure_kind =
    Returned runtime_error
  | Panicked string
  | ResourceDeadlineExceeded
  | LostWorker
  | BlockedByActiveCallback

fun resource_failure_label :: "resource_failure_kind \<Rightarrow> string" where
  "resource_failure_label (Returned _) = ''returned''"
| "resource_failure_label (Panicked _) = ''panicked''"
| "resource_failure_label ResourceDeadlineExceeded = ''deadline''"
| "resource_failure_label LostWorker = ''lost-worker''"
| "resource_failure_label BlockedByActiveCallback = ''blocked''"

fun resource_failure_cause :: "resource_failure \<Rightarrow> runtime_error option" where
  "resource_failure_cause (ResourceFailure _ _ kind) =
     (case kind of Returned cause \<Rightarrow> Some cause | _ \<Rightarrow> None)"

fun lifecycle_kind_cause :: "lifecycle_failure_kind \<Rightarrow> runtime_error option" where
  "lifecycle_kind_cause (FailResource r) = resource_failure_cause r"
| "lifecycle_kind_cause (FailOperation cause) = Some cause"
| "lifecycle_kind_cause _ = None"

abbreviation lifecycle_failure_cause :: "lifecycle_failure \<Rightarrow> runtime_error option" where
  "lifecycle_failure_cause f \<equiv> lifecycle_kind_cause (lf_kind f)"

fun display_error :: "runtime_error \<Rightarrow> string"
  and display_lifecycle_failure :: "lifecycle_failure \<Rightarrow> string"
  and display_lifecycle_kind :: "lifecycle_failure_kind \<Rightarrow> string"
  and display_resource_failure :: "resource_failure \<Rightarrow> string"
  and display_resource_kind :: "resource_failure_kind \<Rightarrow> string"
where
  "display_error (Io e) = ''io error: '' @ io_text e"
| "display_error ChannelClosed = ''channel closed''"
| "display_error ChannelFull = ''channel full''"
| "display_error (Turn t) = ''turn refused: '' @ display_turn_refused t"
| "display_error BlockingInAsyncContext =
     ''blocking operation is unavailable in a current-thread async context''"
| "display_error (WebSocketClosed c) = ''websocket closed: '' @ ws_close_cause_as_str c"
| "display_error Timeout = ''operation timed out''"
| "display_error (DeadlineExceeded d) = ''deadline exceeded: '' @ deadline_label d"
| "display_error (LimitExceeded b) = ''byte limit exceeded: '' @ byte_label b"
| "display_error Cancelled = ''operation cancelled''"
| "display_error (TaskPanicked s) = ''task panicked: '' @ s"
| "display_error NoRuntime = ''no runtime context is established''"
| "display_error ScopeClosed = ''task scope is closed to admission''"
| "display_error (ScopeDrainTimeout n) =
     ''scope drain timed out; children outstanding: '' @ show_usize n"
| "display_error (Lifecycle fs) =
     ''lifecycle failed: ['' @ show_nat (length fs) @ '' recorded]''
       @ concat (map (\<lambda>f. '' '' @ display_lifecycle_failure f @ '';'') fs)"
| "display_error (Http s) = ''http error: '' @ s"
| "display_error (Client e) = ''http client error: '' @ display_client_error e"
| "display_error (BadRequest s) = ''bad request: '' @ s"
| "display_error (MalformedBody s) = ''malformed request body: '' @ s"
| "display_error (MultipartInvalid s) = ''invalid multipart body: '' @ s"
| "display_error (RequestBodyLimitExceeded s) = ''request body limit exceeded: '' @ s"
| "display_error (RequestBodyUnreadable s) = ''request body unreadable: '' @ s"
| "display_error (Database s) = ''database error: '' @ s"
| "display_error (Tls s) = ''tls error: '' @ s"
| "display_error (InvalidArgument s) = ''invalid argument: '' @ s"
| "display_error (Schedule s) = ''schedule error: '' @ s"
| "display_error (Integration e) = display_integration_error e"
| "display_error (Config s) = ''config error: '' @ s"
| "display_error (Secret s) = ''secret error: '' @ s"
| "display_error (Dns s) = ''dns error: '' @ s"
| "display_error (Acme s) = ''acme error: '' @ s"
| "display_lifecycle_failure (LifecycleFailure participant phase kind) =
     (case kind of
        FailResource resource \<Rightarrow> display_resource_failure resource
      | _ \<Rightarrow> display_participant participant @ '' '' @ lifecycle_phase_label phase @ '': ''
               @ display_lifecycle_kind kind)"
| "display_lifecycle_kind (FailDeadlineExceeded b) = ''deadline exceeded: '' @ deadline_label b"
| "display_lifecycle_kind FailCancelled = ''cancelled''"
| "display_lifecycle_kind (FailTaskPanicked p) = ''panicked: '' @ p"
| "display_lifecycle_kind (FailScopeDrainTimeout n) =
     ''scope drain timed out; children outstanding: '' @ show_usize n"
| "display_lifecycle_kind (FailResource r) = display_resource_failure r"
| "display_lifecycle_kind (FailJoinLost w) = ''join lost: '' @ w"
| "display_lifecycle_kind (FailOperation cause) = display_error cause"
| "display_resource_failure (ResourceFailure name phase kind) =
     ''resource '' @ name @ '' '' @ resource_phase_label phase @ '': '' @ display_resource_kind kind"
| "display_resource_kind (Returned cause) = ''returned: '' @ display_error cause"
| "display_resource_kind (Panicked p) = ''panicked: '' @ p"
| "display_resource_kind ResourceDeadlineExceeded = resource_failure_label ResourceDeadlineExceeded"
| "display_resource_kind LostWorker = resource_failure_label LostWorker"
| "display_resource_kind BlockedByActiveCallback = resource_failure_label BlockedByActiveCallback"

section \<open>Classifying input and output errors\<close>

fun io_kind :: "runtime_error \<Rightarrow> io_error_kind option" where
  "io_kind (Io e) = Some (io_kind_of e)"
| "io_kind _ = None"

fun is_benign_kind :: "io_error_kind \<Rightarrow> bool" where
  "is_benign_kind ConnectionReset = True"
| "is_benign_kind ConnectionAborted = True"
| "is_benign_kind BrokenPipe = True"
| "is_benign_kind NotConnected = True"
| "is_benign_kind _ = False"

abbreviation is_benign_io :: "io_error \<Rightarrow> bool" where
  "is_benign_io e \<equiv> is_benign_kind (io_kind_of e)"

abbreviation is_benign_io_error :: "runtime_error \<Rightarrow> bool" where
  "is_benign_io_error e \<equiv> (case io_kind e of None \<Rightarrow> False | Some kind \<Rightarrow> is_benign_kind kind)"

definition is_transient_datagram_error :: "runtime_error \<Rightarrow> bool" where
  "is_transient_datagram_error e \<longleftrightarrow>
     io_kind e \<in> {Some ConnectionRefused, Some ConnectionReset, Some Interrupted}"

abbreviation EMFILE :: int where "EMFILE \<equiv> 24"
abbreviation ENFILE :: int where "ENFILE \<equiv> 23"

abbreviation is_transient_accept_error :: "io_error \<Rightarrow> bool" where
  "is_transient_accept_error e \<equiv> io_raw_os_error e \<in> {Some EMFILE, Some ENFILE}"

section \<open>The failure log\<close>

definition failure_log_new :: "lifecycle_failure list" where
  "failure_log_new = []"

definition failure_record ::
  "lifecycle_participant \<Rightarrow> lifecycle_phase \<Rightarrow> lifecycle_failure_kind \<Rightarrow> lifecycle_failure list
   \<Rightarrow> lifecycle_failure list"
where
  "failure_record participant phase kind recorded =
     recorded @ [LifecycleFailure participant phase kind]"

definition failure_into_error :: "lifecycle_failure list \<Rightarrow> runtime_error option" where
  "failure_into_error recorded =
     (if recorded = [] then None
      else Some (Lifecycle (sort_key (\<lambda>f. report_order (lf_participant f)) recorded)))"

text \<open>The log a run of \<open>record\<close> calls leaves, in the order they were made.\<close>

definition record_all ::
  "(lifecycle_participant \<times> lifecycle_phase \<times> lifecycle_failure_kind) list \<Rightarrow> lifecycle_failure list"
where
  "record_all calls = fold (\<lambda>(p, ph, k). failure_record p ph k) calls failure_log_new"

section \<open>Closed vocabularies and the report order\<close>

lemma deadline_boundary_all_UNIV: "set deadline_boundary_all = UNIV"
proof -
  have "d \<in> set deadline_boundary_all" for d
    by (cases d) (simp_all add: deadline_boundary_all_def)
  then show ?thesis by auto
qed

lemma byte_boundary_all_UNIV: "set byte_boundary_all = UNIV"
proof -
  have "b \<in> set byte_boundary_all" for b
    by (cases b) (simp_all add: byte_boundary_all_def)
  then show ?thesis by auto
qed

lemma crossed_vocabulary_map:
  "crossed_vocabulary =
     map crossed_label ([NoBoundCrossed] @ map CrossedDeadline deadline_boundary_all
                          @ map CrossedBytes byte_boundary_all @ [SourceFailure])"
  by (simp add: crossed_vocabulary_def)

lemma crossed_bound_enumeration:
  "set ([NoBoundCrossed] @ map CrossedDeadline deadline_boundary_all
          @ map CrossedBytes byte_boundary_all @ [SourceFailure]) = UNIV"
proof -
  have "c \<in> set ([NoBoundCrossed] @ map CrossedDeadline deadline_boundary_all
          @ map CrossedBytes byte_boundary_all @ [SourceFailure])" for c
    by (cases c) (simp_all add: deadline_boundary_all_UNIV byte_boundary_all_UNIV)
  then show ?thesis by auto
qed

lemma crossed_vocabulary_distinct: "distinct crossed_vocabulary"
  by code_simp

text \<open>C8: The label vocabulary of crossed bounds lists every label a crossed bound can carry,
  lists none twice, and two crossed bounds with one label are the same bound.\<close>

theorem crossed_vocabulary_closed:
  "distinct crossed_vocabulary \<and> set crossed_vocabulary = range crossed_label
   \<and> (crossed_label a = crossed_label b \<longleftrightarrow> a = b)"
proof -
  let ?all = "[NoBoundCrossed] @ map CrossedDeadline deadline_boundary_all
                @ map CrossedBytes byte_boundary_all @ [SourceFailure]"
  have dist: "distinct (map crossed_label ?all)"
    using crossed_vocabulary_distinct unfolding crossed_vocabulary_map .
  then have "inj_on crossed_label (set ?all)"
    by (simp only: distinct_map)
  then have "inj crossed_label"
    unfolding crossed_bound_enumeration .
  moreover have "set crossed_vocabulary = range crossed_label"
    unfolding crossed_vocabulary_map set_map crossed_bound_enumeration ..
  ultimately show ?thesis
    using crossed_vocabulary_distinct by (auto dest: injD)
qed

text \<open>C9: The failures recorded during a shutdown become one error exactly when there is one;
  that error holds every recorded failure as often as it was recorded, in participant order,
  and failures of participants of one rank stay in the order they were recorded.\<close>

theorem failure_into_error_stable:
  "case failure_into_error (record_all recorded) of
     None \<Rightarrow> recorded = []
   | Some e \<Rightarrow> recorded \<noteq> [] \<and> (\<exists>fs. e = Lifecycle fs
       \<and> sorted (map (\<lambda>f. report_order (lf_participant f)) fs)
       \<and> (\<forall>rank. filter (\<lambda>f. report_order (lf_participant f) = rank) fs
            = map (\<lambda>(p, ph, k). LifecycleFailure p ph k)
                (filter (\<lambda>(p, _). report_order p = rank) recorded)))"
proof -
  let ?log = "record_all recorded"
  have log: "?log = map (\<lambda>(p, ph, k). LifecycleFailure p ph k) recorded"
  proof -
    have "fold (\<lambda>(p, ph, k). failure_record p ph k) recorded acc
            = acc @ map (\<lambda>(p, ph, k). LifecycleFailure p ph k) recorded" for acc
      by (induction recorded arbitrary: acc) (auto simp: failure_record_def)
    then show ?thesis by (simp add: record_all_def failure_log_new_def)
  qed
  have "filter (\<lambda>f. report_order (lf_participant f) = rank)
          (sort_key (\<lambda>f. report_order (lf_participant f)) ?log)
        = map (\<lambda>(p, ph, k). LifecycleFailure p ph k)
            (filter (\<lambda>(p, _). report_order p = rank) recorded)" for rank
  proof -
    have "filter (\<lambda>f. report_order (lf_participant f) = rank) ?log
            = map (\<lambda>(p, ph, k). LifecycleFailure p ph k)
                (filter (\<lambda>(p, _). report_order p = rank) recorded)"
      unfolding log by (induction recorded) auto
    then show ?thesis by (simp add: sort_key_stable)
  qed
  moreover have "?log = [] \<longleftrightarrow> recorded = []"
    by (simp add: log)
  ultimately show ?thesis
    by (simp add: failure_into_error_def)
qed

end
