(* ===== verification/Policy_Value.thy ===== *)
theory Policy_Value
  imports Runtime_Error
begin

text \<open>
  The validated values a policy carries, from \<open>http/policy_value.rs\<close> and
  \<open>time.rs\<close>: finite positive deadlines under the thirty-year ceiling, positive limits,
  and the narrowing of two optional bounds in which a missing bound is unbounded. Narrowing is
  proved to be the meet of a semilattice with \<open>None\<close> on top, which is what lets the
  resolution of several layers be stated without an order of evaluation.
\<close>

section \<open>Validation\<close>

abbreviation max_policy_deadline :: duration where
  "max_policy_deadline \<equiv> from_secs (86400 * 365 * 30)"

definition finite_duration :: "duration \<Rightarrow> string \<Rightarrow> runtime_error + duration" where
  "finite_duration d name =
     (if d = 0 then Inl (InvalidArgument (name @ '' must be greater than zero''))
      else if d > max_policy_deadline
      then Inl (InvalidArgument
             (name @ '' must be at most '' @ show_nat (as_secs max_policy_deadline) @ '' seconds''))
      else Inr d)"

abbreviation clamp_duration :: "duration \<Rightarrow> duration \<Rightarrow> duration" where
  "clamp_duration d least \<equiv> (if d < least then least else d)"

definition clamped_duration :: "duration \<Rightarrow> duration \<Rightarrow> duration" where
  "clamped_duration d least =
     (let deadline = clamp_duration d least
      in if deadline > max_policy_deadline then max_policy_deadline else deadline)"

definition positive_limit :: "usize \<Rightarrow> string \<Rightarrow> runtime_error + usize" where
  "positive_limit n name =
     (if n = 0 then Inl (InvalidArgument (name @ '' must be at least 1'')) else Inr n)"

definition limit_within :: "usize \<Rightarrow> usize \<Rightarrow> string \<Rightarrow> runtime_error + usize" where
  "limit_within n ceiling name =
     (case positive_limit n name of
        Inl e \<Rightarrow> Inl e
      | Inr limit \<Rightarrow>
          if limit > ceiling
          then Inl (InvalidArgument (name @ '' must be at most '' @ show_usize ceiling))
          else Inr limit)"

lemma finite_duration_Inr [simp]:
  "finite_duration d name = Inr d' \<longleftrightarrow> d' = d \<and> 0 < d \<and> d \<le> max_policy_deadline"
  by (auto simp: finite_duration_def)

lemma positive_limit_Inr [simp]: "positive_limit n name = Inr n' \<longleftrightarrow> n' = n \<and> n \<noteq> 0"
  by (auto simp: positive_limit_def)

lemma limit_within_Inr [simp]:
  "limit_within n ceiling name = Inr n' \<longleftrightarrow> n' = n \<and> n \<noteq> 0 \<and> n \<le> ceiling"
  by (auto simp: limit_within_def positive_limit_def)

lemma clamped_duration_le: "clamped_duration d least \<le> max_policy_deadline"
  by (simp add: clamped_duration_def Let_def)

lemma clamped_duration_ge:
  "least \<le> max_policy_deadline \<Longrightarrow> least \<le> clamped_duration d least"
  by (simp add: clamped_duration_def Let_def)

section \<open>Narrowing\<close>

fun narrow :: "'a::linorder option \<Rightarrow> 'a option \<Rightarrow> 'a option" where
  "narrow (Some inner) (Some outer) = Some (min inner outer)"
| "narrow (Some only) None = Some only"
| "narrow None (Some only) = Some only"
| "narrow None None = None"

lemma narrow_None_left [simp]: "narrow None x = x"
  by (cases x) simp_all

lemma narrow_None_right [simp]: "narrow x None = x"
  by (cases x) simp_all

lemma narrow_commute: "narrow x y = narrow y x"
  by (cases x; cases y) (simp_all add: min.commute)

lemma narrow_assoc: "narrow (narrow x y) z = narrow x (narrow y z)"
  by (cases x; cases y; cases z) (simp_all add: min.assoc)

lemma narrow_left_commute: "narrow x (narrow y z) = narrow y (narrow x z)"
  by (metis narrow_assoc narrow_commute)

lemma narrow_idem [simp]: "narrow x x = x"
  by (cases x) simp_all

lemma narrow_left_idem [simp]: "narrow x (narrow x y) = narrow x y"
  by (simp flip: narrow_assoc)

lemma narrow_cases: "narrow x y = x \<or> narrow x y = y"
  by (cases x; cases y) (auto simp: min_def)

lemma narrow_eq_None [simp]: "narrow x y = None \<longleftrightarrow> x = None \<and> y = None"
  by (cases x; cases y) simp_all

lemmas narrow_ac = narrow_assoc narrow_commute narrow_left_commute

text \<open>A bound permits an amount when it is missing or at least that amount.\<close>

fun permits :: "'a::linorder option \<Rightarrow> 'a \<Rightarrow> bool" where
  "permits None n = True"
| "permits (Some b) n = (n \<le> b)"

lemma permits_narrow [simp]: "permits (narrow x y) n \<longleftrightarrow> permits x n \<and> permits y n"
  by (cases x; cases y) auto

end
