(* ===== verification/Aggregate_Shutdown.thy ===== *)
theory Aggregate_Shutdown
  imports Policy_Value
begin

text \<open>
  The aggregate shutdown deadline of \<open>lifecycle/shutdown.rs\<close>, the owners that read it
  (\<open>lifecycle/shutdown_owner.rs\<close>), and the resource phase budgets it narrows
  (\<open>lifecycle/resource_budget.rs\<close>). The deadline is a set-once cell; the clock reading
  \<open>Instant::now()\<close> is an argument. The test observer is the log of what the deadline was
  minted at, who read it, and how each owner settled.
\<close>

section \<open>Owners\<close>

datatype server_tree_owner = ServerOwner | ConnectionOwner | UpgradeOwner

fun display_server_tree_owner :: "server_tree_owner \<Rightarrow> string" where
  "display_server_tree_owner ServerOwner = ''server''"
| "display_server_tree_owner ConnectionOwner = ''connection''"
| "display_server_tree_owner UpgradeOwner = ''upgrade''"

datatype shutdown_owner = RuntimeOwner lifecycle_participant | ServerTree server_tree_owner

fun display_shutdown_owner :: "shutdown_owner \<Rightarrow> string" where
  "display_shutdown_owner (RuntimeOwner p) = display_participant p"
| "display_shutdown_owner (ServerTree t) = display_server_tree_owner t"

abbreviation owner_resource :: "string \<Rightarrow> shutdown_owner" where
  "owner_resource name \<equiv> RuntimeOwner (ResourceParticipant name)"

abbreviation owner_integration :: "integration_kind \<Rightarrow> u64 \<Rightarrow> shutdown_owner" where
  "owner_integration kind i \<equiv> RuntimeOwner (IntegrationParticipant kind i)"

section \<open>The deadline\<close>

datatype participant_disposition = CompletedOwner | CancelledAndJoined | NamedOwner

datatype shutdown_observation =
    DeadlineMint instant instant
  | DeadlineReading string instant
  | Settlement string participant_disposition

abbreviation forced_join_grace :: duration where
  "forced_join_grace \<equiv> from_millis 100"

record aggregate_shutdown =
  as_grace :: duration
  as_expiry :: "instant option"
  as_observer :: "shutdown_observation list option"

definition aggregate_new :: "duration \<Rightarrow> shutdown_observation list option \<Rightarrow> aggregate_shutdown" where
  "aggregate_new grace observer =
     \<lparr>as_grace = grace, as_expiry = None, as_observer = observer\<rparr>"

definition observe :: "shutdown_observation \<Rightarrow> aggregate_shutdown \<Rightarrow> aggregate_shutdown" where
  "observe ev a = a\<lparr>as_observer := map_option (\<lambda>log. log @ [ev]) (as_observer a)\<rparr>"

definition mint_at :: "instant \<Rightarrow> aggregate_shutdown \<Rightarrow> instant \<times> aggregate_shutdown" where
  "mint_at at a =
     (case as_expiry a of
        Some expiry \<Rightarrow> (expiry, a)
      | None \<Rightarrow>
          let expiry = at + as_grace a
          in (expiry, observe (DeadlineMint at expiry) (a\<lparr>as_expiry := Some expiry\<rparr>)))"

definition aggregate_read ::
  "shutdown_owner \<Rightarrow> aggregate_shutdown \<Rightarrow> instant option \<times> aggregate_shutdown"
where
  "aggregate_read owner a =
     (case as_expiry a of
        None \<Rightarrow> (None, a)
      | Some expiry \<Rightarrow> (Some expiry, observe (DeadlineReading (display_shutdown_owner owner) expiry) a))"

definition read_or_mint ::
  "shutdown_owner \<Rightarrow> instant \<Rightarrow> aggregate_shutdown \<Rightarrow> instant \<times> aggregate_shutdown"
where
  "read_or_mint owner at a =
     (let (fixed, a1) = mint_at at a; (reading, a2) = aggregate_read owner a1
      in (case reading of Some expiry \<Rightarrow> expiry | None \<Rightarrow> fixed, a2))"

definition narrowed :: "duration \<Rightarrow> duration option \<Rightarrow> duration" where
  "narrowed local remaining =
     (case remaining of
        Some r \<Rightarrow> min local (max r forced_join_grace)
      | None \<Rightarrow> local)"

definition left_until :: "instant \<Rightarrow> instant \<Rightarrow> duration" where
  "left_until now expiry = expiry - now"

definition aggregate_remaining ::
  "instant \<Rightarrow> shutdown_owner \<Rightarrow> aggregate_shutdown \<Rightarrow> duration option \<times> aggregate_shutdown"
where
  "aggregate_remaining now owner a =
     (let (reading, a') = aggregate_read owner a in (map_option (left_until now) reading, a'))"

definition aggregate_bounded ::
  "instant \<Rightarrow> shutdown_owner \<Rightarrow> duration \<Rightarrow> aggregate_shutdown \<Rightarrow> duration \<times> aggregate_shutdown"
where
  "aggregate_bounded now owner local a =
     (let (remaining, a') = aggregate_remaining now owner a in (narrowed local remaining, a'))"

definition safety_window :: "instant \<Rightarrow> duration \<Rightarrow> aggregate_shutdown \<Rightarrow> duration" where
  "safety_window now local a = narrowed local (map_option (left_until now) (as_expiry a))"

definition settle ::
  "shutdown_owner \<Rightarrow> participant_disposition \<Rightarrow> aggregate_shutdown \<Rightarrow> aggregate_shutdown"
where
  "settle owner disposition a = observe (Settlement (display_shutdown_owner owner) disposition) a"

section \<open>Resource budgets\<close>

record resource_budget =
  rbg_startup_health :: duration
  rbg_periodic_health :: duration
  rbg_shutdown :: duration

abbreviation default_resource_phase_deadline :: duration where
  "default_resource_phase_deadline \<equiv> from_secs 30"

definition resource_budget_default :: resource_budget where
  "resource_budget_default =
     \<lparr>rbg_startup_health = default_resource_phase_deadline,
      rbg_periodic_health = default_resource_phase_deadline,
      rbg_shutdown = default_resource_phase_deadline\<rparr>"

definition resource_budget_bounded ::
  "duration \<Rightarrow> duration \<Rightarrow> duration \<Rightarrow> runtime_error + resource_budget"
where
  "resource_budget_bounded startup periodic shutdown =
     (case finite_duration startup ''resource startup_health'' of
        Inl e \<Rightarrow> Inl e
      | Inr s \<Rightarrow>
          (case finite_duration periodic ''resource periodic_health'' of
             Inl e \<Rightarrow> Inl e
           | Inr p \<Rightarrow>
               (case finite_duration shutdown ''resource shutdown'' of
                  Inl e \<Rightarrow> Inl e
                | Inr d \<Rightarrow>
                    Inr \<lparr>rbg_startup_health = s, rbg_periodic_health = p, rbg_shutdown = d\<rparr>)))"

fun budget_phase :: "resource_budget \<Rightarrow> resource_phase \<Rightarrow> duration" where
  "budget_phase b StartupHealth = rbg_startup_health b"
| "budget_phase b PeriodicHealth = rbg_periodic_health b"
| "budget_phase b ShutdownPhase = rbg_shutdown b"

abbreviation phase_deadline :: "resource_budget \<Rightarrow> resource_phase \<Rightarrow> duration option \<Rightarrow> duration" where
  "phase_deadline b phase remaining \<equiv> narrowed (budget_phase b phase) remaining"

section \<open>Runs of the deadline\<close>

text \<open>The calls owners make on the shared deadline, and the states a run of them reaches.\<close>

datatype shutdown_call =
    CallMint instant
  | CallRead shutdown_owner
  | CallReadOrMint shutdown_owner instant
  | CallBounded instant shutdown_owner duration
  | CallSettle shutdown_owner participant_disposition

fun shutdown_run_call :: "shutdown_call \<Rightarrow> aggregate_shutdown \<Rightarrow> aggregate_shutdown" where
  "shutdown_run_call (CallMint at) a = snd (mint_at at a)"
| "shutdown_run_call (CallRead owner) a = snd (aggregate_read owner a)"
| "shutdown_run_call (CallReadOrMint owner at) a = snd (read_or_mint owner at a)"
| "shutdown_run_call (CallBounded now owner local) a = snd (aggregate_bounded now owner local a)"
| "shutdown_run_call (CallSettle owner disposition) a = settle owner disposition a"

inductive shutdown_reach :: "duration \<Rightarrow> aggregate_shutdown \<Rightarrow> bool" where
  reach_new: "shutdown_reach grace (aggregate_new grace (Some []))"
| reach_call: "shutdown_reach grace a \<Longrightarrow> shutdown_reach grace (shutdown_run_call c a)"

fun is_mint :: "shutdown_observation \<Rightarrow> bool" where
  "is_mint (DeadlineMint _ _) = True"
| "is_mint _ = False"

fun reads_as :: "instant option \<Rightarrow> shutdown_observation \<Rightarrow> bool" where
  "reads_as e (DeadlineReading _ e') = (e = Some e')"
| "reads_as e _ = True"

definition shutdown_inv :: "duration \<Rightarrow> aggregate_shutdown \<Rightarrow> bool" where
  "shutdown_inv grace a \<longleftrightarrow>
     as_grace a = grace \<and>
     (\<exists>log. as_observer a = Some log \<and> list_all (reads_as (as_expiry a)) log \<and>
        (case as_expiry a of
           None \<Rightarrow> filter is_mint log = []
         | Some e \<Rightarrow> \<exists>at. e = at + grace \<and> filter is_mint log = [DeadlineMint at e]))"

lemma reads_as_None_mono: "list_all (reads_as None) log \<Longrightarrow> list_all (reads_as e) log"
  by (induction log) (auto elim: reads_as.elims)

lemma shutdown_inv_new: "shutdown_inv grace (aggregate_new grace (Some []))"
  by (simp add: shutdown_inv_def aggregate_new_def)

lemma shutdown_inv_observe:
  "shutdown_inv grace a \<Longrightarrow> reads_as (as_expiry a) ev \<Longrightarrow> \<not> is_mint ev
   \<Longrightarrow> shutdown_inv grace (observe ev a)"
  by (auto simp: shutdown_inv_def observe_def split: option.splits)

lemma shutdown_inv_mint: "shutdown_inv grace a \<Longrightarrow> shutdown_inv grace (snd (mint_at at a))"
  by (cases "as_expiry a")
    (auto simp: shutdown_inv_def mint_at_def observe_def Let_def intro: reads_as_None_mono)

lemma shutdown_inv_read:
  "shutdown_inv grace a \<Longrightarrow> shutdown_inv grace (snd (aggregate_read owner a))"
  by (cases "as_expiry a") (auto simp: aggregate_read_def intro!: shutdown_inv_observe)

lemma shutdown_inv_settle:
  "shutdown_inv grace a \<Longrightarrow> shutdown_inv grace (settle owner disposition a)"
  by (auto simp: settle_def intro!: shutdown_inv_observe)

lemma shutdown_inv_call: "shutdown_inv grace a \<Longrightarrow> shutdown_inv grace (shutdown_run_call c a)"
  by (cases c)
    (auto simp: read_or_mint_def aggregate_bounded_def aggregate_remaining_def Let_def split_def
      intro: shutdown_inv_mint shutdown_inv_read shutdown_inv_settle)

lemma shutdown_reach_inv: "shutdown_reach grace a \<Longrightarrow> shutdown_inv grace a"
  by (induction rule: shutdown_reach.induct) (auto intro: shutdown_inv_new shutdown_inv_call)

text \<open>C10: However owners interleave minting, reading, bounding and settling, the shutdown
  deadline is minted at most once, at the first transition plus the configured grace, and every
  later mint and every named reading answers that one instant.\<close>

theorem shutdown_deadline_fixed:
  assumes "shutdown_reach grace a"
  shows "\<exists>log. as_observer a = Some log \<and> length (filter is_mint log) \<le> 1
           \<and> (\<forall>at e. DeadlineMint at e \<in> set log \<longrightarrow> e = at + grace \<and> as_expiry a = Some e)
           \<and> (\<forall>owner e. DeadlineReading owner e \<in> set log \<longrightarrow> as_expiry a = Some e)
           \<and> (\<forall>e now owner. as_expiry a = Some e \<longrightarrow>
                mint_at now a = (e, a) \<and> fst (read_or_mint owner now a) = e)"
proof -
  obtain log where log: "as_observer a = Some log" "list_all (reads_as (as_expiry a)) log"
    and mints: "case as_expiry a of None \<Rightarrow> filter is_mint log = []
      | Some e \<Rightarrow> \<exists>at. e = at + grace \<and> filter is_mint log = [DeadlineMint at e]"
    using shutdown_reach_inv [OF assms] by (auto simp: shutdown_inv_def)
  have in_log: "DeadlineMint at e \<in> set log \<longleftrightarrow> DeadlineMint at e \<in> set (filter is_mint log)" for at e
    by simp
  have mint: "DeadlineMint at e \<in> set log \<longrightarrow> e = at + grace \<and> as_expiry a = Some e"
    for at e
    unfolding in_log using mints by (auto simp del: set_filter split: option.splits)
  have reading: "DeadlineReading owner e \<in> set log \<longrightarrow> as_expiry a = Some e" for owner e
    using log(2) by (auto simp: list_all_iff dest: bspec)
  have "length (filter is_mint log) \<le> 1"
    using mints by (auto split: option.splits)
  moreover have "as_expiry a = Some e \<longrightarrow>
      mint_at now a = (e, a) \<and> fst (read_or_mint owner now a) = e" for e now owner
    by (simp add: mint_at_def read_or_mint_def aggregate_read_def)
  ultimately show ?thesis
    using log(1) mint reading by blast
qed

theorem shutdown_deadline_fixed_witness:
  "\<exists>log. as_observer (shutdown_run_call (CallMint 7) (aggregate_new 30 (Some []))) = Some log
     \<and> length (filter is_mint log) \<le> 1 \<and> DeadlineMint 7 37 \<in> set log"
proof -
  have "shutdown_reach 30 (shutdown_run_call (CallMint 7) (aggregate_new 30 (Some [])))"
    by (intro reach_call reach_new)
  from shutdown_deadline_fixed [OF this]
  show ?thesis
    by (auto simp: mint_at_def aggregate_new_def observe_def Let_def)
qed

text \<open>C11: The wait an owner is given under the aggregate deadline never exceeds its own bound,
  never exceeds what the aggregate has left once that is above the forced-join grace, and is
  never cut below the smaller of its own bound and that grace.\<close>

theorem aggregate_bounded_window:
  "fst (aggregate_bounded now owner local a) \<le> local
   \<and> min local forced_join_grace \<le> fst (aggregate_bounded now owner local a)
   \<and> fst (aggregate_bounded now owner local a) = safety_window now local a
   \<and> (case as_expiry a of
        None \<Rightarrow> fst (aggregate_bounded now owner local a) = local
      | Some e \<Rightarrow> fst (aggregate_bounded now owner local a) \<le> max (e - now) forced_join_grace)"
  by (cases "as_expiry a")
    (auto simp: aggregate_bounded_def aggregate_remaining_def aggregate_read_def narrowed_def
      left_until_def safety_window_def)

end
