(* ===== verification/Policy_Layers.thy ===== *)
theory Policy_Layers
  imports Policy_Value
begin

text \<open>
  The vocabulary of layered policy, from \<open>http/policy_dimension.rs\<close> and
  \<open>http/policy_sources.rs\<close>: the fifteen dimensions, sets of dimensions as bit masks, the
  containment rule that decides which side of an edge supplies a value, the layers that supplied
  it as a bit mask, and single bounds that carry their layers. Each bit mask is related to the
  set it stands for.
\<close>

unbundle bit_operations_syntax

section \<open>Dimensions\<close>

datatype policy_dimension =
    RequestBodyIdle | RequestTotal
  | UploadMaxBytes | UploadIdle | UploadTotal
  | DownloadMaxBytes | DownloadIdle | DownloadTotal
  | HeaderTimeout | ShutdownTimeout | ConnectionLimit | HealthRouteDimension
  | ProfilingResponseLimit | RequestBodyHardCap | RequestBodyLimit

definition dimension_all :: "policy_dimension list" where
  "dimension_all =
     [RequestBodyIdle, RequestTotal, UploadMaxBytes, UploadIdle, UploadTotal, DownloadMaxBytes,
      DownloadIdle, DownloadTotal, HeaderTimeout, ShutdownTimeout, ConnectionLimit,
      HealthRouteDimension, ProfilingResponseLimit, RequestBodyHardCap, RequestBodyLimit]"

definition dimension_count :: nat where
  "dimension_count = length dimension_all"

abbreviation dimensions_request :: "policy_dimension list" where
  "dimensions_request \<equiv> [RequestBodyIdle, RequestTotal]"

abbreviation dimensions_upload :: "policy_dimension list" where
  "dimensions_upload \<equiv> [UploadMaxBytes, UploadIdle, UploadTotal]"

definition dimensions_download :: "policy_dimension list" where
  "dimensions_download = [DownloadMaxBytes, DownloadIdle, DownloadTotal]"

definition dimensions_route :: "policy_dimension list" where
  "dimensions_route =
     [RequestBodyIdle, RequestTotal, UploadMaxBytes, UploadIdle, UploadTotal, DownloadMaxBytes,
      DownloadIdle, DownloadTotal]"

definition dimensions_server_only :: "policy_dimension list" where
  "dimensions_server_only =
     [HeaderTimeout, ShutdownTimeout, ConnectionLimit, HealthRouteDimension, RequestBodyHardCap]"

text \<open>The argument says whether the build has the \<open>profiling\<close> feature.\<close>

definition dimensions_server :: "bool \<Rightarrow> policy_dimension list" where
  "dimensions_server profiling =
     dimensions_route @ dimensions_server_only
       @ (if profiling then [ProfilingResponseLimit] else [])"

fun dimension_name :: "policy_dimension \<Rightarrow> string" where
  "dimension_name RequestBodyIdle = ''request.body_idle''"
| "dimension_name RequestTotal = ''request.total''"
| "dimension_name UploadMaxBytes = ''upload.max_bytes''"
| "dimension_name UploadIdle = ''upload.idle''"
| "dimension_name UploadTotal = ''upload.total''"
| "dimension_name DownloadMaxBytes = ''download.max_bytes''"
| "dimension_name DownloadIdle = ''download.idle''"
| "dimension_name DownloadTotal = ''download.total''"
| "dimension_name HeaderTimeout = ''header_timeout''"
| "dimension_name ShutdownTimeout = ''shutdown_timeout''"
| "dimension_name ConnectionLimit = ''connection_limit''"
| "dimension_name HealthRouteDimension = ''health_route''"
| "dimension_name ProfilingResponseLimit = ''profiling_response_limit''"
| "dimension_name RequestBodyHardCap = ''request_body_hard_cap''"
| "dimension_name RequestBodyLimit = ''request_body_limit''"

fun dimension_index :: "policy_dimension \<Rightarrow> nat" where
  "dimension_index RequestBodyIdle = 0"
| "dimension_index RequestTotal = 1"
| "dimension_index UploadMaxBytes = 2"
| "dimension_index UploadIdle = 3"
| "dimension_index UploadTotal = 4"
| "dimension_index DownloadMaxBytes = 5"
| "dimension_index DownloadIdle = 6"
| "dimension_index DownloadTotal = 7"
| "dimension_index HeaderTimeout = 8"
| "dimension_index ShutdownTimeout = 9"
| "dimension_index ConnectionLimit = 10"
| "dimension_index HealthRouteDimension = 11"
| "dimension_index ProfilingResponseLimit = 12"
| "dimension_index RequestBodyHardCap = 13"
| "dimension_index RequestBodyLimit = 14"

definition dimension_bit :: "policy_dimension \<Rightarrow> u16" where
  "dimension_bit d = push_bit (dimension_index d) 1"

section \<open>Containment\<close>

datatype containment = Intent | Hard

fun dimension_containment :: "policy_dimension \<Rightarrow> containment" where
  "dimension_containment ShutdownTimeout = Hard"
| "dimension_containment _ = Intent"

datatype supplier = Inner | Outer | Narrower

fun supplier_choose :: "supplier \<Rightarrow> 'a \<Rightarrow> 'a \<Rightarrow> ('a \<Rightarrow> 'a \<Rightarrow> 'a) \<Rightarrow> 'a" where
  "supplier_choose Inner inner outer narrower = inner"
| "supplier_choose Outer inner outer narrower = outer"
| "supplier_choose Narrower inner outer narrower = narrower inner outer"

text \<open>Which side supplies a value, from whether each side set it explicitly.\<close>

fun containment_supplier :: "containment \<Rightarrow> bool \<Rightarrow> bool \<Rightarrow> supplier" where
  "containment_supplier _ False True = Outer"
| "containment_supplier Intent True False = Inner"
| "containment_supplier Hard True False = Narrower"
| "containment_supplier _ True True = Narrower"
| "containment_supplier _ False False = Narrower"

section \<open>Sets of dimensions\<close>

type_synonym dimension_set = u16

definition dset_empty :: dimension_set where
  "dset_empty = 0"

definition dset_of :: "policy_dimension list \<Rightarrow> dimension_set" where
  "dset_of ds = fold (\<lambda>d bits. bits OR dimension_bit d) ds 0"

definition dset_request :: dimension_set where "dset_request = dset_of dimensions_request"
definition dset_upload :: dimension_set where "dset_upload = dset_of dimensions_upload"
definition dset_download :: dimension_set where "dset_download = dset_of dimensions_download"
definition dset_route :: dimension_set where "dset_route = dset_of dimensions_route"

definition dset_with :: "dimension_set \<Rightarrow> policy_dimension \<Rightarrow> dimension_set" where
  "dset_with s d = s OR dimension_bit d"

definition dset_union :: "dimension_set \<Rightarrow> dimension_set \<Rightarrow> dimension_set" where
  "dset_union s t = s OR t"

definition dset_intersection :: "dimension_set \<Rightarrow> dimension_set \<Rightarrow> dimension_set" where
  "dset_intersection s t = s AND t"

definition dset_contains :: "dimension_set \<Rightarrow> policy_dimension \<Rightarrow> bool" where
  "dset_contains s d \<longleftrightarrow> s AND dimension_bit d \<noteq> 0"

abbreviation dset_iter :: "dimension_set \<Rightarrow> policy_dimension list" where
  "dset_iter s \<equiv> filter (dset_contains s) dimension_all"

section \<open>Layers\<close>

datatype policy_layer = RuntimeLayer | ServerLayer | HostLayer | RouterLayer | RouteLayer

definition layer_all :: "policy_layer list" where
  "layer_all = [RuntimeLayer, ServerLayer, HostLayer, RouterLayer, RouteLayer]"

fun layer_name :: "policy_layer \<Rightarrow> string" where
  "layer_name RuntimeLayer = ''runtime''"
| "layer_name ServerLayer = ''server''"
| "layer_name HostLayer = ''host''"
| "layer_name RouterLayer = ''router''"
| "layer_name RouteLayer = ''route''"

fun layer_ordinal :: "policy_layer \<Rightarrow> nat" where
  "layer_ordinal RuntimeLayer = 0"
| "layer_ordinal ServerLayer = 1"
| "layer_ordinal HostLayer = 2"
| "layer_ordinal RouterLayer = 3"
| "layer_ordinal RouteLayer = 4"

definition explicit_bit :: "policy_layer \<Rightarrow> u16" where
  "explicit_bit l = push_bit (layer_ordinal l) 1"

definition default_bit :: "policy_layer \<Rightarrow> u16" where
  "default_bit l = push_bit (length layer_all) (explicit_bit l)"

record layer_source =
  ls_layer :: policy_layer
  ls_defaulted :: bool

abbreviation display_layer_source :: "layer_source \<Rightarrow> string" where
  "display_layer_source s \<equiv>
     (if ls_defaulted s then layer_name (ls_layer s) @ '' (default)'' else layer_name (ls_layer s))"

type_synonym policy_layers = u16

definition layers_empty :: policy_layers where
  "layers_empty = 0"

definition layers_one :: "policy_layer \<Rightarrow> bool \<Rightarrow> policy_layers" where
  "layers_one layer defaulted = (if defaulted then default_bit layer else explicit_bit layer)"

definition layers_union :: "policy_layers \<Rightarrow> policy_layers \<Rightarrow> policy_layers" where
  "layers_union s t = s OR t"

definition layers_contains :: "policy_layers \<Rightarrow> policy_layer \<Rightarrow> bool" where
  "layers_contains s l \<longleftrightarrow> s AND (explicit_bit l OR default_bit l) \<noteq> 0"

abbreviation layers_is_empty :: "policy_layers \<Rightarrow> bool" where
  "layers_is_empty s \<equiv> s = 0"

definition layers_iter :: "policy_layers \<Rightarrow> layer_source list" where
  "layers_iter s =
     List.map_filter
       (\<lambda>l. if layers_contains s l
            then Some \<lparr>ls_layer = l, ls_defaulted = (s AND default_bit l \<noteq> 0)\<rparr> else None)
       layer_all"

definition display_layers :: "policy_layers \<Rightarrow> string" where
  "display_layers s =
     (case layers_iter s of
        [] \<Rightarrow> ''none''
      | first # rest \<Rightarrow>
          display_layer_source first
            @ concat (map (\<lambda>source. '', '' @ display_layer_source source) rest))"

text \<open>The layers that supplied a resolved value.\<close>

definition supplied_sources ::
  "supplier \<Rightarrow> 'v \<times> policy_layers \<Rightarrow> 'v \<times> policy_layers \<Rightarrow> 'v \<Rightarrow> policy_layers"
where
  "supplied_sources supplier inner outer effective =
     (case supplier of
        Inner \<Rightarrow> snd inner
      | Outer \<Rightarrow> snd outer
      | Narrower \<Rightarrow>
          if fst inner = effective
          then if fst outer = effective then layers_union (snd inner) (snd outer) else snd inner
          else snd outer)"

section \<open>Bounds that carry their layers\<close>

record 'v policy_bound =
  pb_value :: 'v
  pb_sources :: policy_layers

definition bound_narrowed_by :: "usize policy_bound \<Rightarrow> usize policy_bound \<Rightarrow> usize policy_bound" where
  "bound_narrowed_by inner outer =
     (let v = min (pb_value inner) (pb_value outer)
      in \<lparr>pb_value = v,
          pb_sources = supplied_sources Narrower (pb_value inner, pb_sources inner)
                         (pb_value outer, pb_sources outer) v\<rparr>)"

record 'v layered =
  ly_bound :: "'v policy_bound"
  ly_explicit :: bool

definition layered_at :: "'v \<Rightarrow> policy_layer \<Rightarrow> bool \<Rightarrow> 'v layered" where
  "layered_at v layer explicit =
     \<lparr>ly_bound = \<lparr>pb_value = v, pb_sources = layers_one layer (\<not> explicit)\<rparr>,
      ly_explicit = explicit\<rparr>"

definition layered_contained_by ::
  "containment \<Rightarrow> ('v \<Rightarrow> 'v \<Rightarrow> 'v) \<Rightarrow> 'v layered \<Rightarrow> 'v layered \<Rightarrow> 'v layered"
where
  "layered_contained_by containment narrower inner outer =
     (let supplier = containment_supplier containment (ly_explicit inner) (ly_explicit outer);
          vi = pb_value (ly_bound inner); vo = pb_value (ly_bound outer);
          v = supplier_choose supplier vi vo narrower
      in \<lparr>ly_bound =
            \<lparr>pb_value = v,
             pb_sources = supplied_sources supplier (vi, pb_sources (ly_bound inner))
                            (vo, pb_sources (ly_bound outer)) v\<rparr>,
          ly_explicit = (ly_explicit inner \<or> ly_explicit outer)\<rparr>)"

section \<open>Sources of every dimension\<close>

text \<open>One entry per dimension, in the order of \<open>dimension_all\<close>.\<close>

type_synonym dimension_sources = "policy_layers list"

definition sources_default :: dimension_sources where
  "sources_default = replicate dimension_count layers_empty"

definition sources_get :: "dimension_sources \<Rightarrow> policy_dimension \<Rightarrow> policy_layers" where
  "sources_get s d = s ! dimension_index d"

definition sources_with ::
  "policy_dimension \<Rightarrow> policy_layers \<Rightarrow> dimension_sources \<Rightarrow> dimension_sources"
where
  "sources_with d layers s = s[dimension_index d := layers]"

definition sources_collect ::
  "policy_dimension list \<Rightarrow> (policy_dimension \<Rightarrow> policy_layers) \<Rightarrow> dimension_sources"
where
  "sources_collect ds source = fold (\<lambda>d s. sources_with d (source d) s) ds sources_default"

section \<open>What the masks stand for\<close>

lemma dimension_index_less [simp]: "dimension_index d < 15"
  by (cases d) simp_all

lemma dimension_index_inject [simp]: "dimension_index d = dimension_index e \<longleftrightarrow> d = e"
  by (cases d; cases e) simp_all

lemma dimension_all_UNIV: "set dimension_all = UNIV"
proof -
  have "d \<in> set dimension_all" for d
    by (cases d) (simp_all add: dimension_all_def)
  then show ?thesis by auto
qed

lemma dimension_all_nth: "dimension_all ! dimension_index d = d"
  by (cases d) (simp_all add: dimension_all_def)

lemma mask_bit_test: "(s :: u16) AND push_bit n 1 \<noteq> 0 \<longleftrightarrow> bit s n"
proof -
  have "push_bit n 1 = (2 :: u16) ^ n"
    by (simp add: push_bit_eq_mult)
  then show ?thesis
    by (simp add: and_exp_eq_0_iff_not_bit)
qed

lemma bit_push_one: "n < 16 \<Longrightarrow> bit (push_bit n (1 :: u16)) m \<longleftrightarrow> m = n"
  unfolding bit_push_bit_iff by (auto simp: bit_1_iff)

lemma dset_contains_bit: "dset_contains s d \<longleftrightarrow> bit s (dimension_index d)"
  unfolding dset_contains_def dimension_bit_def by (rule mask_bit_test)

lemma bit_dimension_bit: "bit (dimension_bit d) n \<longleftrightarrow> n = dimension_index d"
  unfolding dimension_bit_def by (rule bit_push_one) (use dimension_index_less [of d] in linarith)

lemma dset_contains_empty [simp]: "\<not> dset_contains dset_empty d"
  by (simp add: dset_contains_bit dset_empty_def)

lemma dset_contains_with [simp]: "dset_contains (dset_with s d) e \<longleftrightarrow> e = d \<or> dset_contains s e"
  by (auto simp: dset_contains_bit dset_with_def bit_or_iff bit_dimension_bit)

lemma dset_contains_union [simp]:
  "dset_contains (dset_union s t) d \<longleftrightarrow> dset_contains s d \<or> dset_contains t d"
  by (simp add: dset_contains_bit dset_union_def bit_or_iff)

lemma dset_contains_intersection [simp]:
  "dset_contains (dset_intersection s t) d \<longleftrightarrow> dset_contains s d \<and> dset_contains t d"
  by (simp add: dset_contains_bit dset_intersection_def bit_and_iff)

lemma dset_contains_of [simp]: "dset_contains (dset_of ds) d \<longleftrightarrow> d \<in> set ds"
proof -
  have "bit (fold (\<lambda>d bits. bits OR dimension_bit d) ds acc) n
          \<longleftrightarrow> bit acc n \<or> (\<exists>d \<in> set ds. n = dimension_index d)" for acc :: u16 and n
    by (induction ds arbitrary: acc) (auto simp: bit_or_iff bit_dimension_bit)
  then show ?thesis
    by (auto simp: dset_contains_bit dset_of_def)
qed

lemma set_dset_iter: "set (dset_iter s) = {d. dset_contains s d}"
  by (auto simp: dimension_all_UNIV)

lemmas dset_defs = dset_request_def dset_upload_def dset_download_def dset_route_def

lemmas dimensions_defs =
  dimensions_download_def dimensions_route_def

lemma length_sources_default [simp]: "length sources_default = 15"
  by (simp add: sources_default_def dimension_count_def dimension_all_def)

lemma sources_get_default [simp]: "sources_get sources_default d = layers_empty"
  by (cases d) (simp_all add: sources_get_def sources_default_def dimension_count_def dimension_all_def)

lemma sources_get_with:
  "length s = 15 \<Longrightarrow> sources_get (sources_with d layers s) e = (if e = d then layers else sources_get s e)"
  by (auto simp: sources_get_def sources_with_def nth_list_update)

lemma length_sources_with [simp]: "length (sources_with d layers s) = length s"
  by (simp add: sources_with_def)

lemma sources_collect_fold:
  "length s = 15 \<Longrightarrow>
     length (fold (\<lambda>d s. sources_with d (source d) s) ds s) = 15 \<and>
     sources_get (fold (\<lambda>d s. sources_with d (source d) s) ds s) e
       = (if e \<in> set ds then source e else sources_get s e)"
  by (induction ds arbitrary: s) (auto simp: sources_get_with)

lemma length_sources_collect [simp]: "length (sources_collect ds source) = 15"
  by (simp add: sources_collect_def sources_collect_fold)

lemma sources_get_collect [simp]:
  "sources_get (sources_collect ds source) d = (if d \<in> set ds then source d else layers_empty)"
  by (simp add: sources_collect_def sources_collect_fold)

text \<open>The set of layers a mask names, each with whether its value was a default.\<close>

definition layers_set :: "policy_layers \<Rightarrow> (policy_layer \<times> bool) set" where
  "layers_set s =
     {(l, defaulted). bit s (layer_ordinal l + (if defaulted then 5 else 0))}"

lemma layer_ordinal_less [simp]: "layer_ordinal l < 5"
  by (cases l) simp_all

lemma layer_ordinal_inject [simp]: "layer_ordinal k = layer_ordinal l \<longleftrightarrow> k = l"
  by (cases k; cases l) simp_all

lemma default_bit_push: "default_bit l = push_bit (layer_ordinal l + 5) 1"
  unfolding default_bit_def explicit_bit_def push_bit_push_bit
  by (simp add: layer_all_def power_add)

lemma bit_explicit_bit: "bit (explicit_bit l) n \<longleftrightarrow> n = layer_ordinal l"
  unfolding explicit_bit_def by (rule bit_push_one) (use layer_ordinal_less [of l] in linarith)

lemma bit_default_bit: "bit (default_bit l) n \<longleftrightarrow> n = layer_ordinal l + 5"
  unfolding default_bit_push by (rule bit_push_one) (use layer_ordinal_less [of l] in linarith)

lemma ordinal_default_explicit: "layer_ordinal k \<noteq> layer_ordinal l + 5"
  using layer_ordinal_less [of k] by linarith

lemma layers_set_empty [simp]: "layers_set layers_empty = {}"
  by (simp add: layers_set_def layers_empty_def)

lemma layers_set_one [simp]: "layers_set (layers_one l defaulted) = {(l, defaulted)}"
  using ordinal_default_explicit
  by (cases defaulted)
    (auto simp: layers_set_def layers_one_def bit_explicit_bit bit_default_bit
      dest: sym split: if_splits)

lemma layers_set_union [simp]: "layers_set (layers_union s t) = layers_set s \<union> layers_set t"
  by (auto simp: layers_set_def layers_union_def bit_or_iff)

lemma layers_contains_iff: "layers_contains s l \<longleftrightarrow> (\<exists>defaulted. (l, defaulted) \<in> layers_set s)"
proof -
  have "layers_contains s l \<longleftrightarrow> s AND explicit_bit l \<noteq> 0 \<or> s AND default_bit l \<noteq> 0"
    by (auto simp: layers_contains_def bit.conj_disj_distrib or_eq_0_iff)
  also have "\<dots> \<longleftrightarrow> bit s (layer_ordinal l) \<or> bit s (layer_ordinal l + 5)"
    unfolding explicit_bit_def default_bit_push mask_bit_test ..
  finally show ?thesis
    by (auto simp: layers_set_def)
qed

end
