(* ===== verification/Policy_Budgets.thy ===== *)
theory Policy_Budgets
  imports Policy_Layers
begin

text \<open>
  The budgets a layer configures, from \<open>http/request_budget.rs\<close>,
  \<open>http/transfer_budget.rs\<close>, \<open>http/health_route.rs\<close>,
  \<open>http/route_budgets.rs\<close>, \<open>http/effective_budget.rs\<close> and
  \<open>http/policy_resolution.rs\<close>. The trait \<open>PolicyValues\<close> is a record of its four
  operations, so the generic code over it stays one definition; the record for route budgets is
  here and the one for server policies is in the theory of the server policy.
\<close>

section \<open>Request budgets\<close>

record request_budget =
  rq_body_idle :: "duration option"
  rq_total :: "duration option"

definition request_bounded :: "duration \<Rightarrow> duration \<Rightarrow> runtime_error + request_budget" where
  "request_bounded body_idle lifetime =
     (case finite_duration body_idle ''request body_idle'' of
        Inl e \<Rightarrow> Inl e
      | Inr i \<Rightarrow>
          (case finite_duration lifetime ''request total'' of
             Inl e \<Rightarrow> Inl e
           | Inr t \<Rightarrow> Inr \<lparr>rq_body_idle = Some i, rq_total = Some t\<rparr>))"

abbreviation request_unbounded :: request_budget where
  "request_unbounded \<equiv> \<lparr>rq_body_idle = None, rq_total = None\<rparr>"

definition request_with_body_idle :: "duration \<Rightarrow> request_budget \<Rightarrow> runtime_error + request_budget" where
  "request_with_body_idle timeout b =
     (case finite_duration timeout ''request body_idle'' of
        Inl e \<Rightarrow> Inl e
      | Inr i \<Rightarrow> Inr (b\<lparr>rq_body_idle := Some i\<rparr>))"

abbreviation request_without_body_idle :: "request_budget \<Rightarrow> request_budget" where
  "request_without_body_idle b \<equiv> b\<lparr>rq_body_idle := None\<rparr>"

definition request_with_total :: "duration \<Rightarrow> request_budget \<Rightarrow> runtime_error + request_budget" where
  "request_with_total timeout b =
     (case finite_duration timeout ''request total'' of
        Inl e \<Rightarrow> Inl e
      | Inr t \<Rightarrow> Inr (b\<lparr>rq_total := Some t\<rparr>))"

abbreviation request_without_total :: "request_budget \<Rightarrow> request_budget" where
  "request_without_total b \<equiv> b\<lparr>rq_total := None\<rparr>"

definition request_from_constants :: "duration \<Rightarrow> duration \<Rightarrow> request_budget" where
  "request_from_constants body_idle lifetime =
     \<lparr>rq_body_idle = Some body_idle, rq_total = Some lifetime\<rparr>"

definition request_narrowed_by :: "request_budget \<Rightarrow> request_budget \<Rightarrow> request_budget" where
  "request_narrowed_by inner outer =
     \<lparr>rq_body_idle = narrow (rq_body_idle inner) (rq_body_idle outer),
      rq_total = narrow (rq_total inner) (rq_total outer)\<rparr>"

section \<open>Transfer budgets\<close>

record transfer_budget =
  tb_max_bytes :: "usize option"
  tb_idle :: "duration option"
  tb_total :: "duration option"

definition transfer_of ::
  "usize option \<Rightarrow> duration option \<Rightarrow> duration option \<Rightarrow> transfer_budget"
where
  "transfer_of max_bytes idle lifetime =
     \<lparr>tb_max_bytes = max_bytes, tb_idle = idle, tb_total = lifetime\<rparr>"

definition transfer_bounded ::
  "usize \<Rightarrow> duration \<Rightarrow> duration \<Rightarrow> runtime_error + transfer_budget"
where
  "transfer_bounded max_bytes idle lifetime =
     (case positive_limit max_bytes ''transfer max_bytes'' of
        Inl e \<Rightarrow> Inl e
      | Inr m \<Rightarrow>
          (case finite_duration idle ''transfer idle'' of
             Inl e \<Rightarrow> Inl e
           | Inr i \<Rightarrow>
               (case finite_duration lifetime ''transfer total'' of
                  Inl e \<Rightarrow> Inl e
                | Inr t \<Rightarrow> Inr (transfer_of (Some m) (Some i) (Some t)))))"

definition transfer_unbounded :: transfer_budget where
  "transfer_unbounded = transfer_of None None None"

definition transfer_with_clamped_idle ::
  "duration \<Rightarrow> duration \<Rightarrow> transfer_budget \<Rightarrow> transfer_budget"
where
  "transfer_with_clamped_idle timeout least b = b\<lparr>tb_idle := Some (clamped_duration timeout least)\<rparr>"

definition transfer_with_clamped_total ::
  "duration \<Rightarrow> duration \<Rightarrow> transfer_budget \<Rightarrow> transfer_budget"
where
  "transfer_with_clamped_total timeout least b = b\<lparr>tb_total := Some (clamped_duration timeout least)\<rparr>"

definition transfer_with_max_bytes :: "usize \<Rightarrow> transfer_budget \<Rightarrow> runtime_error + transfer_budget" where
  "transfer_with_max_bytes max_bytes b =
     (case positive_limit max_bytes ''transfer max_bytes'' of
        Inl e \<Rightarrow> Inl e
      | Inr m \<Rightarrow> Inr (b\<lparr>tb_max_bytes := Some m\<rparr>))"

abbreviation transfer_without_max_bytes :: "transfer_budget \<Rightarrow> transfer_budget" where
  "transfer_without_max_bytes b \<equiv> b\<lparr>tb_max_bytes := None\<rparr>"

definition transfer_with_idle :: "duration \<Rightarrow> transfer_budget \<Rightarrow> runtime_error + transfer_budget" where
  "transfer_with_idle timeout b =
     (case finite_duration timeout ''transfer idle'' of
        Inl e \<Rightarrow> Inl e
      | Inr i \<Rightarrow> Inr (b\<lparr>tb_idle := Some i\<rparr>))"

abbreviation transfer_without_idle :: "transfer_budget \<Rightarrow> transfer_budget" where
  "transfer_without_idle b \<equiv> b\<lparr>tb_idle := None\<rparr>"

definition transfer_with_total :: "duration \<Rightarrow> transfer_budget \<Rightarrow> runtime_error + transfer_budget" where
  "transfer_with_total timeout b =
     (case finite_duration timeout ''transfer total'' of
        Inl e \<Rightarrow> Inl e
      | Inr t \<Rightarrow> Inr (b\<lparr>tb_total := Some t\<rparr>))"

abbreviation transfer_without_total :: "transfer_budget \<Rightarrow> transfer_budget" where
  "transfer_without_total b \<equiv> b\<lparr>tb_total := None\<rparr>"

definition transfer_narrowed_by :: "transfer_budget \<Rightarrow> transfer_budget \<Rightarrow> transfer_budget" where
  "transfer_narrowed_by inner outer =
     \<lparr>tb_max_bytes = narrow (tb_max_bytes inner) (tb_max_bytes outer),
      tb_idle = narrow (tb_idle inner) (tb_idle outer),
      tb_total = narrow (tb_total inner) (tb_total outer)\<rparr>"

section \<open>Where the health report is served\<close>

datatype health_route = HealthDefault | HealthPath string | HealthDisabled

abbreviation metrics_path :: string where "metrics_path \<equiv> ''/metrics''"
abbreviation default_health_path :: string where "default_health_path \<equiv> ''/health''"
abbreviation profiling_path :: string where "profiling_path \<equiv> ''/debug/pprof/cpu''"

fun segment_defect :: "string \<Rightarrow> string option" where
  "segment_defect [] = Some (''must not have an empty segment or a trailing '' @ [CHR 0x27, CHR ''/'', CHR 0x27])"
| "segment_defect (c # _) =
     (if c = CHR '':'' \<or> c = CHR ''*'' then Some ''must name only static segments'' else None)"

fun first_defect :: "string list \<Rightarrow> string option" where
  "first_defect [] = None"
| "first_defect (s # rest) = (case segment_defect s of Some d \<Rightarrow> Some d | None \<Rightarrow> first_defect rest)"

definition path_defect :: "string \<Rightarrow> string option" where
  "path_defect path =
     (case strip_prefix ''/'' path of
        None \<Rightarrow> Some (''must start with '' @ [CHR 0x27, CHR ''/'', CHR 0x27])
      | Some rest \<Rightarrow>
          if CHR ''?'' \<in> set path \<or> CHR ''#'' \<in> set path
          then Some ''must not carry a query or fragment''
          else if path = metrics_path \<or> path = profiling_path
          then Some ''is another internal route''
          else if path = ''/'' then None
          else first_defect (str_split CHR ''/'' rest))"

text \<open>
  The \<open>Debug\<close> text of a string: quoted, with the ASCII escapes. Printable text outside
  ASCII stands for itself.
\<close>

definition debug_char :: "char \<Rightarrow> string" where
  "debug_char c =
     (if c = CHR 0x22 \<or> c = CHR 0x5C then [CHR 0x5C, c]
      else if c = CHR 0x0A then [CHR 0x5C, CHR ''n'']
      else if c = CHR 0x0D then [CHR 0x5C, CHR ''r'']
      else if c = CHR 0x09 then [CHR 0x5C, CHR ''t'']
      else if c = CHR 0x00 then [CHR 0x5C, CHR ''0'']
      else [c])"

definition debug_str :: "string \<Rightarrow> string" where
  "debug_str s = [CHR 0x22] @ concat (map debug_char s) @ [CHR 0x22]"

definition health_validated :: "health_route \<Rightarrow> runtime_error + health_route" where
  "health_validated route =
     (case route of
        HealthPath path \<Rightarrow>
          (case path_defect path of
             None \<Rightarrow> Inr route
           | Some defect \<Rightarrow>
               Inl (InvalidArgument (''health_route path '' @ debug_str path @ '' '' @ defect)))
      | HealthDefault \<Rightarrow> Inr route
      | HealthDisabled \<Rightarrow> Inr route)"

fun health_narrowed_by :: "health_route \<Rightarrow> health_route \<Rightarrow> health_route" where
  "health_narrowed_by HealthDisabled _ = HealthDisabled"
| "health_narrowed_by _ HealthDisabled = HealthDisabled"
| "health_narrowed_by (HealthPath p) _ = HealthPath p"
| "health_narrowed_by HealthDefault outer = outer"

fun health_path_of :: "health_route \<Rightarrow> string option" where
  "health_path_of HealthDefault = Some default_health_path"
| "health_path_of (HealthPath p) = Some p"
| "health_path_of HealthDisabled = None"

section \<open>Values of any dimension\<close>

datatype policy_value =
    DurationValue "duration option"
  | BytesValue "usize option"
  | HealthValue health_route

text \<open>
  The narrower of two values of one dimension: what the code does field by field, as one
  function. Values of different kinds never meet; the first is kept.
\<close>

fun narrow_value :: "policy_value \<Rightarrow> policy_value \<Rightarrow> policy_value" where
  "narrow_value (DurationValue a) (DurationValue b) = DurationValue (narrow a b)"
| "narrow_value (BytesValue a) (BytesValue b) = BytesValue (narrow a b)"
| "narrow_value (HealthValue a) (HealthValue b) = HealthValue (health_narrowed_by a b)"
| "narrow_value a _ = a"

section \<open>Policy values and their located form\<close>

record 'v policy_values =
  pv_dimensions :: "policy_dimension list"
  pv_explicit :: "'v \<Rightarrow> dimension_set"
  pv_value :: "'v \<Rightarrow> policy_dimension \<Rightarrow> policy_value option"
  pv_contained_by :: "'v \<Rightarrow> 'v \<Rightarrow> 'v"

definition values_supplier :: "dimension_set \<Rightarrow> dimension_set \<Rightarrow> policy_dimension \<Rightarrow> supplier" where
  "values_supplier inner outer d =
     containment_supplier (dimension_containment d) (dset_contains inner d) (dset_contains outer d)"

record 'v located =
  lc_values :: 'v
  lc_sources :: dimension_sources

abbreviation located_sources :: "'v located \<Rightarrow> policy_dimension \<Rightarrow> policy_layers" where
  "located_sources l d \<equiv> sources_get (lc_sources l) d"

definition located_contained_by ::
  "'v policy_values \<Rightarrow> 'v located \<Rightarrow> 'v located \<Rightarrow> 'v located"
where
  "located_contained_by P inner outer =
     (let vals = pv_contained_by P (lc_values inner) (lc_values outer);
          sources = sources_collect (pv_dimensions P)
            (\<lambda>d. supplied_sources
                   (values_supplier (pv_explicit P (lc_values inner))
                      (pv_explicit P (lc_values outer)) d)
                   (pv_value P (lc_values inner) d, located_sources inner d)
                   (pv_value P (lc_values outer) d, located_sources outer d)
                   (pv_value P vals d))
      in \<lparr>lc_values = vals, lc_sources = sources\<rparr>)"

definition without_source :: "policy_dimension \<Rightarrow> 'v located \<Rightarrow> 'v located" where
  "without_source d l = l\<lparr>lc_sources := sources_with d layers_empty (lc_sources l)\<rparr>"

text \<open>The dimensions each side gives up to the other.\<close>

definition yielded ::
  "policy_dimension list \<Rightarrow> dimension_set \<Rightarrow> dimension_set \<Rightarrow> dimension_set \<times> dimension_set"
where
  "yielded dims inner outer =
     fold (\<lambda>d (inner_yields, outer_yields).
             case values_supplier inner outer d of
               Outer \<Rightarrow> (dset_with inner_yields d, outer_yields)
             | Inner \<Rightarrow> (inner_yields, dset_with outer_yields d)
             | Narrower \<Rightarrow> (inner_yields, outer_yields))
       dims (dset_empty, dset_empty)"

section \<open>Diagnostics\<close>

record policy_diagnostic =
  pd_layer :: policy_layer
  pd_dimension :: policy_dimension
  pd_configured :: policy_value
  pd_effective :: policy_value
  pd_sources :: policy_layers

definition diagnostic_changed ::
  "policy_layer \<Rightarrow> policy_dimension \<Rightarrow> policy_value \<Rightarrow> policy_value \<Rightarrow> policy_layers
   \<Rightarrow> policy_diagnostic option"
where
  "diagnostic_changed layer d configured effective sources =
     (if configured \<noteq> effective
      then Some \<lparr>pd_layer = layer, pd_dimension = d, pd_configured = configured,
                 pd_effective = effective, pd_sources = sources\<rparr>
      else None)"

definition diagnostic_body_limit ::
  "policy_layer \<Rightarrow> usize option \<Rightarrow> usize policy_bound \<Rightarrow> policy_diagnostic option"
where
  "diagnostic_body_limit layer configured effective =
     (case configured of
        None \<Rightarrow> None
      | Some bytes \<Rightarrow>
          diagnostic_changed layer RequestBodyLimit (BytesValue (Some bytes))
            (BytesValue (Some (pb_value effective))) (pb_sources effective))"

definition located_diagnostics ::
  "'v policy_values \<Rightarrow> 'v located \<Rightarrow> policy_layer \<Rightarrow> 'v \<Rightarrow> policy_diagnostic list"
where
  "located_diagnostics P effective layer local =
     List.map_filter
       (\<lambda>d. case pv_value P local d of
               None \<Rightarrow> None
             | Some configured \<Rightarrow>
                 (case pv_value P (lc_values effective) d of
                    None \<Rightarrow> None
                  | Some v \<Rightarrow>
                      diagnostic_changed layer d configured v (located_sources effective d)))
       (filter (dset_contains (pv_explicit P local)) (pv_dimensions P))"

section \<open>Route budgets\<close>

record route_budgets =
  rb_request :: request_budget
  rb_upload :: transfer_budget
  rb_download :: transfer_budget
  rb_explicit :: dimension_set

definition route_budgets_new ::
  "request_budget \<Rightarrow> transfer_budget \<Rightarrow> transfer_budget \<Rightarrow> dimension_set \<Rightarrow> route_budgets"
where
  "route_budgets_new request upload download explicit =
     \<lparr>rb_request = request, rb_upload = upload, rb_download = download, rb_explicit = explicit\<rparr>"

definition route_budgets_default :: route_budgets where
  "route_budgets_default =
     route_budgets_new request_unbounded transfer_unbounded transfer_unbounded dset_empty"

definition budgets_with_request :: "request_budget \<Rightarrow> route_budgets \<Rightarrow> route_budgets" where
  "budgets_with_request request b =
     b\<lparr>rb_request := request, rb_explicit := dset_union (rb_explicit b) dset_request\<rparr>"

definition budgets_with_upload :: "transfer_budget \<Rightarrow> route_budgets \<Rightarrow> route_budgets" where
  "budgets_with_upload upload b =
     b\<lparr>rb_upload := upload, rb_explicit := dset_union (rb_explicit b) dset_upload\<rparr>"

definition budgets_with_download :: "transfer_budget \<Rightarrow> route_budgets \<Rightarrow> route_budgets" where
  "budgets_with_download download b =
     b\<lparr>rb_download := download, rb_explicit := dset_union (rb_explicit b) dset_download\<rparr>"

definition budgets_located :: "route_budgets \<Rightarrow> policy_layer \<Rightarrow> route_budgets located" where
  "budgets_located b layer =
     \<lparr>lc_values = b,
      lc_sources = sources_collect dimensions_route
        (\<lambda>d. if dset_contains (rb_explicit b) d then layers_one layer False else layers_empty)\<rparr>"

fun transfer_without :: "transfer_budget \<Rightarrow> dimension_set \<Rightarrow> policy_dimension list \<Rightarrow> transfer_budget" where
  "transfer_without budget ds [max_bytes, idle, lifetime] =
     (let b1 = if dset_contains ds max_bytes then transfer_without_max_bytes budget else budget;
          b2 = if dset_contains ds idle then transfer_without_idle b1 else b1
      in if dset_contains ds lifetime then transfer_without_total b2 else b2)"
| "transfer_without budget _ _ = budget"

definition budgets_without :: "route_budgets \<Rightarrow> dimension_set \<Rightarrow> route_budgets" where
  "budgets_without b ds =
     (let r1 = if dset_contains ds RequestBodyIdle then request_without_body_idle (rb_request b)
               else rb_request b;
          r2 = if dset_contains ds RequestTotal then request_without_total r1 else r1
      in b\<lparr>rb_request := r2,
            rb_upload := transfer_without (rb_upload b) ds dimensions_upload,
            rb_download := transfer_without (rb_download b) ds dimensions_download\<rparr>)"

definition budgets_upload_deadlines_only :: "route_budgets \<Rightarrow> route_budgets" where
  "budgets_upload_deadlines_only b =
     b\<lparr>rb_upload := transfer_without_max_bytes (rb_upload b)\<rparr>"

definition located_upload_deadlines_only :: "route_budgets located \<Rightarrow> route_budgets located" where
  "located_upload_deadlines_only l =
     without_source UploadMaxBytes
       \<lparr>lc_values = budgets_upload_deadlines_only (lc_values l), lc_sources = lc_sources l\<rparr>"

fun budgets_value :: "route_budgets \<Rightarrow> policy_dimension \<Rightarrow> policy_value option" where
  "budgets_value b RequestBodyIdle = Some (DurationValue (rq_body_idle (rb_request b)))"
| "budgets_value b RequestTotal = Some (DurationValue (rq_total (rb_request b)))"
| "budgets_value b UploadMaxBytes = Some (BytesValue (tb_max_bytes (rb_upload b)))"
| "budgets_value b UploadIdle = Some (DurationValue (tb_idle (rb_upload b)))"
| "budgets_value b UploadTotal = Some (DurationValue (tb_total (rb_upload b)))"
| "budgets_value b DownloadMaxBytes = Some (BytesValue (tb_max_bytes (rb_download b)))"
| "budgets_value b DownloadIdle = Some (DurationValue (tb_idle (rb_download b)))"
| "budgets_value b DownloadTotal = Some (DurationValue (tb_total (rb_download b)))"
| "budgets_value b _ = None"

definition budgets_contained_by :: "route_budgets \<Rightarrow> route_budgets \<Rightarrow> route_budgets" where
  "budgets_contained_by self outer =
     (let (inner_yields, outer_yields) =
            yielded dimensions_route (rb_explicit self) (rb_explicit outer);
          inner = budgets_without self inner_yields;
          outer = budgets_without outer outer_yields
      in \<lparr>rb_request = request_narrowed_by (rb_request inner) (rb_request outer),
          rb_upload = transfer_narrowed_by (rb_upload inner) (rb_upload outer),
          rb_download = transfer_narrowed_by (rb_download inner) (rb_download outer),
          rb_explicit = dset_union (rb_explicit inner) (rb_explicit outer)\<rparr>)"

definition route_budgets_values :: "route_budgets policy_values" where
  "route_budgets_values =
     \<lparr>pv_dimensions = dimensions_route, pv_explicit = rb_explicit, pv_value = budgets_value,
      pv_contained_by = budgets_contained_by\<rparr>"

section \<open>Effective budgets\<close>

record effective_request_budget =
  erb_value :: request_budget
  erb_body_idle :: policy_layers
  erb_total :: policy_layers

definition effective_request_of :: "route_budgets located \<Rightarrow> effective_request_budget" where
  "effective_request_of budgets =
     \<lparr>erb_value = rb_request (lc_values budgets),
      erb_body_idle = located_sources budgets RequestBodyIdle,
      erb_total = located_sources budgets RequestTotal\<rparr>"

record effective_transfer_budget =
  etb_value :: transfer_budget
  etb_max_bytes :: policy_layers
  etb_idle :: policy_layers
  etb_total :: policy_layers

abbreviation effective_upload :: "route_budgets located \<Rightarrow> effective_transfer_budget" where
  "effective_upload budgets \<equiv>
     \<lparr>etb_value = rb_upload (lc_values budgets),
      etb_max_bytes = located_sources budgets UploadMaxBytes,
      etb_idle = located_sources budgets UploadIdle,
      etb_total = located_sources budgets UploadTotal\<rparr>"

definition effective_download :: "route_budgets located \<Rightarrow> effective_transfer_budget" where
  "effective_download budgets =
     \<lparr>etb_value = rb_download (lc_values budgets),
      etb_max_bytes = located_sources budgets DownloadMaxBytes,
      etb_idle = located_sources budgets DownloadIdle,
      etb_total = located_sources budgets DownloadTotal\<rparr>"

end
