(* ===== verification/Policy_Resolution.thy ===== *)
theory Policy_Resolution
  imports Policy_Budgets
begin

text \<open>
  What resolving a chain of layers promises. The specification has no edges and no order of
  evaluation: of all layers, those that set a dimension explicitly are considered, or all of them
  when none did; the effective value is the narrowest considered value, and its sources are the
  layers whose considered value is the effective one. The locale states what an implementation of
  \<open>PolicyValues\<close> must satisfy for its located chains to meet that specification, and
  route budgets are shown to satisfy it.
\<close>

section \<open>Specification\<close>

text \<open>One layer's entry for one dimension: whether it is explicit, its value, its layers.\<close>

type_synonym layer_entry = "bool \<times> policy_value \<times> policy_layers"

abbreviation entry_value :: "layer_entry \<Rightarrow> policy_value" where
  "entry_value e \<equiv> fst (snd e)"

abbreviation entry_layers :: "layer_entry \<Rightarrow> policy_layers" where
  "entry_layers e \<equiv> snd (snd e)"

definition some_explicit :: "layer_entry list \<Rightarrow> bool" where
  "some_explicit es \<longleftrightarrow> (\<exists>e \<in> set es. fst e)"

definition considered :: "layer_entry list \<Rightarrow> layer_entry list" where
  "considered es = (if some_explicit es then filter fst es else es)"

fun narrowest :: "policy_value list \<Rightarrow> policy_value" where
  "narrowest [] = DurationValue None"
| "narrowest [v] = v"
| "narrowest (v # vs) = narrow_value v (narrowest vs)"

definition spec_value :: "layer_entry list \<Rightarrow> policy_value" where
  "spec_value es = narrowest (map entry_value (considered es))"

definition spec_sources :: "layer_entry list \<Rightarrow> (policy_layer \<times> bool) set" where
  "spec_sources es =
     (\<Union>e \<in> {e \<in> set (considered es). entry_value e = spec_value es}. layers_set (entry_layers e))"

section \<open>Values that are ordered\<close>

text \<open>Durations compare with durations and byte counts with byte counts.\<close>

fun comparable :: "policy_value \<Rightarrow> policy_value \<Rightarrow> bool" where
  "comparable (DurationValue _) (DurationValue _) = True"
| "comparable (BytesValue _) (BytesValue _) = True"
| "comparable _ _ = False"

lemma comparable_sym: "comparable a b \<Longrightarrow> comparable b a"
  by (cases a; cases b) simp_all

lemma comparable_trans: "comparable a b \<Longrightarrow> comparable b c \<Longrightarrow> comparable a c"
  by (cases a; cases b; cases c) simp_all

lemma narrow_value_comparable [simp]: "comparable a b \<Longrightarrow> comparable a (narrow_value a b)"
  by (cases a; cases b) simp_all

lemma narrow_value_cases: "comparable a b \<Longrightarrow> narrow_value a b = a \<or> narrow_value a b = b"
  by (cases a; cases b) (auto simp: narrow_cases)

lemma narrow_value_absorb:
  "comparable a b \<Longrightarrow> narrow_value a (narrow_value a b) = narrow_value a b"
  by (cases a; cases b) simp_all

lemma narrow_value_commute: "comparable a b \<Longrightarrow> narrow_value a b = narrow_value b a"
  by (cases a; cases b) (simp_all add: narrow_commute)

lemma narrow_value_left_commute:
  "comparable a b \<Longrightarrow> comparable b c \<Longrightarrow>
     narrow_value a (narrow_value b c) = narrow_value b (narrow_value a c)"
  by (cases a; cases b; cases c) (simp_all add: narrow_left_commute)

lemma narrowest_Cons: "vs \<noteq> [] \<Longrightarrow> narrowest (v # vs) = narrow_value v (narrowest vs)"
  by (cases vs) simp_all

text \<open>Every value is comparable with one representative of the dimension's kind.\<close>

definition all_comparable :: "policy_value \<Rightarrow> policy_value list \<Rightarrow> bool" where
  "all_comparable k vs \<longleftrightarrow> (\<forall>v \<in> set vs. comparable k v)"

lemma narrowest_comparable:
  "vs \<noteq> [] \<Longrightarrow> all_comparable k vs \<Longrightarrow> comparable k (narrowest vs)"
proof (induction vs rule: narrowest.induct)
  case (3 v w ws)
  then have "comparable k v" "comparable k (narrowest (w # ws))"
    by (simp_all add: all_comparable_def)
  then have "comparable v (narrowest (w # ws))"
    by (blast intro: comparable_sym comparable_trans)
  then show ?case
    using \<open>comparable k v\<close> by (auto intro: comparable_trans)
qed (simp_all add: all_comparable_def)

lemma narrowest_absorb:
  "x \<in> set vs \<Longrightarrow> all_comparable k vs \<Longrightarrow> narrow_value x (narrowest vs) = narrowest vs"
proof (induction vs rule: narrowest.induct)
  case (2 v)
  then show ?case
    by (cases k; cases v) (simp_all add: all_comparable_def)
next
  case (3 v w ws)
  have kx: "comparable k x" and kv: "comparable k v" and rest: "all_comparable k (w # ws)"
    using 3(2,3) by (auto simp: all_comparable_def)
  have kr: "comparable k (narrowest (w # ws))"
    by (rule narrowest_comparable) (use rest in simp_all)
  have vr: "comparable v (narrowest (w # ws))" and xv: "comparable x v"
    using kv kr kx by (blast intro: comparable_sym comparable_trans)+
  show ?case
  proof (cases "x = v")
    case True
    then show ?thesis using narrow_value_absorb [OF vr] by simp
  next
    case False
    then have "narrow_value x (narrowest (w # ws)) = narrowest (w # ws)"
      using 3 rest by simp
    then show ?thesis
      using narrow_value_left_commute [OF xv vr] by simp
  qed
qed simp_all

section \<open>One containment edge meets the specification\<close>

lemma considered_not_Nil: "es \<noteq> [] \<Longrightarrow> considered es \<noteq> []"
  by (auto simp: considered_def some_explicit_def filter_empty_conv)

lemma considered_subset: "set (considered es) \<subseteq> set es"
  by (auto simp: considered_def)

lemma considered_Cons:
  "considered (e # es) =
     (case containment_supplier Intent (fst e) (some_explicit es) of
        Inner \<Rightarrow> [e]
      | Outer \<Rightarrow> considered es
      | Narrower \<Rightarrow> e # considered es)"
  by (cases "fst e"; cases "some_explicit es")
    (auto simp: considered_def some_explicit_def filter_empty_conv)

lemma spec_value_Cons:
  assumes "es \<noteq> []"
  shows "spec_value (e # es) =
           supplier_choose (containment_supplier Intent (fst e) (some_explicit es))
             (entry_value e) (spec_value es) narrow_value"
  using considered_not_Nil [OF assms]
  by (cases "containment_supplier Intent (fst e) (some_explicit es)")
    (simp_all add: spec_value_def considered_Cons narrowest_Cons)

lemma spec_sources_Cons:
  assumes "es \<noteq> []" and kinds: "all_comparable k (map entry_value (e # es))"
    and "layers_set S = spec_sources es"
  defines "s \<equiv> containment_supplier Intent (fst e) (some_explicit es)"
  shows "layers_set (supplied_sources s (Some (entry_value e), entry_layers e)
           (Some (spec_value es), S) (Some (spec_value (e # es)))) = spec_sources (e # es)"
proof (cases s)
  case Narrower
  let ?vs = "map entry_value (considered es)"
  have vs: "?vs \<noteq> []" "all_comparable k ?vs" and ke: "comparable k (entry_value e)"
    using considered_not_Nil [OF assms(1)] considered_subset [of es] kinds
    by (auto simp: all_comparable_def)
  have cmp: "comparable (entry_value e) (spec_value es)"
    using narrowest_comparable [OF vs] ke
    unfolding spec_value_def by (blast intro: comparable_sym comparable_trans)
  have eff: "spec_value (e # es) = narrow_value (entry_value e) (spec_value es)"
    using spec_value_Cons [OF assms(1), of e] Narrower by (simp add: s_def)
  have absent: "x \<in> set (considered es) \<Longrightarrow> entry_value x = spec_value (e # es)
      \<Longrightarrow> spec_value es = spec_value (e # es)" for x
  proof -
    assume x: "x \<in> set (considered es)" "entry_value x = spec_value (e # es)"
    have "narrow_value (entry_value x) (spec_value es) = spec_value es"
      unfolding spec_value_def using x(1) by (intro narrowest_absorb [OF _ vs(2)]) simp
    moreover have "narrow_value (spec_value (e # es)) (spec_value es) = spec_value (e # es)"
      using cmp unfolding eff
      by (metis comparable_sym narrow_value_absorb narrow_value_cases narrow_value_commute)
    ultimately show "spec_value es = spec_value (e # es)"
      using x(2) by simp
  qed
  have cons: "considered (e # es) = e # considered es"
    using Narrower by (simp add: considered_Cons s_def)
  define F where "F v = {x \<in> set (considered es). entry_value x = v}" for v
  let ?eff = "spec_value (e # es)"
  have tail: "F ?eff = (if spec_value es = ?eff then F (spec_value es) else {})"
  proof (cases "spec_value es = ?eff")
    case False
    then have "F ?eff = {}" unfolding F_def using absent by blast
    with False show ?thesis by simp
  qed simp
  have "{x \<in> set (considered (e # es)). entry_value x = ?eff}
          = (if entry_value e = ?eff then {e} else {}) \<union> F ?eff"
    by (auto simp: cons F_def)
  then have spec: "spec_sources (e # es) =
      (if entry_value e = ?eff then layers_set (entry_layers e) else {})
        \<union> (if spec_value es = ?eff then layers_set S else {})"
    unfolding assms(3) spec_sources_def F_def [symmetric] tail by simp
  have "entry_value e = ?eff \<or> spec_value es = ?eff"
    using narrow_value_cases [OF cmp] eff by auto
  then show ?thesis
    unfolding spec using Narrower by (auto simp: supplied_sources_def)
next
  case Inner
  then have "considered (e # es) = [e]"
    by (simp add: considered_Cons s_def)
  then show ?thesis
    using Inner by (auto simp: supplied_sources_def spec_sources_def spec_value_def)
next
  case Outer
  then have "considered (e # es) = considered es"
    by (simp add: considered_Cons s_def)
  then show ?thesis
    using Outer assms(3) by (simp add: supplied_sources_def spec_sources_def spec_value_def)
qed

section \<open>The contract of layered policies\<close>

text \<open>
  A dictionary of policy values whose containment resolves every dimension independently, by the
  supplier that the containment rule names.
\<close>

locale layered_policy =
  fixes P :: "'v policy_values" and wf :: "'v \<Rightarrow> bool"
  assumes value_defined: "d \<in> set (pv_dimensions P) \<Longrightarrow> \<exists>x. pv_value P v d = Some x"
    and value_contained:
      "wf inner \<Longrightarrow> wf outer \<Longrightarrow> d \<in> set (pv_dimensions P) \<Longrightarrow>
         pv_value P (pv_contained_by P inner outer) d =
           Some (supplier_choose
             (values_supplier (pv_explicit P inner) (pv_explicit P outer) d)
             (the (pv_value P inner d)) (the (pv_value P outer d)) narrow_value)"
    and explicit_contained:
      "dset_contains (pv_explicit P (pv_contained_by P inner outer)) d \<longleftrightarrow>
         dset_contains (pv_explicit P inner) d \<or> dset_contains (pv_explicit P outer) d"
    and wf_contained: "wf inner \<Longrightarrow> wf outer \<Longrightarrow> wf (pv_contained_by P inner outer)"
begin

definition entry_of :: "policy_dimension \<Rightarrow> 'v located \<Rightarrow> layer_entry" where
  "entry_of d l =
     (dset_contains (pv_explicit P (lc_values l)) d, the (pv_value P (lc_values l) d),
      located_sources l d)"

definition chain :: "'v located list \<Rightarrow> 'v located \<Rightarrow> 'v located" where
  "chain ls base = foldr (located_contained_by P) ls base"

lemma values_contained [simp]:
  "lc_values (located_contained_by P inner outer) =
     pv_contained_by P (lc_values inner) (lc_values outer)"
  by (simp add: located_contained_by_def Let_def)

lemma sources_contained:
  "d \<in> set (pv_dimensions P) \<Longrightarrow>
     located_sources (located_contained_by P inner outer) d =
       supplied_sources
         (values_supplier (pv_explicit P (lc_values inner)) (pv_explicit P (lc_values outer)) d)
         (pv_value P (lc_values inner) d, located_sources inner d)
         (pv_value P (lc_values outer) d, located_sources outer d)
         (pv_value P (pv_contained_by P (lc_values inner) (lc_values outer)) d)"
  by (simp add: located_contained_by_def Let_def)

lemma chain_wf: "(\<forall>l \<in> set ls. wf (lc_values l)) \<Longrightarrow> wf (lc_values base) \<Longrightarrow> wf (lc_values (chain ls base))"
  by (induction ls) (auto simp: chain_def intro: wf_contained)

lemma chain_explicit:
  "dset_contains (pv_explicit P (lc_values (chain ls base))) d \<longleftrightarrow>
     some_explicit (map (entry_of d) (ls @ [base]))"
  by (induction ls) (auto simp: chain_def some_explicit_def entry_of_def explicit_contained)

lemma chain_value:
  assumes "\<forall>l \<in> set ls. wf (lc_values l)" and "wf (lc_values base)"
    and d: "d \<in> set (pv_dimensions P)" and intent: "dimension_containment d = Intent"
  shows "pv_value P (lc_values (chain ls base)) d = Some (spec_value (map (entry_of d) (ls @ [base])))"
  using assms(1)
proof (induction ls)
  case Nil
  then show ?case
    using value_defined [OF d, of "lc_values base"]
    by (auto simp: chain_def spec_value_def considered_def entry_of_def some_explicit_def)
next
  case (Cons l ls)
  let ?rest = "chain ls base"
  let ?es = "map (entry_of d) (ls @ [base])"
  have eq: "chain (l # ls) base = located_contained_by P l ?rest"
    by (simp add: chain_def)
  have "?es \<noteq> []" by simp
  have "pv_value P (lc_values (chain (l # ls) base)) d =
      Some (supplier_choose (values_supplier (pv_explicit P (lc_values l))
               (pv_explicit P (lc_values ?rest)) d)
             (the (pv_value P (lc_values l) d)) (spec_value ?es) narrow_value)"
    unfolding eq using Cons d chain_wf [of ls base] assms(2) by (simp add: value_contained)
  also have "values_supplier (pv_explicit P (lc_values l)) (pv_explicit P (lc_values ?rest)) d
      = containment_supplier Intent (fst (entry_of d l)) (some_explicit ?es)"
    by (simp add: values_supplier_def intent chain_explicit entry_of_def)
  also have "the (pv_value P (lc_values l) d) = entry_value (entry_of d l)"
    by (simp add: entry_of_def)
  finally show ?case
    using spec_value_Cons [OF \<open>?es \<noteq> []\<close>, of "entry_of d l"] by simp
qed

lemma chain_sources:
  assumes wfs: "\<forall>l \<in> set ls. wf (lc_values l)" and base: "wf (lc_values base)"
    and d: "d \<in> set (pv_dimensions P)" and intent: "dimension_containment d = Intent"
    and kinds: "all_comparable k (map (\<lambda>l. the (pv_value P (lc_values l) d)) (ls @ [base]))"
  shows "layers_set (located_sources (chain ls base) d) = spec_sources (map (entry_of d) (ls @ [base]))"
  using wfs kinds
proof (induction ls)
  case Nil
  then show ?case
    by (auto simp: chain_def spec_sources_def spec_value_def considered_def entry_of_def some_explicit_def)
next
  case (Cons l ls)
  let ?rest = "chain ls base"
  let ?es = "map (entry_of d) (ls @ [base])"
  have IH: "layers_set (located_sources ?rest d) = spec_sources ?es"
    using Cons by (simp add: all_comparable_def)
  have eq: "chain (l # ls) base = located_contained_by P l ?rest"
    by (simp add: chain_def)
  have sup: "values_supplier (pv_explicit P (lc_values l)) (pv_explicit P (lc_values ?rest)) d
      = containment_supplier Intent (fst (entry_of d l)) (some_explicit ?es)"
    by (simp add: values_supplier_def intent chain_explicit entry_of_def)
  have inner: "pv_value P (lc_values l) d = Some (entry_value (entry_of d l))"
    using value_defined [OF d, of "lc_values l"] by (auto simp: entry_of_def)
  have outer: "pv_value P (lc_values ?rest) d = Some (spec_value ?es)"
    using Cons base by (intro chain_value [OF _ _ d intent]) auto
  have effective: "pv_value P (pv_contained_by P (lc_values l) (lc_values ?rest)) d
      = Some (spec_value (entry_of d l # ?es))"
    using chain_value [of "l # ls" base, OF _ base d intent] Cons(2) unfolding eq by simp
  have "all_comparable k (map entry_value (entry_of d l # ?es))"
    using Cons(3) by (simp add: all_comparable_def entry_of_def)
  note step = spec_sources_Cons [OF _ this IH]
  have "located_sources l d = entry_layers (entry_of d l)"
    by (simp add: entry_of_def)
  then show ?case
    unfolding eq sources_contained [OF d] sup inner outer effective using step by simp
qed

lemma two_layer_value:
  assumes "wf (lc_values inner)" "wf (lc_values outer)" "d \<in> set (pv_dimensions P)"
  shows "pv_value P (lc_values (located_contained_by P inner outer)) d =
           Some (supplier_choose
             (values_supplier (pv_explicit P (lc_values inner)) (pv_explicit P (lc_values outer)) d)
             (the (pv_value P (lc_values inner) d)) (the (pv_value P (lc_values outer) d)) narrow_value)"
  using assms by (simp add: value_contained)

lemma diagnostics_iff:
  "pd \<in> set (located_diagnostics P effective layer local) \<longleftrightarrow>
     (\<exists>d v w. d \<in> set (pv_dimensions P) \<and> dset_contains (pv_explicit P local) d
        \<and> pv_value P local d = Some v \<and> pv_value P (lc_values effective) d = Some w \<and> v \<noteq> w
        \<and> pd = \<lparr>pd_layer = layer, pd_dimension = d, pd_configured = v, pd_effective = w,
                pd_sources = located_sources effective d\<rparr>)"
  unfolding located_diagnostics_def set_map_filter
  by (fastforce simp: diagnostic_changed_def split: option.splits if_splits)

end

section \<open>Route budgets meet the contract\<close>

lemma yielded_contains:
  "(dset_contains (fst (yielded dims inner outer)) d \<longleftrightarrow>
      d \<in> set dims \<and> values_supplier inner outer d = Outer) \<and>
   (dset_contains (snd (yielded dims inner outer)) d \<longleftrightarrow>
      d \<in> set dims \<and> values_supplier inner outer d = Inner)"
proof -
  define step where "step = (\<lambda>d (inner_yields, outer_yields).
             case values_supplier inner outer d of
               Outer \<Rightarrow> (dset_with inner_yields d, outer_yields)
             | Inner \<Rightarrow> (inner_yields, dset_with outer_yields d)
             | Narrower \<Rightarrow> (inner_yields, outer_yields))"
  have "(dset_contains (fst (fold step dims acc)) d \<longleftrightarrow> dset_contains (fst acc) d \<or>
           d \<in> set dims \<and> values_supplier inner outer d = Outer) \<and>
        (dset_contains (snd (fold step dims acc)) d \<longleftrightarrow> dset_contains (snd acc) d \<or>
           d \<in> set dims \<and> values_supplier inner outer d = Inner)" for acc
    by (induction dims arbitrary: acc) (auto simp: step_def split_def split: supplier.split)
  then show ?thesis
    unfolding yielded_def step_def [symmetric] by simp
qed

lemma transfer_without_fields:
  "transfer_without b ds [x, y, z] =
     \<lparr>tb_max_bytes = (if dset_contains ds x then None else tb_max_bytes b),
      tb_idle = (if dset_contains ds y then None else tb_idle b),
      tb_total = (if dset_contains ds z then None else tb_total b)\<rparr>"
  by simp

lemma budgets_without_fields:
  "budgets_without b ds =
     \<lparr>rb_request =
        \<lparr>rq_body_idle = (if dset_contains ds RequestBodyIdle then None else rq_body_idle (rb_request b)),
         rq_total = (if dset_contains ds RequestTotal then None else rq_total (rb_request b))\<rparr>,
      rb_upload = transfer_without (rb_upload b) ds dimensions_upload,
      rb_download = transfer_without (rb_download b) ds dimensions_download,
      rb_explicit = rb_explicit b\<rparr>"
  by (simp add: budgets_without_def Let_def)

lemma set_dimensions_route:
  "set dimensions_route =
     {RequestBodyIdle, RequestTotal, UploadMaxBytes, UploadIdle, UploadTotal, DownloadMaxBytes,
      DownloadIdle, DownloadTotal}"
  by (simp add: dimensions_route_def)

lemma narrow_by_supplier:
  "narrow (if s = Outer then None else x) (if s = Inner then None else y)
     = supplier_choose s x y narrow"
  by (cases s) simp_all

lemma choose_duration:
  "supplier_choose s (DurationValue x) (DurationValue y) narrow_value
     = DurationValue (supplier_choose s x y narrow)"
  by (cases s) simp_all

lemma choose_bytes:
  "supplier_choose s (BytesValue x) (BytesValue y) narrow_value
     = BytesValue (supplier_choose s x y narrow)"
  by (cases s) simp_all

text \<open>
  Dropping the yielded dimensions and narrowing what is left is the same as choosing each
  dimension by its supplier.
\<close>

lemma budgets_contained_value:
  assumes "d \<in> set dimensions_route"
  shows "budgets_value (budgets_contained_by inner outer) d =
           Some (supplier_choose (values_supplier (rb_explicit inner) (rb_explicit outer) d)
             (the (budgets_value inner d)) (the (budgets_value outer d)) narrow_value)"
proof -
  obtain iy oy where y: "yielded dimensions_route (rb_explicit inner) (rb_explicit outer) = (iy, oy)"
    by fastforce
  have iy: "dset_contains iy e \<longleftrightarrow>
      e \<in> set dimensions_route \<and> values_supplier (rb_explicit inner) (rb_explicit outer) e = Outer"
    and oy: "dset_contains oy e \<longleftrightarrow>
      e \<in> set dimensions_route \<and> values_supplier (rb_explicit inner) (rb_explicit outer) e = Inner"
    for e
    using yielded_contains [of dimensions_route "rb_explicit inner" "rb_explicit outer" e]
    unfolding y by simp_all
  show ?thesis
    by (cases d)
      (use assms in \<open>simp_all add: budgets_contained_by_def y budgets_without_fields request_narrowed_by_def
        transfer_narrowed_by_def dimensions_download_def
        transfer_without_fields iy oy set_dimensions_route narrow_by_supplier choose_duration
        choose_bytes del: transfer_without.simps\<close>)
qed

lemma budgets_contained_explicit:
  "dset_contains (rb_explicit (budgets_contained_by inner outer)) d \<longleftrightarrow>
     dset_contains (rb_explicit inner) d \<or> dset_contains (rb_explicit outer) d"
  by (simp add: budgets_contained_by_def split_def Let_def budgets_without_fields)

lemma budgets_value_defined: "d \<in> set dimensions_route \<Longrightarrow> \<exists>x. budgets_value b d = Some x"
  by (cases d) (simp_all add: dimensions_route_def)

lemmas route_budgets_values_simps [simp] =
  route_budgets_values_def [THEN arg_cong, of pv_dimensions, simplified]
  route_budgets_values_def [THEN arg_cong, of pv_explicit, simplified]
  route_budgets_values_def [THEN arg_cong, of pv_value, simplified]
  route_budgets_values_def [THEN arg_cong, of pv_contained_by, simplified]

interpretation rbv: layered_policy route_budgets_values "\<lambda>_. True"
  by unfold_locales
    (simp_all add: budgets_value_defined budgets_contained_value budgets_contained_explicit)

lemma budgets_kind:
  "d \<in> set dimensions_route \<Longrightarrow>
     all_comparable (the (budgets_value b d)) (map (\<lambda>l. the (budgets_value (lc_values l) d)) ls)"
  by (cases d) (auto simp: all_comparable_def dimensions_route_def)

lemma route_containment: "d \<in> set dimensions_route \<Longrightarrow> dimension_containment d = Intent"
  by (auto simp: dimensions_route_def)

definition budget_entry :: "policy_dimension \<Rightarrow> route_budgets located \<Rightarrow> layer_entry" where
  "budget_entry d l =
     (dset_contains (rb_explicit (lc_values l)) d, the (budgets_value (lc_values l) d),
      located_sources l d)"

lemma budget_entry_rbv: "rbv.entry_of d = budget_entry d"
  by (rule ext) (simp add: rbv.entry_of_def budget_entry_def)

text \<open>A chain of located budgets, innermost first, under a base layer.\<close>

definition resolve_layers :: "route_budgets located list \<Rightarrow> route_budgets located \<Rightarrow> route_budgets located" where
  "resolve_layers ls base = foldr (located_contained_by route_budgets_values) ls base"

lemma resolve_layers_chain: "resolve_layers = rbv.chain"
  by (intro ext) (simp add: resolve_layers_def rbv.chain_def)

text \<open>C12: Resolving any chain of located route budgets edge by edge gives, for every route
  dimension, the narrowest explicit value of the chain, or the narrowest value when no layer was
  explicit, and names as its sources exactly the layers that are tied at that value.\<close>

theorem budgets_chain_refines_spec:
  assumes "d \<in> set dimensions_route"
  shows "budgets_value (lc_values (resolve_layers ls base)) d
           = Some (spec_value (map (budget_entry d) (ls @ [base])))
         \<and> layers_set (located_sources (resolve_layers ls base) d)
           = spec_sources (map (budget_entry d) (ls @ [base]))"
  using rbv.chain_value [where ls = ls and base = base and d = d] assms route_containment [OF assms]
    rbv.chain_sources
      [where ls = ls and base = base and d = d and k = "the (budgets_value (lc_values base) d)"]
    budgets_kind [OF assms, of "lc_values base" "ls @ [base]"]
  unfolding resolve_layers_chain budget_entry_rbv by simp

theorem budgets_chain_refines_spec_witness:
  "RequestTotal \<in> set dimensions_route \<and>
   budgets_value (lc_values (resolve_layers
      [budgets_located (budgets_with_request (request_from_constants 5 9) route_budgets_default) RouterLayer]
      (budgets_located (budgets_with_request (request_from_constants 7 4) route_budgets_default) HostLayer)))
     RequestTotal = Some (DurationValue (Some 4))"
proof -
  have d: "RequestTotal \<in> set dimensions_route"
    by (simp add: dimensions_route_def)
  show ?thesis
    using d budgets_chain_refines_spec [OF d, of
        "[budgets_located (budgets_with_request (request_from_constants 5 9) route_budgets_default) RouterLayer]"
        "budgets_located (budgets_with_request (request_from_constants 7 4) route_budgets_default) HostLayer"]
    by (simp add: spec_value_def considered_def some_explicit_def budget_entry_def budgets_located_def
        budgets_with_request_def request_from_constants_def route_budgets_default_def
        route_budgets_new_def dset_defs )
qed

end
