(* ===== verification/Server_Policy.thy ===== *)
theory Server_Policy
  imports Policy_Resolution
begin

text \<open>
  The operating envelope of one server, from \<open>http/server_policy.rs\<close>, its resolution
  under the runtime's policy and the report of it, from \<open>http/policy_report.rs\<close>. The
  argument \<open>profiling\<close> says whether the build has that feature. The largest number of permits a Tokio semaphore holds
  is a parameter.
\<close>

section \<open>The envelope\<close>

abbreviation default_header_timeout :: duration where "default_header_timeout \<equiv> from_secs 60"
abbreviation default_shutdown_timeout :: duration where "default_shutdown_timeout \<equiv> from_secs 30"
abbreviation default_request_timeout :: duration where "default_request_timeout \<equiv> from_secs 30"
abbreviation default_request_body_hard_cap :: usize where
  "default_request_body_hard_cap \<equiv> 256 * 1024 * 1024"
abbreviation default_profiling_response_limit :: usize where
  "default_profiling_response_limit \<equiv> 8 * 1024 * 1024"
abbreviation test_header_timeout :: duration where
  "test_header_timeout \<equiv> from_millis 100"

abbreviation test_shutdown_timeout :: duration where
  "test_shutdown_timeout \<equiv> from_secs 1"

record server_policy =
  sp_header_timeout :: duration
  sp_request :: request_budget
  sp_upload :: transfer_budget
  sp_download :: transfer_budget
  sp_shutdown_timeout :: duration
  sp_profiling_response :: "usize option"
  sp_connection_limit :: "usize option"
  sp_health_route :: health_route
  sp_request_body_hard_cap :: usize
  sp_explicit :: dimension_set

definition server_policy_of :: "duration \<Rightarrow> duration \<Rightarrow> server_policy" where
  "server_policy_of header shutdown =
     \<lparr>sp_header_timeout = header,
      sp_request = request_from_constants default_request_timeout default_request_timeout,
      sp_upload = transfer_unbounded, sp_download = transfer_unbounded,
      sp_shutdown_timeout = shutdown,
      sp_profiling_response = Some default_profiling_response_limit,
      sp_connection_limit = None, sp_health_route = HealthDefault,
      sp_request_body_hard_cap = default_request_body_hard_cap, sp_explicit = dset_empty\<rparr>"

abbreviation server_policy_test_bounds :: server_policy where
  "server_policy_test_bounds \<equiv> server_policy_of test_header_timeout test_shutdown_timeout"

abbreviation server_policy_default :: server_policy where
  "server_policy_default \<equiv> server_policy_of default_header_timeout default_shutdown_timeout"

definition set_explicit :: "policy_dimension \<Rightarrow> server_policy \<Rightarrow> server_policy" where
  "set_explicit d p = p\<lparr>sp_explicit := dset_with (sp_explicit p) d\<rparr>"

definition sp_set_header_timeout :: "duration \<Rightarrow> server_policy \<Rightarrow> runtime_error + server_policy" where
  "sp_set_header_timeout timeout p =
     (case finite_duration timeout ''header_timeout'' of
        Inl e \<Rightarrow> Inl e
      | Inr t \<Rightarrow> Inr (set_explicit HeaderTimeout (p\<lparr>sp_header_timeout := t\<rparr>)))"

definition sp_set_request_budget :: "request_budget \<Rightarrow> server_policy \<Rightarrow> server_policy" where
  "sp_set_request_budget budget p =
     p\<lparr>sp_request := budget, sp_explicit := dset_union (sp_explicit p) dset_request\<rparr>"

definition sp_set_request_body_hard_cap :: "usize \<Rightarrow> server_policy \<Rightarrow> runtime_error + server_policy" where
  "sp_set_request_body_hard_cap bytes p =
     (case positive_limit bytes ''request_body_hard_cap'' of
        Inl e \<Rightarrow> Inl e
      | Inr b \<Rightarrow> Inr (set_explicit RequestBodyHardCap (p\<lparr>sp_request_body_hard_cap := b\<rparr>)))"

definition sp_set_upload_budget :: "transfer_budget \<Rightarrow> server_policy \<Rightarrow> server_policy" where
  "sp_set_upload_budget budget p =
     p\<lparr>sp_upload := budget, sp_explicit := dset_union (sp_explicit p) dset_upload\<rparr>"

definition sp_set_download_budget :: "transfer_budget \<Rightarrow> server_policy \<Rightarrow> server_policy" where
  "sp_set_download_budget budget p =
     p\<lparr>sp_download := budget, sp_explicit := dset_union (sp_explicit p) dset_download\<rparr>"

definition sp_set_shutdown_timeout :: "duration \<Rightarrow> server_policy \<Rightarrow> runtime_error + server_policy" where
  "sp_set_shutdown_timeout timeout p =
     (case finite_duration timeout ''shutdown_timeout'' of
        Inl e \<Rightarrow> Inl e
      | Inr t \<Rightarrow> Inr (set_explicit ShutdownTimeout (p\<lparr>sp_shutdown_timeout := t\<rparr>)))"

definition sp_set_connection_limit ::
  "usize \<Rightarrow> usize \<Rightarrow> server_policy \<Rightarrow> runtime_error + server_policy"
where
  "sp_set_connection_limit max_permits limit p =
     (case limit_within limit max_permits ''connection_limit'' of
        Inl e \<Rightarrow> Inl e
      | Inr n \<Rightarrow> Inr (set_explicit ConnectionLimit (p\<lparr>sp_connection_limit := Some n\<rparr>)))"

definition sp_set_profiling_response_limit :: "usize \<Rightarrow> server_policy \<Rightarrow> runtime_error + server_policy" where
  "sp_set_profiling_response_limit max_bytes p =
     (case positive_limit max_bytes ''profiling_response_limit'' of
        Inl e \<Rightarrow> Inl e
      | Inr n \<Rightarrow> Inr (set_explicit ProfilingResponseLimit (p\<lparr>sp_profiling_response := Some n\<rparr>)))"

definition sp_unbounded_profiling_response :: "server_policy \<Rightarrow> server_policy" where
  "sp_unbounded_profiling_response p =
     set_explicit ProfilingResponseLimit (p\<lparr>sp_profiling_response := None\<rparr>)"

definition sp_set_health_route :: "health_route \<Rightarrow> server_policy \<Rightarrow> runtime_error + server_policy" where
  "sp_set_health_route route p =
     (case health_validated route of
        Inl e \<Rightarrow> Inl e
      | Inr r \<Rightarrow> Inr (set_explicit HealthRouteDimension (p\<lparr>sp_health_route := r\<rparr>)))"

section \<open>Containment under the runtime's policy\<close>

definition sp_route_budgets :: "server_policy \<Rightarrow> route_budgets" where
  "sp_route_budgets p =
     route_budgets_new (sp_request p) (sp_upload p) (sp_download p)
       (dset_intersection (sp_explicit p) dset_route)"

definition sp_located :: "bool \<Rightarrow> server_policy \<Rightarrow> policy_layer \<Rightarrow> server_policy located" where
  "sp_located profiling p layer =
     \<lparr>lc_values = p,
      lc_sources = sources_collect (dimensions_server profiling)
        (\<lambda>d. layers_one layer (\<not> dset_contains (sp_explicit p) d))\<rparr>"

definition sp_value :: "bool \<Rightarrow> server_policy \<Rightarrow> policy_dimension \<Rightarrow> policy_value option" where
  "sp_value profiling p d =
     (case d of
        HeaderTimeout \<Rightarrow> Some (DurationValue (Some (sp_header_timeout p)))
      | ShutdownTimeout \<Rightarrow> Some (DurationValue (Some (sp_shutdown_timeout p)))
      | ConnectionLimit \<Rightarrow> Some (BytesValue (sp_connection_limit p))
      | HealthRouteDimension \<Rightarrow> Some (HealthValue (sp_health_route p))
      | ProfilingResponseLimit \<Rightarrow>
          (if profiling then Some (BytesValue (sp_profiling_response p)) else None)
      | RequestBodyHardCap \<Rightarrow> Some (BytesValue (Some (sp_request_body_hard_cap p)))
      | RequestBodyLimit \<Rightarrow> None
      | _ \<Rightarrow> budgets_value (sp_route_budgets p) d)"

definition sp_contained_by :: "server_policy \<Rightarrow> server_policy \<Rightarrow> server_policy" where
  "sp_contained_by self outer =
     (let budgets = budgets_contained_by (sp_route_budgets self) (sp_route_budgets outer);
          supplier = values_supplier (sp_explicit self) (sp_explicit outer)
      in \<lparr>sp_header_timeout =
            supplier_choose (supplier HeaderTimeout) (sp_header_timeout self) (sp_header_timeout outer) min,
          sp_request = rb_request budgets,
          sp_upload = rb_upload budgets,
          sp_download = rb_download budgets,
          sp_shutdown_timeout =
            supplier_choose (supplier ShutdownTimeout) (sp_shutdown_timeout self)
              (sp_shutdown_timeout outer) min,
          sp_profiling_response =
            supplier_choose (supplier ProfilingResponseLimit) (sp_profiling_response self)
              (sp_profiling_response outer) narrow,
          sp_connection_limit =
            supplier_choose (supplier ConnectionLimit) (sp_connection_limit self)
              (sp_connection_limit outer) narrow,
          sp_health_route = health_narrowed_by (sp_health_route self) (sp_health_route outer),
          sp_request_body_hard_cap =
            supplier_choose (supplier RequestBodyHardCap) (sp_request_body_hard_cap self)
              (sp_request_body_hard_cap outer) min,
          sp_explicit = dset_union (sp_explicit self) (sp_explicit outer)\<rparr>)"

definition server_policy_values :: "bool \<Rightarrow> server_policy policy_values" where
  "server_policy_values profiling =
     \<lparr>pv_dimensions = dimensions_server profiling, pv_explicit = sp_explicit,
      pv_value = sp_value profiling, pv_contained_by = sp_contained_by\<rparr>"

abbreviation frozen_profiling_response_limit :: "server_policy \<Rightarrow> usize option" where
  "frozen_profiling_response_limit p \<equiv> sp_profiling_response p"

section \<open>The effective policy\<close>

record effective_server_policy =
  es_policy :: "server_policy located"
  es_runtime_shutdown :: "duration option"
  es_local_shutdown :: duration

definition effective_resolve ::
  "bool \<Rightarrow> server_policy \<Rightarrow> server_policy option \<Rightarrow> effective_server_policy"
where
  "effective_resolve profiling local outer =
     (let located = sp_located profiling local ServerLayer
      in \<lparr>es_policy =
            (case outer of
               Some out \<Rightarrow>
                 located_contained_by (server_policy_values profiling) located
                   (sp_located profiling out RuntimeLayer)
             | None \<Rightarrow> located),
          es_runtime_shutdown = map_option sp_shutdown_timeout outer,
          es_local_shutdown = sp_shutdown_timeout local\<rparr>)"

definition es_route_budgets :: "effective_server_policy \<Rightarrow> route_budgets located" where
  "es_route_budgets e =
     \<lparr>lc_values = sp_route_budgets (lc_values (es_policy e)),
      lc_sources = sources_collect dimensions_route (located_sources (es_policy e))\<rparr>"

definition es_diagnostics ::
  "bool \<Rightarrow> effective_server_policy \<Rightarrow> server_policy \<Rightarrow> policy_diagnostic list"
where
  "es_diagnostics profiling e local =
     located_diagnostics (server_policy_values profiling) (es_policy e) ServerLayer local"

abbreviation es_bound :: "effective_server_policy \<Rightarrow> 'v \<Rightarrow> policy_dimension \<Rightarrow> 'v policy_bound" where
  "es_bound e v d \<equiv> \<lparr>pb_value = v, pb_sources = located_sources (es_policy e) d\<rparr>"

definition es_request_body_hard_cap :: "effective_server_policy \<Rightarrow> usize policy_bound" where
  "es_request_body_hard_cap e =
     es_bound e (sp_request_body_hard_cap (lc_values (es_policy e))) RequestBodyHardCap"

abbreviation es_header_timeout :: "effective_server_policy \<Rightarrow> duration policy_bound" where
  "es_header_timeout e \<equiv> es_bound e (sp_header_timeout (lc_values (es_policy e))) HeaderTimeout"

abbreviation es_shutdown_timeout :: "effective_server_policy \<Rightarrow> duration policy_bound" where
  "es_shutdown_timeout e \<equiv> es_bound e (sp_shutdown_timeout (lc_values (es_policy e))) ShutdownTimeout"

abbreviation es_connection_limit :: "effective_server_policy \<Rightarrow> usize option policy_bound" where
  "es_connection_limit e \<equiv> es_bound e (sp_connection_limit (lc_values (es_policy e))) ConnectionLimit"

abbreviation es_health_route :: "effective_server_policy \<Rightarrow> health_route policy_bound" where
  "es_health_route e \<equiv> es_bound e (sp_health_route (lc_values (es_policy e))) HealthRouteDimension"

definition es_profiling_response_limit :: "effective_server_policy \<Rightarrow> usize option policy_bound" where
  "es_profiling_response_limit e =
     es_bound e (frozen_profiling_response_limit (lc_values (es_policy e))) ProfilingResponseLimit"

abbreviation es_same_bounds :: "bool \<Rightarrow> effective_server_policy \<Rightarrow> effective_server_policy \<Rightarrow> bool" where
  "es_same_bounds profiling a b \<equiv>
     list_all (\<lambda>d. sp_value profiling (lc_values (es_policy a)) d
                    = sp_value profiling (lc_values (es_policy b)) d) (dimensions_server profiling)
     \<and> es_runtime_shutdown a = es_runtime_shutdown b
     \<and> es_local_shutdown a = es_local_shutdown b"

section \<open>Server policies meet the contract\<close>

text \<open>A policy that never set its health route still has the default one.\<close>

definition health_default_unless_set :: "server_policy \<Rightarrow> bool" where
  "health_default_unless_set p \<longleftrightarrow>
     (\<not> dset_contains (sp_explicit p) HealthRouteDimension \<longrightarrow> sp_health_route p = HealthDefault)"

lemma health_narrowed_default [simp]: "health_narrowed_by h HealthDefault = h"
  by (cases h) simp_all

lemma health_default_narrowed [simp]: "health_narrowed_by HealthDefault h = h"
  by (cases h) simp_all

lemma choose_min:
  "Some (supplier_choose s x y min) = supplier_choose s (Some x) (Some y) narrow"
  by (cases s) simp_all

lemma choose_health:
  assumes "health_default_unless_set inner" "health_default_unless_set outer"
  shows "supplier_choose (values_supplier (sp_explicit inner) (sp_explicit outer) HealthRouteDimension)
           (HealthValue (sp_health_route inner)) (HealthValue (sp_health_route outer)) narrow_value
         = HealthValue (health_narrowed_by (sp_health_route inner) (sp_health_route outer))"
  using assms
  by (cases "dset_contains (sp_explicit inner) HealthRouteDimension";
      cases "dset_contains (sp_explicit outer) HealthRouteDimension")
    (simp_all add: values_supplier_def health_default_unless_set_def)

lemma server_route_supplier:
  "d \<in> set dimensions_route \<Longrightarrow>
     values_supplier (rb_explicit (sp_route_budgets inner)) (rb_explicit (sp_route_budgets outer)) d
     = values_supplier (sp_explicit inner) (sp_explicit outer) d"
  by (simp add: values_supplier_def sp_route_budgets_def route_budgets_new_def dset_route_def)

lemma sp_value_route:
  "d \<in> set dimensions_route \<Longrightarrow> sp_value profiling p d = budgets_value (sp_route_budgets p) d"
  by (auto simp: sp_value_def set_dimensions_route)

lemma sp_contained_route:
  "d \<in> set dimensions_route \<Longrightarrow>
     budgets_value (sp_route_budgets (sp_contained_by inner outer)) d =
       budgets_value (budgets_contained_by (sp_route_budgets inner) (sp_route_budgets outer)) d"
  by (auto simp: set_dimensions_route sp_route_budgets_def route_budgets_new_def sp_contained_by_def
      Let_def)

lemma sp_contained_value:
  assumes "health_default_unless_set inner" "health_default_unless_set outer"
    and "d \<in> set (dimensions_server profiling)"
  shows "sp_value profiling (sp_contained_by inner outer) d =
           Some (supplier_choose (values_supplier (sp_explicit inner) (sp_explicit outer) d)
             (the (sp_value profiling inner d)) (the (sp_value profiling outer d)) narrow_value)"
proof (cases "d \<in> set dimensions_route")
  case True
  then show ?thesis
    by (simp add: sp_value_route sp_contained_route budgets_contained_value server_route_supplier)
next
  case False
  with assms(3) consider "d \<in> set dimensions_server_only" | "profiling" "d = ProfilingResponseLimit"
    by (auto simp: dimensions_server_def split: if_splits)
  then show ?thesis
  proof cases
    case 1
    then show ?thesis
      using choose_health [OF assms(1,2)]
      by (auto simp: dimensions_server_only_def sp_value_def sp_contained_by_def Let_def
          choose_duration choose_bytes choose_min)
  next
    case 2
    then show ?thesis
      by (simp add: sp_value_def sp_contained_by_def Let_def choose_bytes)
  qed
qed

lemma sp_contained_explicit:
  "dset_contains (sp_explicit (sp_contained_by inner outer)) d \<longleftrightarrow>
     dset_contains (sp_explicit inner) d \<or> dset_contains (sp_explicit outer) d"
  by (simp add: sp_contained_by_def Let_def)

lemma sp_value_defined:
  assumes "d \<in> set (dimensions_server profiling)"
  shows "\<exists>x. sp_value profiling p d = Some x"
  by (cases d)
    (use assms in \<open>simp_all add: dimensions_server_def dimensions_server_only_def
        dimensions_route_def sp_value_def split: if_splits\<close>)

lemma sp_contained_health:
  "health_default_unless_set inner \<Longrightarrow> health_default_unless_set outer \<Longrightarrow>
     health_default_unless_set (sp_contained_by inner outer)"
  by (simp add: health_default_unless_set_def sp_contained_by_def Let_def)

lemmas server_policy_values_simps [simp] =
  server_policy_values_def [THEN arg_cong, of pv_dimensions, simplified]
  server_policy_values_def [THEN arg_cong, of pv_explicit, simplified]
  server_policy_values_def [THEN arg_cong, of pv_value, simplified]
  server_policy_values_def [THEN arg_cong, of pv_contained_by, simplified]

interpretation spv: layered_policy "server_policy_values profiling" health_default_unless_set
  for profiling
  by unfold_locales
    (simp_all add: sp_value_defined sp_contained_value sp_contained_explicit sp_contained_health)

end
