(* ===== verification/Policy_Validity.thy ===== *)
theory Policy_Validity
  imports Server_Policy
begin

text \<open>
  What resolving a server policy guarantees: every policy that the setters of
  \<open>http/server_policy.rs\<close> can build is valid, and the effective policy of a server inside
  a runtime is the one the containment rule of \<open>http/policy_dimension.rs\<close> documents.
\<close>

section \<open>Validity\<close>

definition valid_deadline :: "duration \<Rightarrow> bool" where
  "valid_deadline t \<longleftrightarrow> 0 < t \<and> t \<le> max_policy_deadline"

definition valid_request :: "request_budget \<Rightarrow> bool" where
  "valid_request b \<longleftrightarrow> pred_option valid_deadline (rq_body_idle b) \<and> pred_option valid_deadline (rq_total b)"

definition valid_transfer :: "transfer_budget \<Rightarrow> bool" where
  "valid_transfer b \<longleftrightarrow>
     pred_option (\<lambda>n. n \<noteq> 0) (tb_max_bytes b) \<and> pred_option valid_deadline (tb_idle b)
     \<and> pred_option valid_deadline (tb_total b)"

definition valid_health :: "health_route \<Rightarrow> bool" where
  "valid_health h \<longleftrightarrow> (case h of HealthPath p \<Rightarrow> path_defect p = None | _ \<Rightarrow> True)"

definition valid_server_policy :: "usize \<Rightarrow> server_policy \<Rightarrow> bool" where
  "valid_server_policy max_permits p \<longleftrightarrow>
     valid_deadline (sp_header_timeout p) \<and> valid_deadline (sp_shutdown_timeout p)
     \<and> valid_request (sp_request p) \<and> valid_transfer (sp_upload p) \<and> valid_transfer (sp_download p)
     \<and> sp_request_body_hard_cap p \<noteq> 0
     \<and> pred_option (\<lambda>n. n \<noteq> 0) (sp_profiling_response p)
     \<and> pred_option (\<lambda>n. n \<noteq> 0 \<and> n \<le> max_permits) (sp_connection_limit p)
     \<and> valid_health (sp_health_route p) \<and> health_default_unless_set p"

text \<open>
  What an application can build: budgets from their constructors and setters, by narrowing one by
  another, or read from a policy; and policies from the two defaults, the setters given such
  budgets, and containment.
\<close>

inductive built_policy :: "usize \<Rightarrow> server_policy \<Rightarrow> bool"
  and built_request :: "usize \<Rightarrow> request_budget \<Rightarrow> bool"
  and built_transfer :: "usize \<Rightarrow> transfer_budget \<Rightarrow> bool"
where
  policy_default: "built_policy m server_policy_default"
| policy_test: "built_policy m server_policy_test_bounds"
| policy_header: "built_policy m p \<Longrightarrow> sp_set_header_timeout t p = Inr q \<Longrightarrow> built_policy m q"
| policy_request: "built_policy m p \<Longrightarrow> built_request m b \<Longrightarrow> built_policy m (sp_set_request_budget b p)"
| policy_cap: "built_policy m p \<Longrightarrow> sp_set_request_body_hard_cap n p = Inr q \<Longrightarrow> built_policy m q"
| policy_upload: "built_policy m p \<Longrightarrow> built_transfer m c \<Longrightarrow> built_policy m (sp_set_upload_budget c p)"
| policy_download: "built_policy m p \<Longrightarrow> built_transfer m c \<Longrightarrow> built_policy m (sp_set_download_budget c p)"
| policy_shutdown: "built_policy m p \<Longrightarrow> sp_set_shutdown_timeout t p = Inr q \<Longrightarrow> built_policy m q"
| policy_connections: "built_policy m p \<Longrightarrow> sp_set_connection_limit m n p = Inr q \<Longrightarrow> built_policy m q"
| policy_profiling: "built_policy m p \<Longrightarrow> sp_set_profiling_response_limit n p = Inr q \<Longrightarrow> built_policy m q"
| policy_unbounded: "built_policy m p \<Longrightarrow> built_policy m (sp_unbounded_profiling_response p)"
| policy_health: "built_policy m p \<Longrightarrow> sp_set_health_route h p = Inr q \<Longrightarrow> built_policy m q"
| policy_contained: "built_policy m p \<Longrightarrow> built_policy m q \<Longrightarrow> built_policy m (sp_contained_by p q)"
| request_of_policy: "built_policy m p \<Longrightarrow> built_request m (sp_request p)"
| request_built: "request_bounded i t = Inr b \<Longrightarrow> built_request m b"
| request_open: "built_request m request_unbounded"
| request_idle: "built_request m b \<Longrightarrow> request_with_body_idle t b = Inr b' \<Longrightarrow> built_request m b'"
| request_no_idle: "built_request m b \<Longrightarrow> built_request m (request_without_body_idle b)"
| request_lifetime: "built_request m b \<Longrightarrow> request_with_total t b = Inr b' \<Longrightarrow> built_request m b'"
| request_no_lifetime: "built_request m b \<Longrightarrow> built_request m (request_without_total b)"
| request_narrow: "built_request m b \<Longrightarrow> built_request m b' \<Longrightarrow> built_request m (request_narrowed_by b b')"
| upload_of_policy: "built_policy m p \<Longrightarrow> built_transfer m (sp_upload p)"
| download_of_policy: "built_policy m p \<Longrightarrow> built_transfer m (sp_download p)"
| transfer_built: "transfer_bounded n i t = Inr c \<Longrightarrow> built_transfer m c"
| transfer_open: "built_transfer m transfer_unbounded"
| transfer_bytes: "built_transfer m c \<Longrightarrow> transfer_with_max_bytes n c = Inr c' \<Longrightarrow> built_transfer m c'"
| transfer_no_bytes: "built_transfer m c \<Longrightarrow> built_transfer m (transfer_without_max_bytes c)"
| transfer_quiet: "built_transfer m c \<Longrightarrow> transfer_with_idle t c = Inr c' \<Longrightarrow> built_transfer m c'"
| transfer_no_quiet: "built_transfer m c \<Longrightarrow> built_transfer m (transfer_without_idle c)"
| transfer_lifetime: "built_transfer m c \<Longrightarrow> transfer_with_total t c = Inr c' \<Longrightarrow> built_transfer m c'"
| transfer_no_lifetime: "built_transfer m c \<Longrightarrow> built_transfer m (transfer_without_total c)"
| transfer_narrow: "built_transfer m c \<Longrightarrow> built_transfer m c' \<Longrightarrow> built_transfer m (transfer_narrowed_by c c')"

lemma valid_deadline_finite: "finite_duration t name = Inr t' \<Longrightarrow> valid_deadline t'"
  by (simp add: valid_deadline_def)

lemma request_bounded_valid: "request_bounded i t = Inr b \<Longrightarrow> valid_request b"
  by (auto simp: request_bounded_def valid_request_def valid_deadline_def split: sum.splits)

lemma transfer_bounded_valid: "transfer_bounded n i t = Inr b \<Longrightarrow> valid_transfer b"
  by (auto simp: transfer_bounded_def transfer_of_def valid_transfer_def valid_deadline_def
      split: sum.splits)

lemma pred_option_narrow: "pred_option Q x \<Longrightarrow> pred_option Q y \<Longrightarrow> pred_option Q (narrow x y)"
  by (cases x; cases y) (simp_all add: min_def)

lemma pred_option_dropped: "pred_option Q x \<Longrightarrow> pred_option Q (if c then None else x)"
  by simp

lemma supplier_choose_pred:
  "Q x \<Longrightarrow> Q y \<Longrightarrow> Q (f x y) \<Longrightarrow> Q (supplier_choose s x y f)"
  by (cases s) simp_all

lemma valid_transfer_narrowed:
  "valid_transfer a \<Longrightarrow> valid_transfer b \<Longrightarrow> valid_transfer (transfer_narrowed_by a b)"
  by (simp add: valid_transfer_def transfer_narrowed_by_def pred_option_narrow)

lemma valid_request_narrowed:
  "valid_request a \<Longrightarrow> valid_request b \<Longrightarrow> valid_request (request_narrowed_by a b)"
  by (simp add: valid_request_def request_narrowed_by_def pred_option_narrow)

lemma valid_budgets_without:
  "valid_request (rb_request b) \<Longrightarrow> valid_transfer (rb_upload b) \<Longrightarrow> valid_transfer (rb_download b) \<Longrightarrow>
     valid_request (rb_request (budgets_without b ds)) \<and>
     valid_transfer (rb_upload (budgets_without b ds)) \<and>
     valid_transfer (rb_download (budgets_without b ds))"
  by (simp add: budgets_without_fields dimensions_download_def
      transfer_without_fields valid_request_def valid_transfer_def del: transfer_without.simps)

lemma valid_budgets_contained:
  assumes "valid_request (rb_request a)" "valid_transfer (rb_upload a)" "valid_transfer (rb_download a)"
    and "valid_request (rb_request b)" "valid_transfer (rb_upload b)" "valid_transfer (rb_download b)"
  shows "valid_request (rb_request (budgets_contained_by a b)) \<and>
         valid_transfer (rb_upload (budgets_contained_by a b)) \<and>
         valid_transfer (rb_download (budgets_contained_by a b))"
  using assms
  by (simp add: budgets_contained_by_def split_def Let_def valid_budgets_without
      valid_request_narrowed valid_transfer_narrowed)

lemma valid_health_narrowed:
  "valid_health a \<Longrightarrow> valid_health b \<Longrightarrow> valid_health (health_narrowed_by a b)"
  by (cases a; cases b) (simp_all add: valid_health_def)

lemma valid_contained:
  assumes "valid_server_policy m p" "valid_server_policy m q"
  shows "valid_server_policy m (sp_contained_by p q)"
proof -
  note parts = assms [unfolded valid_server_policy_def]
  have budgets: "valid_request (sp_request (sp_contained_by p q))
      \<and> valid_transfer (sp_upload (sp_contained_by p q))
      \<and> valid_transfer (sp_download (sp_contained_by p q))"
    using parts valid_budgets_contained [of "sp_route_budgets p" "sp_route_budgets q"]
    by (simp add: sp_contained_by_def Let_def sp_route_budgets_def route_budgets_new_def)
  show ?thesis
    unfolding valid_server_policy_def
  proof (intro conjI)
    show "valid_deadline (sp_header_timeout (sp_contained_by p q))"
      "valid_deadline (sp_shutdown_timeout (sp_contained_by p q))"
      "sp_request_body_hard_cap (sp_contained_by p q) \<noteq> 0"
      using parts
      by (simp_all add: sp_contained_by_def Let_def supplier_choose_pred [where Q = valid_deadline]
          supplier_choose_pred [where Q = "\<lambda>n. n \<noteq> 0"] min_def)
    show "pred_option (\<lambda>n. n \<noteq> 0) (sp_profiling_response (sp_contained_by p q))"
      "pred_option (\<lambda>n. n \<noteq> 0 \<and> n \<le> m) (sp_connection_limit (sp_contained_by p q))"
      using parts
      by (simp_all add: sp_contained_by_def Let_def supplier_choose_pred [where Q = "pred_option _"]
          pred_option_narrow)
    show "valid_health (sp_health_route (sp_contained_by p q))"
      using parts by (simp add: sp_contained_by_def Let_def valid_health_narrowed)
    show "health_default_unless_set (sp_contained_by p q)"
      using parts by (simp add: sp_contained_health)
  qed (use budgets in simp_all)
qed

lemma valid_server_policy_of:
  "valid_deadline h \<Longrightarrow> valid_deadline s \<Longrightarrow> valid_server_policy m (server_policy_of h s)"
  by (simp add: valid_server_policy_def server_policy_of_def valid_request_def valid_transfer_def
      request_from_constants_def transfer_unbounded_def transfer_of_def valid_health_def
      health_default_unless_set_def
      valid_deadline_def
      from_secs_def)

lemmas policy_setters =
  sp_set_header_timeout_def sp_set_request_budget_def sp_set_request_body_hard_cap_def
  sp_set_upload_budget_def sp_set_download_budget_def sp_set_shutdown_timeout_def
  sp_set_connection_limit_def sp_set_profiling_response_limit_def sp_unbounded_profiling_response_def

lemmas budget_setters =
  request_with_body_idle_def request_with_total_def transfer_with_max_bytes_def
  transfer_with_idle_def transfer_with_total_def transfer_unbounded_def transfer_of_def

lemma built_valid:
  "built_policy m p \<Longrightarrow> valid_server_policy m p"
  "built_request m b \<Longrightarrow> valid_request b"
  "built_transfer m c \<Longrightarrow> valid_transfer c"
proof (induction rule: built_policy_built_request_built_transfer.inducts)
  case policy_default
  then show ?case
    by (simp add: valid_server_policy_of valid_deadline_def from_secs_def)
next
  case policy_test
  then show ?case
    by (simp add: valid_server_policy_of valid_deadline_def from_secs_def from_millis_def)
next
  case policy_contained
  then show ?case by (simp add: valid_contained)
next
  case (policy_health m p h q)
  then show ?case
    by (auto simp: sp_set_health_route_def health_validated_def valid_server_policy_def
        set_explicit_def valid_health_def health_default_unless_set_def
        split: sum.splits health_route.splits option.splits)
next
  case request_built
  then show ?case by (simp add: request_bounded_valid)
next
  case transfer_built
  then show ?case by (simp add: transfer_bounded_valid)
next
  case request_narrow
  then show ?case by (simp add: valid_request_narrowed)
next
  case transfer_narrow
  then show ?case by (simp add: valid_transfer_narrowed)
qed (auto simp: valid_server_policy_def set_explicit_def health_default_unless_set_def policy_setters
    budget_setters valid_request_def valid_transfer_def valid_deadline_def dset_defs dimensions_defs
    split: sum.splits)

text \<open>C13: Every server policy an application can build is valid: its deadlines and those of its
  budgets are positive and below the thirty-year ceiling, limits are positive, the connection limit
  fits the admission semaphore, and a health path has no defect. The budgets are those the
  constructors and setters of request and transfer budgets return, narrowed or not, or those read
  from a policy.\<close>

theorem built_policy_valid: "built_policy m p \<Longrightarrow> valid_server_policy m p"
  by (rule built_valid)

theorem built_policy_valid_witness:
  "\<exists>b p. request_with_total (from_secs 7) request_unbounded = Inr b
     \<and> sp_set_header_timeout (from_secs 5) (sp_set_request_budget b server_policy_default) = Inr p
     \<and> built_policy 100 p \<and> rq_total (sp_request p) = Some (from_secs 7) \<and> valid_server_policy 100 p"
proof -
  obtain b where b: "request_with_total (from_secs 7) request_unbounded = Inr b" "rq_total b = Some (from_secs 7)"
    by (simp add: request_with_total_def finite_duration_def from_secs_def)
  obtain p where p: "sp_set_header_timeout (from_secs 5) (sp_set_request_budget b server_policy_default) = Inr p"
    "sp_request p = b"
    by (simp add: sp_set_header_timeout_def sp_set_request_budget_def set_explicit_def finite_duration_def
        from_secs_def)
  have "built_policy 100 p"
    by (rule policy_header [OF policy_request [OF policy_default request_lifetime [OF request_open b(1)]] p(1)])
  with b p built_policy_valid [OF this] show ?thesis by blast
qed

section \<open>The effective policy inside a runtime\<close>

lemma effective_resolve_contained:
  "es_policy (effective_resolve profiling local (Some outer)) =
     located_contained_by (server_policy_values profiling)
       (sp_located profiling local ServerLayer) (sp_located profiling outer RuntimeLayer)"
  by (simp add: effective_resolve_def Let_def)

lemma sp_located_sources:
  "d \<in> set (dimensions_server profiling) \<Longrightarrow>
     layers_set (located_sources (sp_located profiling p layer) d) =
       {(layer, \<not> dset_contains (sp_explicit p) d)}"
  by (simp add: sp_located_def)

lemma supplied_sources_honest:
  assumes "(layer, defaulted) \<in> layers_set (supplied_sources s (vi, si) (vo, so)
             (supplier_choose s vi vo f))"
    and "f vi vo = vi \<or> f vi vo = vo"
  shows "(layer, defaulted) \<in> layers_set si \<and> vi = supplier_choose s vi vo f
       \<or> (layer, defaulted) \<in> layers_set so \<and> vo = supplier_choose s vi vo f"
  using assms by (cases s) (auto simp: supplied_sources_def split: if_splits)

lemma narrow_value_selects: "narrow_value a b = a \<or> narrow_value a b = b"
proof -
  have "health_narrowed_by x y = x \<or> health_narrowed_by x y = y" for x y
    by (cases x; cases y) simp_all
  then show ?thesis
    by (cases a; cases b) (simp_all add: narrow_cases)
qed

text \<open>C14: Inside a runtime every dimension of a server's policy resolves by the documented rule:
  a value only one side set explicitly stands, except that the runtime's shutdown deadline always
  bounds the server's; otherwise the narrower of the two applies. The sources named for the
  effective value are layers that hold exactly that value, and say truly whether it was their
  default.\<close>

theorem effective_policy_resolution:
  assumes "health_default_unless_set local" "health_default_unless_set outer"
    and d: "d \<in> set (dimensions_server profiling)"
  shows "sp_value profiling (lc_values (es_policy (effective_resolve profiling local (Some outer)))) d =
           Some (if dset_contains (sp_explicit outer) d \<and> \<not> dset_contains (sp_explicit local) d
                 then the (sp_value profiling outer d)
                 else if dset_contains (sp_explicit local) d \<and> \<not> dset_contains (sp_explicit outer) d
                           \<and> d \<noteq> ShutdownTimeout
                 then the (sp_value profiling local d)
                 else narrow_value (the (sp_value profiling local d)) (the (sp_value profiling outer d)))
     \<and> (\<forall>layer defaulted.
          (layer, defaulted) \<in> layers_set
             (located_sources (es_policy (effective_resolve profiling local (Some outer))) d) \<longrightarrow>
          (\<exists>p. (layer = ServerLayer \<and> p = local \<or> layer = RuntimeLayer \<and> p = outer)
             \<and> defaulted = (\<not> dset_contains (sp_explicit p) d)
             \<and> sp_value profiling p d = sp_value profiling
                 (lc_values (es_policy (effective_resolve profiling local (Some outer)))) d))"
    (is "?resolved \<and> ?sources")
proof
  let ?s = "values_supplier (sp_explicit local) (sp_explicit outer) d"
  let ?l = "the (sp_value profiling local d)" and ?o = "the (sp_value profiling outer d)"
  have vl: "sp_value profiling local d = Some ?l" and vo: "sp_value profiling outer d = Some ?o"
    using sp_value_defined [OF d, of local] sp_value_defined [OF d, of outer] by auto
  have eff: "sp_value profiling (sp_contained_by local outer) d
      = Some (supplier_choose ?s ?l ?o narrow_value)"
    by (rule sp_contained_value [OF assms])
  have vals: "lc_values (es_policy (effective_resolve profiling local (Some outer)))
      = sp_contained_by local outer"
    by (simp add: effective_resolve_contained located_contained_by_def Let_def sp_located_def)
  have "dimension_containment d = Hard \<longleftrightarrow> d = ShutdownTimeout"
    by (cases d) simp_all
  then show ?resolved
    unfolding vals eff
    by (cases "dset_contains (sp_explicit local) d"; cases "dset_contains (sp_explicit outer) d";
        cases "dimension_containment d")
      (simp_all add: values_supplier_def)
  have src: "located_sources (es_policy (effective_resolve profiling local (Some outer))) d
      = supplied_sources ?s
          (Some ?l, located_sources (sp_located profiling local ServerLayer) d)
          (Some ?o, located_sources (sp_located profiling outer RuntimeLayer) d)
          (Some (supplier_choose ?s ?l ?o narrow_value))"
    using d eff vl vo
    by (simp add: effective_resolve_contained spv.sources_contained sp_located_def)
  have lift: "Some (supplier_choose ?s ?l ?o narrow_value)
      = supplier_choose ?s (Some ?l) (Some ?o) (\<lambda>a b. Some (narrow_value (the a) (the b)))"
    by (cases ?s) simp_all
  show ?sources
  proof (intro allI impI)
    fix layer defaulted
    assume "(layer, defaulted) \<in> layers_set
      (located_sources (es_policy (effective_resolve profiling local (Some outer))) d)"
    from supplied_sources_honest [OF this [unfolded src lift]]
    show "\<exists>p. (layer = ServerLayer \<and> p = local \<or> layer = RuntimeLayer \<and> p = outer)
             \<and> defaulted = (\<not> dset_contains (sp_explicit p) d)
             \<and> sp_value profiling p d = sp_value profiling
                 (lc_values (es_policy (effective_resolve profiling local (Some outer)))) d"
      using narrow_value_selects [of ?l ?o] vl vo
      unfolding vals eff lift sp_located_sources [OF d] by auto
  qed
qed

theorem effective_policy_resolution_witness:
  "ShutdownTimeout \<in> set (dimensions_server True)
   \<and> sp_value True (lc_values (es_policy (effective_resolve True
       (set_explicit ShutdownTimeout (server_policy_of 60 90))
       (Some (server_policy_of 60 30))))) ShutdownTimeout = Some (DurationValue (Some 30))"
proof -
  have d: "ShutdownTimeout \<in> set (dimensions_server True)"
    by (simp add: dimensions_server_def dimensions_server_only_def)
  have wf: "health_default_unless_set (set_explicit ShutdownTimeout (server_policy_of 60 90))"
    "health_default_unless_set (server_policy_of 60 30)"
    by (simp_all add: health_default_unless_set_def server_policy_of_def set_explicit_def)
  from effective_policy_resolution [OF wf d] d show ?thesis
    by (simp add: server_policy_of_def set_explicit_def sp_value_def)
qed

end
