(* ===== verification/Rejection.thy ===== *)
theory Rejection
  imports Policy_Budgets Http_Method
begin

text \<open>
  The refusals of \<open>http/rejection.rs\<close>: request identifiers, the closed set of rejection
  kinds, a refusal with its diagnostic, its disposition of the transport, the header its status
  obliges and the bound it crossed, and the classification of the errors producers return. The
  failures of a forwarded request are those of \<open>http/async_proxy.rs\<close>. How a scope answers
  a refusal is in the theory of rejection scopes.
\<close>

unbundle bit_operations_syntax

section \<open>Request identifiers\<close>

abbreviation request_id_digits :: nat where
  "request_id_digits \<equiv> 32"

definition hex_digits :: string where
  "hex_digits = ''0123456789abcdef''"

type_synonym u128 = "128 word"

definition render_hex :: "u128 \<Rightarrow> string" where
  "render_hex v =
     map (\<lambda>position. hex_digits ! unat (drop_bit (position * 4) v AND 0xf))
       (rev [0..<request_id_digits])"

text \<open>The process nonce is drawn once; the counter is an atomic that wraps.\<close>

record id_source =
  id_nonce :: u64
  id_counter :: u64

definition request_id_generate :: "id_source \<Rightarrow> string \<times> id_source" where
  "request_id_generate s =
     (let nonce = push_bit 64 (ucast (id_nonce s) :: u128);
          counter = ucast (id_counter s) :: u128
      in (render_hex (nonce OR counter), s\<lparr>id_counter := id_counter s + 1\<rparr>))"

section \<open>Rejections\<close>

datatype rejection_kind =
    KindRouting | KindMethodSelection | KindBodyLimit | KindBodyAdmission | KindTurnAdmission
  | KindBodyUnreadable | KindBodyTimeout | KindRequestTimeout | KindMalformedBody
  | KindMultipart | KindInvalidHeader | KindApplication | KindMiddleware
  | KindWebSocketHandshake | KindProxy | KindInternalService

definition rejection_kind_all :: "rejection_kind list" where
  "rejection_kind_all =
     [KindRouting, KindMethodSelection, KindBodyLimit, KindBodyAdmission, KindTurnAdmission,
      KindBodyUnreadable, KindBodyTimeout, KindRequestTimeout, KindMalformedBody, KindMultipart,
      KindInvalidHeader, KindApplication, KindMiddleware, KindWebSocketHandshake, KindProxy,
      KindInternalService]"

fun rejection_kind_label :: "rejection_kind \<Rightarrow> string" where
  "rejection_kind_label KindRouting = ''routing''"
| "rejection_kind_label KindMethodSelection = ''method_selection''"
| "rejection_kind_label KindBodyLimit = ''body_limit''"
| "rejection_kind_label KindBodyAdmission = ''body_admission''"
| "rejection_kind_label KindTurnAdmission = ''turn_admission''"
| "rejection_kind_label KindBodyUnreadable = ''body_unreadable''"
| "rejection_kind_label KindBodyTimeout = ''body_timeout''"
| "rejection_kind_label KindRequestTimeout = ''request_timeout''"
| "rejection_kind_label KindMalformedBody = ''malformed_body''"
| "rejection_kind_label KindMultipart = ''multipart''"
| "rejection_kind_label KindInvalidHeader = ''invalid_header''"
| "rejection_kind_label KindApplication = ''application''"
| "rejection_kind_label KindMiddleware = ''middleware''"
| "rejection_kind_label KindWebSocketHandshake = ''websocket_handshake''"
| "rejection_kind_label KindProxy = ''proxy''"
| "rejection_kind_label KindInternalService = ''internal_service''"

type_synonym header_pair = "string \<times> string"

record rejection =
  rj_kind :: rejection_kind
  rj_status :: u16
  rj_message :: string
  rj_headers :: "header_pair list"
  rj_turn :: "turn_refused option"

definition validate_status :: "u16 \<Rightarrow> runtime_error + unit" where
  "validate_status status =
     (if 100 \<le> status \<and> status \<le> 599 then Inr ()
      else Inl (InvalidArgument (''invalid HTTP status code: '' @ show_nat (unat status))))"

definition rejection_raw :: "rejection_kind \<Rightarrow> u16 \<Rightarrow> string \<Rightarrow> rejection" where
  "rejection_raw kind status message =
     \<lparr>rj_kind = kind, rj_status = status, rj_message = message, rj_headers = [], rj_turn = None\<rparr>"

definition rejection_new :: "rejection_kind \<Rightarrow> u16 \<Rightarrow> string \<Rightarrow> runtime_error + rejection" where
  "rejection_new kind status message =
     (case validate_status status of
        Inl e \<Rightarrow> Inl e
      | Inr _ \<Rightarrow> Inr (rejection_raw kind status message))"

abbreviation internal_error_body :: string where "internal_error_body \<equiv> ''internal server error''"
abbreviation service_unavailable_body :: string where "service_unavailable_body \<equiv> ''service unavailable''"
abbreviation unparseable_body :: string where "unparseable_body \<equiv> ''malformed request body''"
abbreviation invalid_multipart_body :: string where "invalid_multipart_body \<equiv> ''invalid multipart body''"
abbreviation body_too_large_body :: string where "body_too_large_body \<equiv> ''request body too large''"
abbreviation body_unreadable_body :: string where "body_unreadable_body \<equiv> ''request body could not be read''"
abbreviation bad_gateway_body :: string where "bad_gateway_body \<equiv> ''bad gateway''"
abbreviation gateway_timeout_body :: string where "gateway_timeout_body \<equiv> ''gateway timeout''"

abbreviation rejection_service_unavailable :: "rejection_kind \<Rightarrow> rejection" where
  "rejection_service_unavailable kind \<equiv> rejection_raw kind 503 service_unavailable_body"

definition redacted_fault :: "rejection_kind \<Rightarrow> rejection" where
  "redacted_fault kind = rejection_raw kind 500 internal_error_body"

abbreviation rejection_body_limit :: rejection where
  "rejection_body_limit \<equiv> rejection_raw KindBodyLimit 413 body_too_large_body"

abbreviation rejection_body_unreadable :: rejection where
  "rejection_body_unreadable \<equiv> rejection_raw KindBodyUnreadable 400 body_unreadable_body"

abbreviation rejection_pushing :: "header_pair \<Rightarrow> rejection \<Rightarrow> rejection" where
  "rejection_pushing header r \<equiv> r\<lparr>rj_headers := rj_headers r @ [header]\<rparr>"

abbreviation rejection_with_header :: "string \<Rightarrow> string \<Rightarrow> rejection \<Rightarrow> rejection" where
  "rejection_with_header name val r \<equiv> rejection_pushing (name, val) r"

abbreviation with_turn_refusal :: "turn_refused \<Rightarrow> rejection \<Rightarrow> rejection" where
  "with_turn_refusal refusal r \<equiv> r\<lparr>rj_turn := Some refusal\<rparr>"

section \<open>Protocols and the context of a refusal\<close>

datatype rejection_protocol =
    ProtoOrdinaryHttp | ProtoStreamingHttp | ProtoServerSentEvents | ProtoWebSocket
  | ProtoGrpc | ProtoProxy

definition rejection_protocol_all :: "rejection_protocol list" where
  "rejection_protocol_all =
     [ProtoOrdinaryHttp, ProtoStreamingHttp, ProtoServerSentEvents, ProtoWebSocket, ProtoGrpc,
      ProtoProxy]"

abbreviation unclassified_protocol :: string where
  "unclassified_protocol \<equiv> ''unclassified''"

fun protocol_label :: "rejection_protocol \<Rightarrow> string" where
  "protocol_label ProtoOrdinaryHttp = ''ordinary_http''"
| "protocol_label ProtoStreamingHttp = ''streaming_http''"
| "protocol_label ProtoServerSentEvents = ''server_sent_events''"
| "protocol_label ProtoWebSocket = ''websocket''"
| "protocol_label ProtoGrpc = ''grpc''"
| "protocol_label ProtoProxy = ''proxy''"

definition protocol_vocabulary :: "string list" where
  "protocol_vocabulary = map protocol_label rejection_protocol_all @ [unclassified_protocol]"

record negotiated_metadata =
  nm_protocol :: rejection_protocol
  nm_content_type :: "string option"
  nm_subprotocol :: "string option"

definition negotiated_new :: "rejection_protocol \<Rightarrow> negotiated_metadata" where
  "negotiated_new protocol =
     \<lparr>nm_protocol = protocol, nm_content_type = None, nm_subprotocol = None\<rparr>"

datatype ip_addr = V4 u32 | V6 u128

record rejection_context =
  rc_request_id :: string
  rc_method :: string
  rc_raw_path :: string
  rc_remote_addr :: "ip_addr option"
  rc_route :: "string option"
  rc_negotiated :: "negotiated_metadata option"

definition context_new :: "string \<Rightarrow> string \<Rightarrow> string \<Rightarrow> rejection_context" where
  "context_new rid meth path =
     \<lparr>rc_request_id = rid, rc_method = meth, rc_raw_path = path, rc_remote_addr = None,
      rc_route = None, rc_negotiated = None\<rparr>"

section \<open>Failures of a forwarded request\<close>

datatype proxy_phase = PhaseConnect | PhaseRequest | PhaseUpstreamIdle | PhaseUpload | PhaseDownload

fun proxy_phase_label :: "proxy_phase \<Rightarrow> string" where
  "proxy_phase_label PhaseConnect = ''connect''"
| "proxy_phase_label PhaseRequest = ''request''"
| "proxy_phase_label PhaseUpstreamIdle = ''upstream idle''"
| "proxy_phase_label PhaseUpload = ''upload''"
| "proxy_phase_label PhaseDownload = ''download''"

record phase_failure =
  pf_phase :: proxy_phase
  pf_cause :: runtime_error

fun names_its_bound :: "runtime_error \<Rightarrow> bool" where
  "names_its_bound (DeadlineExceeded _) = True"
| "names_its_bound (LimitExceeded _) = True"
| "names_its_bound _ = False"

abbreviation display_phase_failure :: "phase_failure \<Rightarrow> string" where
  "display_phase_failure f \<equiv>
     (if names_its_bound (pf_cause f) then display_error (pf_cause f)
      else ''proxy '' @ proxy_phase_label (pf_phase f) @ '' failed: '' @ display_error (pf_cause f))"

text \<open>A deadline that was crossed, with the bound that was configured for it.\<close>

record crossed_deadline =
  cd_cause :: runtime_error
  cd_configured :: duration

abbreviation crossed_deadline_new :: "deadline_boundary \<Rightarrow> duration \<Rightarrow> crossed_deadline" where
  "crossed_deadline_new boundary configured \<equiv>
     \<lparr>cd_cause = DeadlineExceeded boundary, cd_configured = configured\<rparr>"

text \<open>
  What a refusal keeps for the log: a fixed or formatted detail, an error of Camber's own, or an
  error another library reported, as the text it displays.
\<close>

datatype diagnostic =
    DetailDiagnostic string
  | ErrorDiagnostic runtime_error
  | IntegrationDiagnostic integration_error
  | DeadlineDiagnostic crossed_deadline
  | PhaseDiagnostic phase_failure
  | LibraryDiagnostic string

datatype proxy_failure =
    UnbuildableTarget string
  | Unsendable diagnostic
  | PhaseFailed phase_failure

abbreviation proxy_failure_expired :: "proxy_phase \<Rightarrow> deadline_boundary \<Rightarrow> proxy_failure" where
  "proxy_failure_expired phase boundary \<equiv>
     PhaseFailed \<lparr>pf_phase = phase, pf_cause = DeadlineExceeded boundary\<rparr>"

fun expired_cause :: "runtime_error \<Rightarrow> bool" where
  "expired_cause Timeout = True"
| "expired_cause (DeadlineExceeded _) = True"
| "expired_cause _ = False"

fun expired_upstream :: "proxy_failure \<Rightarrow> bool" where
  "expired_upstream (PhaseFailed f) = expired_cause (pf_cause f)"
| "expired_upstream (UnbuildableTarget _) = False"
| "expired_upstream (Unsendable _) = False"

abbreviation proxy_failure_status :: "proxy_failure \<Rightarrow> u16 \<times> string" where
  "proxy_failure_status failure \<equiv>
     (if expired_upstream failure then (504, gateway_timeout_body) else (502, bad_gateway_body))"

section \<open>Refusals\<close>

datatype disposition = Reusable | CloseTransport

record protected_header =
  ph_status :: u16
  ph_name :: string
  ph_value :: string

record rejected =
  rd_rejection :: rejection
  rd_diagnostic :: diagnostic
  rd_disposition :: disposition
  rd_protected :: "protected_header option"
  rd_crossed :: crossed_bound

definition rejected_plain :: "rejection \<Rightarrow> diagnostic \<Rightarrow> rejected" where
  "rejected_plain rejection diagnostic =
     \<lparr>rd_rejection = rejection, rd_diagnostic = diagnostic, rd_disposition = Reusable,
      rd_protected = None, rd_crossed = NoBoundCrossed\<rparr>"

abbreviation rejected_over :: "crossed_bound \<Rightarrow> rejected \<Rightarrow> rejected" where
  "rejected_over crossed r \<equiv> r\<lparr>rd_crossed := crossed\<rparr>"

abbreviation forcing_close :: "rejected \<Rightarrow> rejected" where
  "forcing_close r \<equiv> r\<lparr>rd_disposition := CloseTransport\<rparr>"

definition protecting :: "string \<Rightarrow> string \<Rightarrow> rejected \<Rightarrow> rejected" where
  "protecting name val r =
     r\<lparr>rd_protected := Some \<lparr>ph_status = rj_status (rd_rejection r), ph_name = name, ph_value = val\<rparr>\<rparr>"

definition rejected_decided :: "rejection \<Rightarrow> string \<Rightarrow> rejected" where
  "rejected_decided rejection detail = rejected_plain rejection (DetailDiagnostic detail)"

abbreviation rejected_closing :: "rejection \<Rightarrow> string \<Rightarrow> rejected" where
  "rejected_closing rejection detail \<equiv> forcing_close (rejected_decided rejection detail)"

abbreviation rejected_plain_closing :: "rejection \<Rightarrow> diagnostic \<Rightarrow> rejected" where
  "rejected_plain_closing rejection diagnostic \<equiv> forcing_close (rejected_plain rejection diagnostic)"

definition rejected_declared :: "rejection_kind \<Rightarrow> string \<Rightarrow> rejected" where
  "rejected_declared kind message =
     rejected_decided (rejection_raw kind 400 message)
       (''the producer declared this message client-safe: '' @ message)"

definition rejected_unavailable :: "runtime_error \<Rightarrow> rejected" where
  "rejected_unavailable e =
     rejected_plain (rejection_service_unavailable KindInternalService) (ErrorDiagnostic e)"

definition rejected_faulted :: "rejection_kind \<Rightarrow> diagnostic \<Rightarrow> rejected" where
  "rejected_faulted kind diagnostic = rejected_plain (redacted_fault kind) diagnostic"

definition rejected_unparseable :: "rejection_kind \<Rightarrow> string \<Rightarrow> runtime_error \<Rightarrow> rejected" where
  "rejected_unparseable kind safe e = rejected_plain (rejection_raw kind 400 safe) (ErrorDiagnostic e)"

abbreviation rejected_unrepresentable :: "string \<Rightarrow> rejected" where
  "rejected_unrepresentable e \<equiv> rejected_faulted KindInvalidHeader (LibraryDiagnostic e)"

definition body_too_large :: "usize \<Rightarrow> rejected" where
  "body_too_large limit =
     rejected_over (CrossedBytes BytesRequestBody)
       (rejected_closing rejection_body_limit
          (''body exceeds the '' @ show_usize limit @ ''-byte limit''))"

definition body_limit_crossed :: "runtime_error \<Rightarrow> rejected" where
  "body_limit_crossed e =
     rejected_over (CrossedBytes BytesRequestBody)
       (rejected_plain_closing rejection_body_limit (ErrorDiagnostic e))"

abbreviation body_read_failed :: "runtime_error \<Rightarrow> rejected" where
  "body_read_failed e \<equiv> rejected_plain_closing rejection_body_unreadable (ErrorDiagnostic e)"

abbreviation multipart_misdispatched :: rejected where
  "multipart_misdispatched \<equiv>
     rejected_decided (redacted_fault KindInternalService)
       ''a streaming multipart route reached buffered dispatch''"

abbreviation streaming_proxy_misdispatched :: rejected where
  "streaming_proxy_misdispatched \<equiv>
     rejected_decided (redacted_fault KindInternalService)
       ''a streaming proxy route reached buffered dispatch''"

definition rejected_undecodable_transfer_coding :: "string \<Rightarrow> rejected" where
  "rejected_undecodable_transfer_coding coding =
     rejected_closing (rejection_raw KindMalformedBody 400 unparseable_body)
       (''transfer coding '' @ coding @ '' cannot be decoded'')"

definition body_admission_refused :: "runtime_error \<Rightarrow> rejected" where
  "body_admission_refused e =
     rejected_plain_closing (rejection_service_unavailable KindBodyAdmission) (ErrorDiagnostic e)"

text \<open>A panic payload is the text it carries, when it carries one.\<close>

definition panic_to_error :: "string option \<Rightarrow> runtime_error" where
  "panic_to_error payload =
     TaskPanicked (case payload of Some text \<Rightarrow> text | None \<Rightarrow> ''unknown panic'')"

definition body_admission_panicked :: "string option \<Rightarrow> rejected" where
  "body_admission_panicked payload =
     forcing_close (rejected_faulted KindInternalService (ErrorDiagnostic (panic_to_error payload)))"

abbreviation body_unreadable :: "string \<Rightarrow> rejected" where
  "body_unreadable e \<equiv> rejected_plain_closing rejection_body_unreadable (LibraryDiagnostic e)"

definition transfer_too_large :: "byte_boundary \<Rightarrow> usize \<Rightarrow> rejected" where
  "transfer_too_large boundary limit =
     rejected_over (CrossedBytes boundary)
       (rejected_closing rejection_body_limit
          (byte_label boundary @ '' exceeds the '' @ show_usize limit @ ''-byte maximum''))"

definition rejected_crossed_deadline :: "rejection \<Rightarrow> deadline_boundary \<Rightarrow> duration \<Rightarrow> rejected" where
  "rejected_crossed_deadline rejection boundary configured =
     rejected_over (CrossedDeadline boundary)
       (rejected_plain_closing rejection
          (DeadlineDiagnostic (crossed_deadline_new boundary configured)))"

definition transfer_timeout :: "deadline_boundary \<Rightarrow> duration \<Rightarrow> rejected" where
  "transfer_timeout boundary configured =
     rejected_crossed_deadline (rejection_raw KindBodyTimeout 408 ''request body timed out'')
       boundary configured"

abbreviation transfer_source_failed :: "string \<Rightarrow> rejected" where
  "transfer_source_failed account \<equiv> body_read_failed (RequestBodyUnreadable account)"

definition body_timeout :: "duration \<Rightarrow> rejected" where
  "body_timeout idle =
     rejected_crossed_deadline (rejection_raw KindBodyTimeout 408 ''request body timed out'')
       BoundRequestBodyIdle idle"

definition request_timeout :: "duration \<Rightarrow> rejected" where
  "request_timeout limit =
     rejected_crossed_deadline (rejection_raw KindRequestTimeout 408 ''request timed out'')
       BoundRequestTotal limit"

abbreviation rejected_not_found :: "string \<Rightarrow> rejected" where
  "rejected_not_found detail \<equiv>
     rejected_decided (rejection_raw KindRouting 404 ''not found'') detail"

abbreviation no_route :: rejected where
  "no_route \<equiv> rejected_not_found ''no route claims this path''"

abbreviation invalid_host :: "string \<Rightarrow> rejected" where
  "invalid_host received \<equiv>
     rejected_closing (rejection_raw KindRouting 400 ''invalid host header'')
       (''unparseable Host value '' @ debug_str received)"

abbreviation uri_too_deep :: "usize \<Rightarrow> rejected" where
  "uri_too_deep limit \<equiv>
     rejected_decided (rejection_raw KindRouting 414 ''URI path too deep'')
       (''path exceeds the '' @ show_usize limit @ ''-segment match limit'')"

definition allow_header :: string where "allow_header = ''Allow''"
definition ws_version_header :: string where "ws_version_header = ''Sec-WebSocket-Version''"
definition ws_version :: string where "ws_version = ''13''"

definition method_not_allowed :: "string \<Rightarrow> string \<Rightarrow> rejected" where
  "method_not_allowed received allow =
     protecting allow_header allow
       (rejected_decided
          (rejection_with_header allow_header allow
             (rejection_raw KindMethodSelection 405 ''method not allowed''))
          (''received '' @ received @ '', frozen allowed set is '' @ allow))"

definition ws_bad_handshake :: rejected where
  "ws_bad_handshake =
     rejected_decided
       (rejection_raw KindWebSocketHandshake 400 ''invalid WebSocket upgrade headers'')
       ''handshake method, version, key, or subprotocol syntax is not acceptable''"

definition ws_unsupported_version :: rejected where
  "ws_unsupported_version =
     protecting ws_version_header ws_version
       (rejected_decided
          (rejection_with_header ws_version_header ws_version
             (rejection_raw KindWebSocketHandshake 426 ''unsupported WebSocket version''))
          (''handshake requested a version other than '' @ ws_version))"

definition ws_origin_rejected :: "string \<Rightarrow> rejected" where
  "ws_origin_rejected detail =
     rejected_decided (rejection_raw KindWebSocketHandshake 403 ''WebSocket origin rejected'') detail"

abbreviation uncommitted_upgrade :: "rejection \<Rightarrow> diagnostic \<Rightarrow> rejected" where
  "uncommitted_upgrade rejection diagnostic \<equiv> rejected_plain_closing rejection diagnostic"

definition ws_upgrade_unbuildable :: "string \<Rightarrow> rejected" where
  "ws_upgrade_unbuildable e =
     uncommitted_upgrade (redacted_fault KindInternalService) (LibraryDiagnostic e)"

definition upgrade_registration_refused :: rejected where
  "upgrade_registration_refused =
     uncommitted_upgrade (rejection_service_unavailable KindInternalService)
       (DetailDiagnostic ''the connection refused to own this upgrade'')"

definition upgrade_registration_unavailable :: rejected where
  "upgrade_registration_unavailable =
     uncommitted_upgrade (redacted_fault KindInternalService)
       (DetailDiagnostic ''no connection could take ownership of this upgrade'')"

definition from_proxy_failure :: "proxy_failure \<Rightarrow> rejected" where
  "from_proxy_failure failure =
     (let (status, safe) = proxy_failure_status failure;
          rejection = rejection_raw KindProxy status safe
      in case failure of
           UnbuildableTarget detail \<Rightarrow> rejected_decided rejection detail
         | Unsendable diagnostic \<Rightarrow> rejected_plain rejection diagnostic
         | PhaseFailed f \<Rightarrow> rejected_plain rejection (PhaseDiagnostic f))"

abbreviation no_admissible_backend :: rejected where
  "no_admissible_backend \<equiv>
     rejected_decided (rejection_service_unavailable KindProxy)
       ''every backend for this route is failing its health check''"

abbreviation gate_unrunnable :: rejected where
  "gate_unrunnable \<equiv>
     rejected_decided (redacted_fault KindInternalService)
       ''a dispatch class owing a middleware gate resolved no router to run it''"

section \<open>Classifying what producers return\<close>

record producer_kinds =
  pk_declared :: rejection_kind
  pk_faulted :: rejection_kind

abbreviation handler_kinds :: producer_kinds where
  "handler_kinds \<equiv> \<lparr>pk_declared = KindApplication, pk_faulted = KindInternalService\<rparr>"

abbreviation middleware_kinds :: producer_kinds where
  "middleware_kinds \<equiv> \<lparr>pk_declared = KindMiddleware, pk_faulted = KindMiddleware\<rparr>"

abbreviation multipart_session_kinds :: producer_kinds where
  "multipart_session_kinds \<equiv> \<lparr>pk_declared = KindMultipart, pk_faulted = KindInternalService\<rparr>"

definition classify :: "runtime_error \<Rightarrow> producer_kinds \<Rightarrow> rejected" where
  "classify e kinds =
     (case e of
        BadRequest message \<Rightarrow> rejected_declared (pk_declared kinds) message
      | ScopeClosed \<Rightarrow> rejected_unavailable ScopeClosed
      | Turn refusal \<Rightarrow>
          rejected_plain (with_turn_refusal refusal (rejection_service_unavailable KindTurnAdmission))
            (ErrorDiagnostic e)
      | MalformedBody _ \<Rightarrow> rejected_unparseable KindMalformedBody unparseable_body e
      | MultipartInvalid _ \<Rightarrow> rejected_unparseable KindMultipart invalid_multipart_body e
      | RequestBodyLimitExceeded _ \<Rightarrow> body_limit_crossed e
      | RequestBodyUnreadable _ \<Rightarrow> body_read_failed e
      | Integration failure \<Rightarrow> rejected_faulted KindInternalService (IntegrationDiagnostic failure)
      | Client _ \<Rightarrow> rejected_faulted KindInternalService (ErrorDiagnostic e)
      | _ \<Rightarrow> rejected_faulted (pk_faulted kinds) (ErrorDiagnostic e))"

section \<open>Identifiers are unique\<close>

lemma hex_digits_inject:
  "i < 16 \<Longrightarrow> j < 16 \<Longrightarrow> hex_digits ! i = hex_digits ! j \<longleftrightarrow> i = j"
  by (rule nth_eq_iff_index_eq) (simp_all add: hex_digits_def)

lemma nibble_less: "unat (drop_bit n (v :: u128) AND 0xf) < 16"
proof -
  have "drop_bit n v AND 0xf \<le> 0xf"
    by (rule word_and_le1)
  then have "unat (drop_bit n v AND 0xf) \<le> unat (0xf :: u128)"
    by (simp add: word_le_nat_alt)
  then show ?thesis by simp
qed

lemma bit_nibble: "bit (drop_bit (k div 4 * 4) (v :: u128) AND 0xf) (k mod 4) \<longleftrightarrow> bit v k"
proof -
  have "bit (0xf :: u128) (k mod 4)"
  proof -
    have eq: "(0xf :: u128) = mask 4" by (simp add: mask_eq_exp_minus_1)
    have "k mod 4 < 4" by simp
    then show ?thesis unfolding eq bit_mask_iff by (auto intro: less_trans)
  qed
  then show ?thesis
    by (simp add: bit_and_iff bit_drop_bit_eq div_mult_mod_eq)
qed

lemma render_hex_inject [simp]: "render_hex a = render_hex b \<longleftrightarrow> a = b"
proof
  assume eq: "render_hex a = render_hex b"
  have nib: "drop_bit (p * 4) a AND 0xf = drop_bit (p * 4) b AND 0xf" if "p < 32" for p
  proof -
    have "p \<in> set (rev [0..<request_id_digits])"
      using that by simp
    then have "hex_digits ! unat (drop_bit (p * 4) a AND 0xf) = hex_digits ! unat (drop_bit (p * 4) b AND 0xf)"
      using eq unfolding render_hex_def by (simp only: map_eq_conv)
    then have "unat (drop_bit (p * 4) a AND 0xf) = unat (drop_bit (p * 4) b AND 0xf)"
      by (simp only: hex_digits_inject [OF nibble_less nibble_less])
    then show ?thesis unfolding word_unat_eq_iff .
  qed
  show "a = b"
  proof (rule bit_word_eqI)
    fix k assume "k < LENGTH(128)"
    then have "k div 4 < 32" by simp
    then show "bit a k \<longleftrightarrow> bit b k"
      using nib bit_nibble [of k a] bit_nibble [of k b] by simp
  qed
qed simp

lemma length_render_hex [simp]: "length (render_hex v) = 32"
  by (simp add: render_hex_def)

text \<open>The identifiers of \<open>n\<close> requests admitted one after another.\<close>

fun generate_ids :: "nat \<Rightarrow> id_source \<Rightarrow> string list" where
  "generate_ids 0 s = []"
| "generate_ids (Suc n) s =
     (let (rid, s') = request_id_generate s in rid # generate_ids n s')"

lemma generate_ids_map:
  "generate_ids n s =
     map (\<lambda>i. render_hex (push_bit 64 (ucast (id_nonce s)) OR ucast (id_counter s + of_nat i))) [0..<n]"
proof (induction n arbitrary: s)
  case (Suc n)
  have "[0..<Suc n] = 0 # map Suc [0..<n]"
    by (simp only: map_Suc_upt upt_conv_Cons zero_less_Suc)
  then show ?case
    using Suc by (simp add: request_id_generate_def Let_def comp_def add.assoc)
qed simp

lemma nonce_counter_inject:
  fixes c d :: u64
  assumes "push_bit 64 (ucast x :: u128) OR ucast c = push_bit 64 (ucast x) OR ucast d"
  shows "c = d"
proof (rule bit_word_eqI)
  fix k assume k: "k < LENGTH(64)"
  have "bit (push_bit 64 (ucast x :: u128) OR ucast c) k = bit (push_bit 64 (ucast x :: u128) OR ucast d) k"
    by (simp only: assms)
  then show "bit c k \<longleftrightarrow> bit d k"
    using k by (simp add: bit_or_iff bit_push_bit_iff bit_ucast_iff)
qed

text \<open>C15: The identifiers of up to two to the sixty-four requests of one process are pairwise
  different, whatever the process nonce and wherever the counter started, and each is
  thirty-two digits long.\<close>

theorem request_ids_distinct:
  assumes "n \<le> 2 ^ 64"
  shows "distinct (generate_ids n s) \<and> (\<forall>rid \<in> set (generate_ids n s). length rid = 32)"
proof
  have "inj_on (\<lambda>i. id_counter s + (of_nat i :: u64)) {0..<n}"
  proof (rule inj_onI)
    fix i j assume "i \<in> {0..<n}" "j \<in> {0..<n}"
      and "id_counter s + (of_nat i :: u64) = id_counter s + of_nat j"
    then have "unat (of_nat i :: u64) = unat (of_nat j :: u64)" "i < 2 ^ 64" "j < 2 ^ 64"
      using assms by auto
    then show "i = j"
      by (simp add: unat_of_nat)
  qed
  then show "distinct (generate_ids n s)"
    unfolding generate_ids_map distinct_map
    by (auto simp: inj_on_def dest: nonce_counter_inject)
  show "\<forall>rid \<in> set (generate_ids n s). length rid = 32"
    by (simp add: generate_ids_map)
qed

theorem request_ids_distinct_witness:
  "distinct (generate_ids 3 \<lparr>id_nonce = 7, id_counter = 18446744073709551615\<rparr>)"
  using request_ids_distinct [of 3 "\<lparr>id_nonce = 7, id_counter = 18446744073709551615\<rparr>"] by simp

end
