(* ===== verification/Http_Response.thy ===== *)
theory Http_Response
  imports Rejection
begin

text \<open>
  The response of \<open>http/response.rs\<close>: its status, body, headers and provenance, the
  builders, the header operations that rejection handling relies on, and the conversion to the
  wire. Building the wire response is the job of the \<open>http\<close> crate; the record
  \<open>http_lib\<close> holds the two questions the code asks of it.
\<close>

section \<open>Responses\<close>

datatype body_store = TextBody string | RawBody string | EmptyBody

record mapped_refusal =
  mr_rejected :: rejected
  mr_context :: rejection_context
  mr_mapped_status :: u16
  mr_recorded :: bool

datatype response_provenance = ProvApplication | ProvMapped mapped_refusal | ProvGate

fun is_gate_passthrough :: "response_provenance \<Rightarrow> bool" where
  "is_gate_passthrough ProvGate = True"
| "is_gate_passthrough ProvApplication = False"
| "is_gate_passthrough (ProvMapped _) = False"

fun is_mapped :: "response_provenance \<Rightarrow> bool" where
  "is_mapped (ProvMapped _) = True"
| "is_mapped ProvApplication = False"
| "is_mapped ProvGate = False"

fun into_refusal :: "response_provenance \<Rightarrow> mapped_refusal option" where
  "into_refusal (ProvMapped refusal) = Some refusal"
| "into_refusal ProvApplication = None"
| "into_refusal ProvGate = None"

fun provenance_label :: "response_provenance \<Rightarrow> string" where
  "provenance_label ProvApplication = ''application''"
| "provenance_label (ProvMapped _) = ''mapped''"
| "provenance_label ProvGate = ''gate''"

record response =
  rs_status :: u16
  rs_body :: body_store
  rs_headers :: "header_pair list"
  rs_provenance :: response_provenance

abbreviation content_type_header :: string where
  "content_type_header \<equiv> ''Content-Type''"

definition response_new :: "u16 \<Rightarrow> string \<Rightarrow> header_pair list \<Rightarrow> response" where
  "response_new status body headers =
     \<lparr>rs_status = status, rs_body = RawBody body, rs_headers = headers,
      rs_provenance = ProvApplication\<rparr>"

definition build_text :: "u16 \<Rightarrow> string \<Rightarrow> response" where
  "build_text status body =
     \<lparr>rs_status = status, rs_body = TextBody body,
      rs_headers = [(''Content-Type'', ''text/plain'')], rs_provenance = ProvApplication\<rparr>"

definition build_empty :: "u16 \<Rightarrow> response" where
  "build_empty status =
     \<lparr>rs_status = status, rs_body = EmptyBody, rs_headers = [], rs_provenance = ProvApplication\<rparr>"

definition build_bytes :: "u16 \<Rightarrow> string \<Rightarrow> response" where
  "build_bytes status data =
     \<lparr>rs_status = status, rs_body = RawBody data,
      rs_headers = [(''Content-Type'', ''application/octet-stream''),
                    (''X-Content-Type-Options'', ''nosniff'')],
      rs_provenance = ProvApplication\<rparr>"

abbreviation response_text :: "u16 \<Rightarrow> string \<Rightarrow> runtime_error + response" where
  "response_text status body \<equiv>
     (case validate_status status of Inl e \<Rightarrow> Inl e | Inr _ \<Rightarrow> Inr (build_text status body))"

abbreviation response_empty :: "u16 \<Rightarrow> runtime_error + response" where
  "response_empty status \<equiv>
     (case validate_status status of Inl e \<Rightarrow> Inl e | Inr _ \<Rightarrow> Inr (build_empty status))"

abbreviation response_bytes :: "u16 \<Rightarrow> string \<Rightarrow> runtime_error + response" where
  "response_bytes status data \<equiv>
     (case validate_status status of Inl e \<Rightarrow> Inl e | Inr _ \<Rightarrow> Inr (build_bytes status data))"

text \<open>The serialised value is what the JSON library answered: its failure text or its bytes.\<close>

definition response_json :: "u16 \<Rightarrow> string + string \<Rightarrow> runtime_error + response" where
  "response_json status serialized =
     (case validate_status status of
        Inl e \<Rightarrow> Inl e
      | Inr _ \<Rightarrow>
          (case serialized of
             Inl e \<Rightarrow> Inl (InvalidArgument (''json serialization failed: '' @ e))
           | Inr body \<Rightarrow>
               Inr \<lparr>rs_status = status, rs_body = RawBody body,
                    rs_headers = [(''Content-Type'', ''application/json'')],
                    rs_provenance = ProvApplication\<rparr>))"

definition with_pair :: "string \<Rightarrow> string \<Rightarrow> response \<Rightarrow> response" where
  "with_pair name val r = r\<lparr>rs_headers := rs_headers r @ [(name, val)]\<rparr>"

definition without_header :: "string \<Rightarrow> response \<Rightarrow> response" where
  "without_header name r =
     r\<lparr>rs_headers := filter (\<lambda>(key, _). \<not> eq_ignore_ascii_case key name) (rs_headers r)\<rparr>"

definition without_headers :: "string list \<Rightarrow> response \<Rightarrow> response" where
  "without_headers names r =
     r\<lparr>rs_headers :=
         filter (\<lambda>(key, _). \<not> list_ex (eq_ignore_ascii_case key) names) (rs_headers r)\<rparr>"

definition with_replaced_header :: "string \<Rightarrow> string \<Rightarrow> response \<Rightarrow> response" where
  "with_replaced_header name val r = with_pair name val (without_header name r)"

abbreviation response_with_content_type :: "string \<Rightarrow> response \<Rightarrow> response" where
  "response_with_content_type content_type r \<equiv>
     with_replaced_header content_type_header content_type r"

definition strip_body :: "response \<Rightarrow> response" where
  "strip_body r = r\<lparr>rs_body := EmptyBody\<rparr>"

definition mark_mapped :: "mapped_refusal \<Rightarrow> response \<Rightarrow> response" where
  "mark_mapped refusal r = r\<lparr>rs_provenance := ProvMapped refusal\<rparr>"

abbreviation mark_gate :: "response \<Rightarrow> response" where
  "mark_gate r \<equiv> r\<lparr>rs_provenance := ProvGate\<rparr>"

fun wire_bytes :: "body_store \<Rightarrow> string" where
  "wire_bytes (TextBody text) = text"
| "wire_bytes (RawBody bytes) = bytes"
| "wire_bytes EmptyBody = []"

section \<open>The wire\<close>

text \<open>
  \<open>hl_refuses status headers\<close> is the error the response builder reports for that status
  and those headers, or \<open>None\<close> when it builds them; \<open>hl_value_ok\<close> says whether a text
  is a header value.
\<close>

record http_lib =
  hl_refuses :: "u16 \<Rightarrow> header_pair list \<Rightarrow> string option"
  hl_value_ok :: "string \<Rightarrow> bool"

record wire_response =
  wr_status :: u16
  wr_headers :: "header_pair list"
  wr_body :: string

record unrepresentable_response =
  ur_error :: string
  ur_content_type :: "string option"

definition representable_content_type :: "http_lib \<Rightarrow> header_pair list \<Rightarrow> string option" where
  "representable_content_type lib headers =
     (case find (\<lambda>(name, _). eq_ignore_ascii_case name content_type_header) headers of
        None \<Rightarrow> None
      | Some (_, val) \<Rightarrow> if hl_value_ok lib val then Some val else None)"

definition into_wire ::
  "http_lib \<Rightarrow> response \<Rightarrow> response_provenance \<times> (unrepresentable_response + wire_response)"
where
  "into_wire lib r =
     (rs_provenance r,
      case hl_refuses lib (rs_status r) (rs_headers r) of
        None \<Rightarrow>
          Inr \<lparr>wr_status = rs_status r, wr_headers = rs_headers r, wr_body = wire_bytes (rs_body r)\<rparr>
      | Some e \<Rightarrow>
          Inl \<lparr>ur_error = e, ur_content_type = representable_content_type lib (rs_headers r)\<rparr>)"

section \<open>Headers by name\<close>

text \<open>The values a response carries under a name, in any ASCII case.\<close>

definition header_values :: "string \<Rightarrow> response \<Rightarrow> string list" where
  "header_values name r =
     map snd (filter (\<lambda>(key, _). eq_ignore_ascii_case key name) (rs_headers r))"

lemma eq_ignore_refl [simp]: "eq_ignore_ascii_case s s"
  by (simp add: eq_ignore_ascii_case_def)

lemma eq_ignore_sym: "eq_ignore_ascii_case a b \<longleftrightarrow> eq_ignore_ascii_case b a"
  by (auto simp: eq_ignore_ascii_case_def)

lemma header_values_with_pair [simp]:
  "header_values name (with_pair key val r) =
     header_values name r @ (if eq_ignore_ascii_case key name then [val] else [])"
  by (simp add: header_values_def with_pair_def)

lemma header_values_replaced [simp]: "header_values name (with_replaced_header name val r) = [val]"
  by (simp add: with_replaced_header_def)
    (auto simp: header_values_def without_header_def filter_empty_conv)

lemma header_values_without_headers [simp]:
  "name \<in> set names \<Longrightarrow> header_values name (without_headers names r) = []"
  by (auto simp: header_values_def without_headers_def filter_empty_conv list_ex_iff)

lemma header_status_frame [simp]:
  "rs_status (with_pair k v r) = rs_status r"
  "rs_status (without_header k r) = rs_status r"
  "rs_status (without_headers ks r) = rs_status r"
  "rs_status (with_replaced_header k v r) = rs_status r"
  "rs_status (mark_mapped m r) = rs_status r"
  by (simp_all add: with_pair_def without_header_def without_headers_def with_replaced_header_def
      mark_mapped_def)

end
