(* ===== verification/Rate_Limit.thy ===== *)
theory Rate_Limit
  imports Http_Response
begin

text \<open>
  The lock-free token bucket of \<open>http/rate_limit.rs\<close>, as a machine of atomic steps. Each
  thread inside \<open>try_acquire\<close> is at one of the loads and compare-exchanges of the code; a
  step performs that one access and nothing else, and a weak compare-exchange may fail although
  the value matched. Threads interleave in any order. The two atomics are each read and written in
  one total order, which is what their acquire and release orderings give for a single location,
  and a thread's token update follows its own timestamp update. Counters are natural numbers with
  the saturation at the largest \<open>u64\<close> written out.
\<close>

section \<open>The bucket\<close>

definition u64_max :: nat where
  "u64_max = 2 ^ 64 - 1"

definition saturating_add :: "nat \<Rightarrow> nat \<Rightarrow> nat" where
  "saturating_add a b = min (a + b) u64_max"

definition saturating_mul :: "nat \<Rightarrow> nat \<Rightarrow> nat" where
  "saturating_mul a b = min (a * b) u64_max"

record token_bucket =
  tb_tokens :: nat
  tb_last_refill_ns :: nat
  tb_rate :: nat
  tb_burst :: nat
  tb_interval_ns :: nat

definition bucket_new :: "nat \<Rightarrow> nat \<Rightarrow> nat \<Rightarrow> nat \<Rightarrow> token_bucket" where
  "bucket_new now rate interval_ns burst =
     \<lparr>tb_tokens = burst, tb_last_refill_ns = now, tb_rate = rate, tb_burst = burst,
      tb_interval_ns = interval_ns\<rparr>"

section \<open>Steps of one acquisition\<close>

datatype acquire_pc =
    RefillLoad nat
  | RefillExchange nat nat nat
  | AddLoad nat
  | AddExchange nat nat
  | AcquireLoad
  | AcquireExchange nat
  | Answered bool

text \<open>The argument \<open>spurious\<close> says that a weak compare-exchange fails without a cause.\<close>

fun refill_step :: "bool \<Rightarrow> token_bucket \<Rightarrow> acquire_pc \<Rightarrow> token_bucket \<times> acquire_pc" where
  "refill_step spurious b (RefillLoad now) =
     (let prior = tb_last_refill_ns b;
          elapsed = now - prior;
          intervals = elapsed div tb_interval_ns b
      in (b, if intervals = 0 then AcquireLoad else RefillExchange now prior intervals))"
| "refill_step spurious b (RefillExchange now prior intervals) =
     (let advanced = saturating_mul intervals (tb_interval_ns b);
          new_last = saturating_add prior advanced
      in if tb_last_refill_ns b = prior \<and> \<not> spurious
         then (b\<lparr>tb_last_refill_ns := new_last\<rparr>, AddLoad (saturating_mul intervals (tb_rate b)))
         else (b, RefillLoad now))"
| "refill_step spurious b pc = (b, pc)"

fun add_tokens_step :: "bool \<Rightarrow> token_bucket \<Rightarrow> acquire_pc \<Rightarrow> token_bucket \<times> acquire_pc" where
  "add_tokens_step spurious b (AddLoad add) = (b, AddExchange add (tb_tokens b))"
| "add_tokens_step spurious b (AddExchange add current) =
     (let new = min (saturating_add current add) (tb_burst b)
      in if tb_tokens b = current \<and> \<not> spurious
         then (b\<lparr>tb_tokens := new\<rparr>, AcquireLoad)
         else (b, AddLoad add))"
| "add_tokens_step spurious b pc = (b, pc)"

fun try_acquire_step :: "bool \<Rightarrow> token_bucket \<Rightarrow> acquire_pc \<Rightarrow> token_bucket \<times> acquire_pc" where
  "try_acquire_step spurious b AcquireLoad =
     (b, if tb_tokens b = 0 then Answered False else AcquireExchange (tb_tokens b))"
| "try_acquire_step spurious b (AcquireExchange current) =
     (if tb_tokens b = current \<and> \<not> spurious
      then (b\<lparr>tb_tokens := current - 1\<rparr>, Answered True)
      else (b, AcquireLoad))"
| "try_acquire_step spurious b (Answered granted) = (b, Answered granted)"
| "try_acquire_step spurious b (AddLoad add) = add_tokens_step spurious b (AddLoad add)"
| "try_acquire_step spurious b (AddExchange add current) =
     add_tokens_step spurious b (AddExchange add current)"
| "try_acquire_step spurious b (RefillLoad now) = refill_step spurious b (RefillLoad now)"
| "try_acquire_step spurious b (RefillExchange now prior intervals) =
     refill_step spurious b (RefillExchange now prior intervals)"

definition retry_after_secs :: "nat \<Rightarrow> token_bucket \<Rightarrow> nat" where
  "retry_after_secs now b =
     (let elapsed = now - tb_last_refill_ns b;
          remaining_ns = tb_interval_ns b - elapsed mod tb_interval_ns b
      in max 1 ((remaining_ns + 999999999) div 1000000000))"

section \<open>The builder\<close>

record rate_limit_builder =
  rl_tokens :: nat
  rl_interval :: duration
  rl_burst :: "nat option"

definition rate_limit_builder_new :: rate_limit_builder where
  "rate_limit_builder_new = \<lparr>rl_tokens = 0, rl_interval = from_secs 1, rl_burst = None\<rparr>"

definition rate_limit_build :: "nat \<Rightarrow> rate_limit_builder \<Rightarrow> runtime_error + token_bucket" where
  "rate_limit_build now r =
     (if rl_tokens r = 0
      then Inl (InvalidArgument ''rate_limit: tokens must be greater than 0'')
      else if rl_interval r = 0
      then Inl (InvalidArgument ''rate_limit: interval must be greater than zero'')
      else let burst = (case rl_burst r of Some n \<Rightarrow> n | None \<Rightarrow> rl_tokens r)
           in if burst < rl_tokens r
              then Inl (InvalidArgument ''rate_limit: burst must be >= tokens'')
              else if u64_max < rl_interval r
              then Inl (InvalidArgument ''rate_limit: interval exceeds the monotonic clock range'')
              else Inr (bucket_new now (rl_tokens r) (rl_interval r) burst))"

section \<open>Interleavings\<close>

record bucket_config =
  cf_bucket :: token_bucket
  cf_threads :: "acquire_pc list"
  cf_granted :: nat
  cf_clock :: nat

text \<open>
  A thread enters with a reading of the clock that is at least every earlier one, or a thread
  inside takes its next step.
\<close>

inductive bucket_reach :: "token_bucket \<Rightarrow> nat \<Rightarrow> bucket_config \<Rightarrow> bool" for b0 start where
  bucket_init:
    "bucket_reach b0 start
       \<lparr>cf_bucket = b0, cf_threads = [], cf_granted = 0, cf_clock = start\<rparr>"
| bucket_enter:
    "bucket_reach b0 start c \<Longrightarrow> cf_clock c \<le> now \<Longrightarrow> now \<le> u64_max \<Longrightarrow>
     bucket_reach b0 start
       (c\<lparr>cf_threads := cf_threads c @ [RefillLoad now], cf_clock := now\<rparr>)"
| bucket_move:
    "bucket_reach b0 start c \<Longrightarrow> i < length (cf_threads c) \<Longrightarrow>
     try_acquire_step spurious (cf_bucket c) (cf_threads c ! i) = (b', pc') \<Longrightarrow>
     bucket_reach b0 start
       (c\<lparr>cf_bucket := b', cf_threads := (cf_threads c)[i := pc'],
          cf_granted := cf_granted c
            + (if pc' = Answered True \<and> cf_threads c ! i \<noteq> Answered True then 1 else 0)\<rparr>)"

section \<open>The invariant of the interleavings\<close>

fun pending_tokens :: "acquire_pc \<Rightarrow> nat" where
  "pending_tokens (AddLoad add) = add"
| "pending_tokens (AddExchange add current) = add"
| "pending_tokens _ = 0"

fun pc_ok :: "token_bucket \<Rightarrow> nat \<Rightarrow> acquire_pc \<Rightarrow> bool" where
  "pc_ok b clock (RefillLoad now) \<longleftrightarrow> now \<le> clock"
| "pc_ok b clock (RefillExchange now prior intervals) \<longleftrightarrow>
     now \<le> clock \<and> prior + intervals * tb_interval_ns b \<le> now"
| "pc_ok b clock (AcquireExchange current) \<longleftrightarrow> 0 < current"
| "pc_ok b clock _ \<longleftrightarrow> True"

text \<open>The parts of a bucket that no step changes.\<close>

definition same_limits :: "token_bucket \<Rightarrow> token_bucket \<Rightarrow> bool" where
  "same_limits b b' \<longleftrightarrow> tb_rate b' = tb_rate b \<and> tb_burst b' = tb_burst b
     \<and> tb_interval_ns b' = tb_interval_ns b"

text \<open>
  One step, seen from the accounts: the timestamp advances by whole intervals, and what is granted
  or held or still to be added grows by at most the rate per interval.
\<close>

definition step_account :: "token_bucket \<Rightarrow> acquire_pc \<Rightarrow> token_bucket \<Rightarrow> acquire_pc \<Rightarrow> bool" where
  "step_account b pc b' pc' \<longleftrightarrow>
     (\<exists>k. tb_last_refill_ns b' = tb_last_refill_ns b + k * tb_interval_ns b
        \<and> tb_tokens b' + pending_tokens pc' + (if pc' = Answered True \<and> pc \<noteq> Answered True then 1 else 0)
           \<le> tb_tokens b + pending_tokens pc + tb_rate b * k)"

lemma pc_ok_same_limits: "same_limits b b' \<Longrightarrow> pc_ok b' clock pc = pc_ok b clock pc"
  by (cases pc) (simp_all add: same_limits_def)

lemma pc_ok_mono: "pc_ok b clock pc \<Longrightarrow> clock \<le> clock' \<Longrightarrow> pc_ok b clock' pc"
  by (cases pc) auto

lemma refill_exchange_account:
  assumes "prior + intervals * tb_interval_ns b \<le> now" "now \<le> u64_max"
    and "try_acquire_step s b (RefillExchange now prior intervals) = (b', pc')"
    and "now \<le> clock" "tb_last_refill_ns b \<le> clock"
  shows "step_account b (RefillExchange now prior intervals) b' pc' \<and> same_limits b b'
    \<and> pc_ok b clock pc' \<and> tb_last_refill_ns b' \<le> clock \<and> tb_tokens b' = tb_tokens b"
proof -
  have "saturating_add prior (saturating_mul intervals (tb_interval_ns b))
      = prior + intervals * tb_interval_ns b"
    using assms(1,2) by (simp add: saturating_add_def saturating_mul_def)
  moreover have "saturating_mul intervals (tb_rate b) \<le> tb_rate b * intervals"
    by (simp add: saturating_mul_def mult.commute)
  ultimately show ?thesis
    using assms
    by (cases "tb_last_refill_ns b = prior \<and> \<not> s")
      (auto simp: step_account_def same_limits_def Let_def intro: exI [of _ intervals] exI [of _ 0])
qed

lemma acquire_step_account:
  assumes "pc_ok b clock pc" "clock \<le> u64_max" "tb_last_refill_ns b \<le> clock" "tb_tokens b \<le> tb_burst b"
    and step: "try_acquire_step s b pc = (b', pc')"
  shows "step_account b pc b' pc' \<and> same_limits b b' \<and> pc_ok b clock pc'
    \<and> tb_last_refill_ns b' \<le> clock \<and> tb_tokens b' \<le> tb_burst b"
proof (cases pc)
  case (RefillLoad now)
  have "tb_last_refill_ns b + (now - tb_last_refill_ns b) div tb_interval_ns b * tb_interval_ns b \<le> now"
    if "(now - tb_last_refill_ns b) div tb_interval_ns b \<noteq> 0"
  proof -
    have "(now - tb_last_refill_ns b) div tb_interval_ns b * tb_interval_ns b
        \<le> now - tb_last_refill_ns b"
      by simp
    moreover have "tb_last_refill_ns b \<le> now"
      using that by (cases "tb_last_refill_ns b \<le> now") auto
    ultimately show ?thesis
      by linarith
  qed
  with RefillLoad assms show ?thesis
    by (auto simp: step_account_def same_limits_def Let_def split: if_splits intro!: exI [of _ 0])
next
  case (RefillExchange now prior intervals)
  with assms have "prior + intervals * tb_interval_ns b \<le> now" "now \<le> u64_max" "now \<le> clock"
    by auto
  from refill_exchange_account [OF this(1,2) step [unfolded RefillExchange] this(3) assms(3)] assms(4)
  show ?thesis
    unfolding RefillExchange by simp
next
  case (AcquireExchange current)
  with assms show ?thesis
    by (auto simp: step_account_def same_limits_def split: if_splits intro!: exI [of _ 0])
next
  case (AddExchange add current)
  with assms show ?thesis
    by (auto simp: step_account_def same_limits_def saturating_add_def Let_def min_def
        split: if_splits intro!: exI [of _ 0])
qed (use assms in \<open>auto simp: step_account_def same_limits_def split: if_splits intro!: exI [of _ 0]\<close>)

definition bucket_inv :: "token_bucket \<Rightarrow> nat \<Rightarrow> bucket_config \<Rightarrow> bool" where
  "bucket_inv b0 start c \<longleftrightarrow>
     same_limits b0 (cf_bucket c)
     \<and> tb_tokens (cf_bucket c) \<le> tb_burst b0
     \<and> cf_clock c \<le> u64_max \<and> tb_last_refill_ns (cf_bucket c) \<le> cf_clock c
     \<and> list_all (pc_ok b0 (cf_clock c)) (cf_threads c)
     \<and> (\<exists>k. tb_last_refill_ns (cf_bucket c) = start + k * tb_interval_ns b0
          \<and> cf_granted c + tb_tokens (cf_bucket c) + sum_list (map pending_tokens (cf_threads c))
             \<le> tb_burst b0 + tb_rate b0 * k)"

lemma sum_list_map_update:
  "i < length xs \<Longrightarrow>
   sum_list (map f (xs[i := y])) + f (xs ! i) = sum_list (map f xs) + (f y :: nat)"
  by (induction xs arbitrary: i) (auto split: nat.splits)

lemma bucket_inv_enter:
  assumes "bucket_inv b0 start c" "cf_clock c \<le> now" "now \<le> u64_max"
  shows "bucket_inv b0 start (c\<lparr>cf_threads := cf_threads c @ [RefillLoad now], cf_clock := now\<rparr>)"
  using assms unfolding bucket_inv_def
  by (auto simp: list_all_iff intro: pc_ok_mono)

lemma bucket_inv_move:
  assumes inv: "bucket_inv b0 start c" and i: "i < length (cf_threads c)"
    and step: "try_acquire_step s (cf_bucket c) (cf_threads c ! i) = (b', pc')"
  shows "bucket_inv b0 start
    (c\<lparr>cf_bucket := b', cf_threads := (cf_threads c)[i := pc'],
       cf_granted := cf_granted c
         + (if pc' = Answered True \<and> cf_threads c ! i \<noteq> Answered True then 1 else 0)\<rparr>)"
proof -
  let ?b = "cf_bucket c" and ?pc = "cf_threads c ! i"
  let ?won = "if pc' = Answered True \<and> ?pc \<noteq> Answered True then 1 else 0 :: nat"
  have lim: "same_limits b0 ?b" and pcs: "list_all (pc_ok b0 (cf_clock c)) (cf_threads c)"
    using inv by (simp_all add: bucket_inv_def)
  then have "pc_ok ?b (cf_clock c) ?pc"
    using i by (simp add: pc_ok_same_limits list_all_length)
  then have st: "step_account ?b ?pc b' pc'" "same_limits ?b b'" "pc_ok ?b (cf_clock c) pc'"
      "tb_last_refill_ns b' \<le> cf_clock c" "tb_tokens b' \<le> tb_burst ?b"
    using acquire_step_account [OF _ _ _ _ step] inv by (auto simp: bucket_inv_def same_limits_def)
  obtain k where k: "tb_last_refill_ns ?b = start + k * tb_interval_ns b0"
      "cf_granted c + tb_tokens ?b + sum_list (map pending_tokens (cf_threads c))
         \<le> tb_burst b0 + tb_rate b0 * k"
    using inv by (auto simp: bucket_inv_def)
  obtain j where j: "tb_last_refill_ns b' = tb_last_refill_ns ?b + j * tb_interval_ns b0"
      "tb_tokens b' + pending_tokens pc' + ?won \<le> tb_tokens ?b + pending_tokens ?pc + tb_rate b0 * j"
    using st(1) lim unfolding step_account_def same_limits_def by auto
  have "cf_granted c + ?won + tb_tokens b'
        + sum_list (map pending_tokens ((cf_threads c)[i := pc'])) \<le> tb_burst b0 + tb_rate b0 * (k + j)"
    using k(2) j(2) sum_list_map_update [OF i, of pending_tokens pc'] by (simp add: distrib_left)
  moreover have "tb_last_refill_ns b' = start + (k + j) * tb_interval_ns b0"
    using k(1) j(1) by (simp add: distrib_right)
  moreover have "list_all (pc_ok b0 (cf_clock c)) ((cf_threads c)[i := pc'])"
    using pcs st(3) lim set_update_subset_insert [of "cf_threads c" i pc']
    by (auto simp: list_all_iff pc_ok_same_limits)
  ultimately show ?thesis
    using inv st lim unfolding bucket_inv_def same_limits_def by auto
qed

lemma bucket_reach_inv:
  assumes "bucket_reach b0 start c" "b0 = bucket_new start rate interval burst" "start \<le> u64_max"
  shows "bucket_inv b0 start c"
  using assms
proof (induction rule: bucket_reach.induct)
  case bucket_init
  then show ?case
    by (simp add: bucket_inv_def bucket_new_def same_limits_def)
next
  case (bucket_enter c now)
  then show ?case
    by (simp add: bucket_inv_enter)
next
  case (bucket_move c i s b' pc')
  then show ?case
    by (simp only: bucket_inv_move)
qed

text \<open>C31:
  However threads interleave, and however often compare-exchanges fail, a bucket never holds more
  than its burst, and by any time it has granted at most its burst plus its rate for every whole
  interval since it was built.
\<close>

theorem rate_limit_bound:
  assumes "rate_limit_build start r = Inr b0" "start \<le> u64_max" "bucket_reach b0 start c"
  shows "tb_tokens (cf_bucket c) \<le> tb_burst b0
    \<and> cf_granted c \<le> tb_burst b0 + tb_rate b0 * ((cf_clock c - start) div tb_interval_ns b0)"
proof -
  obtain burst where b0: "b0 = bucket_new start (rl_tokens r) (rl_interval r) burst"
      and pos: "0 < tb_interval_ns b0"
    using assms(1) by (auto simp: rate_limit_build_def Let_def bucket_new_def split: if_splits)
  have inv: "bucket_inv b0 start c"
    by (rule bucket_reach_inv [OF assms(3) b0 assms(2)])
  then obtain k where k: "start + k * tb_interval_ns b0 \<le> cf_clock c"
      "cf_granted c \<le> tb_burst b0 + tb_rate b0 * k"
    by (auto simp: bucket_inv_def)
  then have "k * tb_interval_ns b0 \<le> cf_clock c - start"
    by linarith
  then have "k \<le> (cf_clock c - start) div tb_interval_ns b0"
    using pos by (simp add: less_eq_div_iff_mult_less_eq)
  then have "tb_rate b0 * k \<le> tb_rate b0 * ((cf_clock c - start) div tb_interval_ns b0)"
    by simp
  with k(2) inv show ?thesis
    unfolding bucket_inv_def by linarith
qed

definition one_per_second :: rate_limit_builder where
  "one_per_second = rate_limit_builder_new\<lparr>rl_tokens := 1\<rparr>"

lemma one_per_second_build: "rate_limit_build 0 one_per_second = Inr (bucket_new 0 1 1000000000 1)"
  by (simp add: rate_limit_build_def one_per_second_def rate_limit_builder_new_def from_secs_def
      u64_max_def)

theorem rate_limit_bound_witness:
  "\<exists>c. bucket_reach (bucket_new 0 1 1000000000 1) 0 c \<and> cf_threads c = [Answered True]
     \<and> cf_granted c = 1
     \<and> cf_granted c \<le> 1 + 1 * ((cf_clock c - 0) div 1000000000)"
proof -
  let ?b = "bucket_new 0 1 1000000000 1"
  let ?c0 = "\<lparr>cf_bucket = ?b, cf_threads = [RefillLoad 0], cf_granted = 0, cf_clock = 0\<rparr>"
  let ?c1 = "?c0\<lparr>cf_threads := [AcquireLoad]\<rparr>"
  let ?c2 = "?c0\<lparr>cf_threads := [AcquireExchange 1]\<rparr>"
  let ?c3 = "?c0\<lparr>cf_bucket := ?b\<lparr>tb_tokens := 0\<rparr>, cf_threads := [Answered True], cf_granted := 1\<rparr>"
  have "bucket_reach ?b 0 ?c0"
    using bucket_enter [OF bucket_init [of ?b 0], of 0] by (simp add: u64_max_def)
  then have "bucket_reach ?b 0 ?c1"
    using bucket_move [of ?b 0 ?c0 0 False ?b AcquireLoad] by (simp add: bucket_new_def)
  then have "bucket_reach ?b 0 ?c2"
    using bucket_move [of ?b 0 ?c1 0 False ?b "AcquireExchange 1"] by (simp add: bucket_new_def)
  then have r: "bucket_reach ?b 0 ?c3"
    using bucket_move [of ?b 0 ?c2 0 False "?b\<lparr>tb_tokens := 0\<rparr>" "Answered True"]
    by (simp add: bucket_new_def)
  show ?thesis
    using r rate_limit_bound [OF one_per_second_build _ r] by (intro exI [of _ ?c3]) simp
qed

section \<open>An acquisition that runs alone returns\<close>

text \<open>The steps of one thread that no other thread and no spurious failure disturbs.\<close>

fun acquire_alone :: "nat \<Rightarrow> token_bucket \<Rightarrow> acquire_pc \<Rightarrow> token_bucket \<times> acquire_pc" where
  "acquire_alone 0 b pc = (b, pc)"
| "acquire_alone (Suc n) b pc =
     (case try_acquire_step False b pc of (b', pc') \<Rightarrow> acquire_alone n b' pc')"

text \<open>What the tokens are once whole intervals have been added.\<close>

definition refilled :: "nat \<Rightarrow> token_bucket \<Rightarrow> nat" where
  "refilled now b =
     (let intervals = (now - tb_last_refill_ns b) div tb_interval_ns b
      in if intervals = 0 then tb_tokens b
         else min (saturating_add (tb_tokens b) (saturating_mul intervals (tb_rate b))) (tb_burst b))"

lemma alone_answered: "acquire_alone n b (Answered g) = (b, Answered g)"
  by (induction n) simp_all

lemma alone_acquire:
  "snd (acquire_alone (Suc (Suc n)) b AcquireLoad) = Answered (0 < tb_tokens b)"
  by (simp add: alone_answered)

lemma alone_add:
  "acquire_alone (Suc (Suc n)) b (AddLoad add)
     = acquire_alone n (b\<lparr>tb_tokens := min (saturating_add (tb_tokens b) add) (tb_burst b)\<rparr>) AcquireLoad"
  by (simp add: Let_def)

lemma alone_refill_idle:
  assumes "(now - tb_last_refill_ns b) div tb_interval_ns b = 0"
  shows "acquire_alone (Suc n) b (RefillLoad now) = acquire_alone n b AcquireLoad"
  using assms by (simp only: acquire_alone.simps try_acquire_step.simps refill_step.simps Let_def
      if_True prod.case simp_thms)

lemma alone_refill:
  assumes "(now - tb_last_refill_ns b) div tb_interval_ns b = k" "k \<noteq> 0"
  shows "acquire_alone (Suc (Suc n)) b (RefillLoad now) =
    acquire_alone n (b\<lparr>tb_last_refill_ns :=
        saturating_add (tb_last_refill_ns b) (saturating_mul k (tb_interval_ns b))\<rparr>)
      (AddLoad (saturating_mul k (tb_rate b)))"
  using assms by (simp only: acquire_alone.simps try_acquire_step.simps refill_step.simps Let_def
      if_False if_True prod.case simp_thms)

lemma acquire_alone_answers:
  "snd (acquire_alone 6 b (RefillLoad now)) = Answered (0 < refilled now b)"
proof -
  have six: "(6 :: nat) = Suc (Suc (Suc (Suc (Suc (Suc 0)))))"
    by simp
  show ?thesis
  proof (cases "(now - tb_last_refill_ns b) div tb_interval_ns b = 0")
    case True
    then show ?thesis
      unfolding six alone_refill_idle [OF True] alone_acquire
      by (simp add: refilled_def)
  next
    case False
    then show ?thesis
      unfolding six alone_refill [OF refl False] alone_add alone_acquire
      by (simp add: refilled_def Let_def)
  qed
qed

lemma ceil_div_covers: "(x :: nat) \<le> (x + d) div Suc d * Suc d"
proof -
  have "(x + d) mod Suc d \<le> d"
    using mod_less_divisor [of "Suc d" "x + d"] by simp
  then show ?thesis
    using div_mult_mod_eq [of "x + d" "Suc d"] by linarith
qed

lemma retry_wait_covers:
  assumes "0 < (interval :: nat)" "last_ns \<le> now"
  shows "last_ns + interval
    \<le> now + max 1 ((interval - (now - last_ns) mod interval + d) div Suc d) * Suc d"
proof -
  let ?rem = "interval - (now - last_ns) mod interval"
  have "?rem \<le> (?rem + d) div Suc d * Suc d"
    by (rule ceil_div_covers)
  also have "\<dots> \<le> max 1 ((?rem + d) div Suc d) * Suc d"
    by (rule mult_le_mono1 [OF max.cobounded2])
  finally have wait: "?rem \<le> max 1 ((?rem + d) div Suc d) * Suc d" .
  have "(now - last_ns) mod interval \<le> now - last_ns"
    by simp
  then have "last_ns + interval \<le> now + ?rem"
    using assms(2) by linarith
  also have "\<dots> \<le> now + max 1 ((?rem + d) div Suc d) * Suc d"
    by (rule add_left_mono [OF wait])
  finally show ?thesis .
qed

text \<open>C32:
  The Retry-After answer is honest. From any reachable bucket, a request that comes back after the
  announced number of seconds, and is not raced, returns within six atomic steps and is granted.
\<close>

theorem retry_after_honest:
  assumes "rate_limit_build start r = Inr b0" "start \<le> u64_max" "bucket_reach b0 start c"
    and "cf_clock c \<le> now"
  shows "snd (acquire_alone 6 (cf_bucket c)
           (RefillLoad (now + retry_after_secs now (cf_bucket c) * 1000000000))) = Answered True"
proof -
  let ?b = "cf_bucket c"
  obtain burst where b0: "b0 = bucket_new start (rl_tokens r) (rl_interval r) burst"
      and pos: "0 < tb_interval_ns b0" "0 < tb_rate b0" "0 < tb_burst b0"
    using assms(1) by (auto simp: rate_limit_build_def Let_def bucket_new_def split: if_splits)
  have inv: "bucket_inv b0 start c"
    by (rule bucket_reach_inv [OF assms(3) b0 assms(2)])
  then have lim: "tb_interval_ns ?b = tb_interval_ns b0" "tb_rate ?b = tb_rate b0"
      "tb_burst ?b = tb_burst b0" and le: "tb_last_refill_ns ?b \<le> now"
    using assms(4) by (auto simp: bucket_inv_def same_limits_def)
  let ?later = "now + retry_after_secs now ?b * 1000000000"
  have "tb_last_refill_ns ?b + tb_interval_ns b0 \<le> ?later"
    using retry_wait_covers [OF pos(1) le, of 999999999] lim(1)
    by (simp add: retry_after_secs_def Let_def)
  then have "tb_interval_ns b0 \<le> ?later - tb_last_refill_ns ?b"
    by linarith
  then have "0 < (?later - tb_last_refill_ns ?b) div tb_interval_ns b0"
    using pos(1) by (simp add: div_greater_zero_iff)
  then have "0 < refilled ?later ?b"
    using pos lim
    by (simp add: refilled_def saturating_add_def saturating_mul_def u64_max_def Let_def)
  then show ?thesis
    by (simp add: acquire_alone_answers)
qed

theorem retry_after_honest_witness:
  "snd (acquire_alone 6 (bucket_new 0 1 1000000000 1)
     (RefillLoad (5 + retry_after_secs 5 (bucket_new 0 1 1000000000 1) * 1000000000)))
   = Answered True"
  using retry_after_honest [OF one_per_second_build le0 bucket_init, of 5]
  by (simp only: bucket_config.simps zero_le simp_thms)

end
