(* ===== verification/Circuit_Breaker.thy ===== *)
theory Circuit_Breaker
  imports Runtime_Error "HOL-Library.Sublist"
begin

text \<open>
  The circuit breaker of \<open>circuit_breaker.rs\<close>. A health check has two parts: what it decides
  before it asks the inner resource, and what it records from the answer. Checks that do not
  overlap run both parts at once. For checks that do overlap, the same code is given as the single
  accesses to the atomics it shares, interleaved in any order; a check that nothing interrupts is
  the same in both. The clock and the inner resource's answer are arguments.
\<close>

section \<open>The breaker\<close>

datatype breaker_state = Closed | Open | HalfOpen

record breaker =
  cb_name :: string
  cb_state :: breaker_state
  cb_failures :: nat
  cb_last_opened :: nat
  cb_epoch :: instant
  cb_threshold :: nat
  cb_cooldown :: duration

abbreviation no_timestamp :: nat where
  "no_timestamp \<equiv> 2 ^ 64 - 1"

record breaker_builder =
  br_name :: string
  br_threshold :: nat
  br_cooldown :: duration

definition breaker_wrap :: "string \<Rightarrow> breaker_builder" where
  "breaker_wrap name = \<lparr>br_name = name, br_threshold = 5, br_cooldown = from_secs 30\<rparr>"

definition failure_threshold :: "nat \<Rightarrow> breaker_builder \<Rightarrow> breaker_builder" where
  "failure_threshold n r = r\<lparr>br_threshold := if n < 1 then 1 else n\<rparr>"

definition breaker_cooldown :: "duration \<Rightarrow> breaker_builder \<Rightarrow> breaker_builder" where
  "breaker_cooldown d r = r\<lparr>br_cooldown := if d < from_secs 1 then from_secs 1 else d\<rparr>"

definition breaker_build :: "instant \<Rightarrow> breaker_builder \<Rightarrow> breaker" where
  "breaker_build now r =
     \<lparr>cb_name = br_name r, cb_state = Closed, cb_failures = 0, cb_last_opened = no_timestamp,
      cb_epoch = now, cb_threshold = br_threshold r, cb_cooldown = br_cooldown r\<rparr>"

section \<open>Health checks\<close>

text \<open>\<open>as u64\<close> keeps the low 64 bits.\<close>

definition open_circuit :: "instant \<Rightarrow> breaker \<Rightarrow> breaker" where
  "open_circuit now b =
     b\<lparr>cb_last_opened := (now - cb_epoch b) mod 2 ^ 64, cb_state := Open\<rparr>"

definition record_failure :: "instant \<Rightarrow> breaker \<Rightarrow> breaker" where
  "record_failure now b =
     (if cb_threshold b \<le> cb_failures b then open_circuit now b
      else let b' = b\<lparr>cb_failures := cb_failures b + 1\<rparr>
           in if cb_threshold b \<le> cb_failures b + 1 then open_circuit now b' else b')"

datatype probe = ProbeClosed | ProbeHalfOpen

definition health_check_open :: "instant \<Rightarrow> breaker \<Rightarrow> (runtime_error + probe) \<times> breaker" where
  "health_check_open now b =
     (let opened_at = (if cb_last_opened b = no_timestamp then now else cb_epoch b + cb_last_opened b);
          cooldown_expired = cb_cooldown b \<le> now - opened_at
      in if cooldown_expired \<and> cb_state b = Open
         then (Inr ProbeHalfOpen, b\<lparr>cb_state := HalfOpen\<rparr>)
         else (Inl (Http (''circuit breaker open for resource: '' @ cb_name b)), b))"

definition health_check_start :: "instant \<Rightarrow> breaker \<Rightarrow> (runtime_error + probe) \<times> breaker" where
  "health_check_start now b =
     (case cb_state b of
        Open \<Rightarrow> health_check_open now b
      | HalfOpen \<Rightarrow> (Inr ProbeHalfOpen, b)
      | Closed \<Rightarrow> (Inr ProbeClosed, b))"

definition health_check_closed ::
  "instant \<Rightarrow> runtime_error option \<Rightarrow> breaker \<Rightarrow> runtime_error option \<times> breaker"
where
  "health_check_closed now inner b =
     (case inner of
        None \<Rightarrow> (None, b\<lparr>cb_failures := 0\<rparr>)
      | Some e \<Rightarrow> (Some e, record_failure now b))"

definition health_check_half_open ::
  "instant \<Rightarrow> runtime_error option \<Rightarrow> breaker \<Rightarrow> runtime_error option \<times> breaker"
where
  "health_check_half_open now inner b =
     (case inner of
        None \<Rightarrow> (None, b\<lparr>cb_failures := 0, cb_state := Closed\<rparr>)
      | Some e \<Rightarrow> (Some e, open_circuit now b))"

definition health_check ::
  "instant \<Rightarrow> runtime_error option \<Rightarrow> breaker \<Rightarrow> (bool \<times> runtime_error option) \<times> breaker"
where
  "health_check now inner b =
     (case health_check_start now b of
        (Inl e, b') \<Rightarrow> ((False, Some e), b')
      | (Inr ProbeClosed, b') \<Rightarrow>
          (case health_check_closed now inner b' of (r, b'') \<Rightarrow> ((True, r), b''))
      | (Inr ProbeHalfOpen, b') \<Rightarrow>
          (case health_check_half_open now inner b' of (r, b'') \<Rightarrow> ((True, r), b'')))"

text \<open>A sequence of checks at given times, with whether each asked the inner resource.\<close>

fun health_checks :: "(instant \<times> runtime_error option) list \<Rightarrow> breaker \<Rightarrow> bool list \<times> breaker" where
  "health_checks [] b = ([], b)"
| "health_checks ((now, inner) # rest) b =
     (case health_check now inner b of
        ((probed, _), b') \<Rightarrow> (case health_checks rest b' of (ps, b'') \<Rightarrow> (probed # ps, b'')))"

section \<open>Closed and open\<close>

lemma closed_failure:
  assumes "cb_state b = Closed"
  shows "health_check now (Some e) b = ((True, Some e), record_failure now b)"
  using assms by (simp add: health_check_def health_check_start_def health_check_closed_def)

lemma closed_failures_count:
  assumes "cb_state b = Closed" "cb_failures b + length xs < cb_threshold b" "list_all (\<lambda>x. snd x \<noteq> None) xs"
  shows "health_checks xs b = (replicate (length xs) True, b\<lparr>cb_failures := cb_failures b + length xs\<rparr>)"
  using assms
proof (induction xs arbitrary: b)
  case (Cons x xs)
  obtain now e where x: "x = (now, Some e)"
    using Cons.prems(3) by (cases x) auto
  with Cons.prems Cons.IH [of "record_failure now b"] show ?case
    by (simp add: closed_failure record_failure_def Let_def)
qed simp

lemma health_checks_append:
  "health_checks (xs @ ys) b =
     (case health_checks xs b of (ps, b') \<Rightarrow>
        (case health_checks ys b' of (qs, b'') \<Rightarrow> (ps @ qs, b'')))"
  by (induction xs arbitrary: b) (auto simp: split_def)

text \<open>The time since the epoch fits the timestamp, and is not the value that stands for none.\<close>

definition in_range :: "instant \<Rightarrow> breaker \<Rightarrow> bool" where
  "in_range now b \<longleftrightarrow> cb_epoch b \<le> now \<and> now - cb_epoch b < no_timestamp"

lemma opened_refuses:
  assumes "cb_state b = Open" "in_range t b" "cb_last_opened b = t - cb_epoch b"
    and "list_all (\<lambda>x. fst x < t + cb_cooldown b) xs"
    and "0 < cb_cooldown b"
  shows "health_checks xs b = (replicate (length xs) False, b)"
  using assms(4)
proof (induction xs)
  case (Cons x xs)
  have "fst (health_check (fst x) (snd x) b) = (False, Some (Http (''circuit breaker open for resource: '' @ cb_name b)))
      \<and> snd (health_check (fst x) (snd x) b) = b"
    using assms(1,2,3,5) Cons.prems
    by (auto simp: health_check_def health_check_start_def health_check_open_def in_range_def Let_def)
  with Cons show ?case
    by (cases x) (simp add: split_def)
qed simp

lemma opened_probes:
  assumes "cb_state b = Open" "in_range t b" "cb_last_opened b = t - cb_epoch b" "t + cb_cooldown b \<le> u"
  shows "health_check u inner b =
    ((True, inner), case inner of None \<Rightarrow> b\<lparr>cb_failures := 0, cb_state := Closed\<rparr>
                    | Some _ \<Rightarrow> open_circuit u b)"
  using assms
  by (auto simp: health_check_def health_check_start_def health_check_open_def in_range_def Let_def
      health_check_half_open_def open_circuit_def split: option.splits)

text \<open>C33:
  The life of a circuit, for checks that do not overlap. From a fresh breaker, the inner resource
  is asked at each of the failing checks up to the threshold, and the check that reaches the
  threshold opens the circuit. Until the cooldown is over no check asks the resource. The first
  check after it asks once: success closes the circuit with no failures counted, failure opens it
  again for a full cooldown.
\<close>

theorem circuit_life:
  assumes "b = breaker_build t0 (failure_threshold n (breaker_cooldown d (breaker_wrap name)))"
    and "list_all (\<lambda>x. snd x \<noteq> None) xs" "length xs + 1 = cb_threshold b"
    and "in_range t b" "list_all (\<lambda>y. fst y < t + cb_cooldown b) ys"
    and "t + cb_cooldown b \<le> u"
  shows "fst (health_checks (xs @ (t, Some e) # ys) b)
      = replicate (cb_threshold b) True @ replicate (length ys) False
    \<and> cb_state (snd (health_checks (xs @ (t, Some e) # ys) b)) = Open
    \<and> health_check u inner (snd (health_checks (xs @ (t, Some e) # ys) b))
      = ((True, inner),
         case inner of
           None \<Rightarrow> b
             \<lparr>cb_failures := 0, cb_state := Closed, cb_last_opened := t - cb_epoch b\<rparr>
         | Some _ \<Rightarrow> open_circuit u (b\<lparr>cb_failures := cb_threshold b\<rparr>))"
proof -
  have b: "cb_state b = Closed" "cb_failures b = 0" "0 < cb_cooldown b" "0 < cb_threshold b"
    using assms(1) by (auto simp: breaker_build_def failure_threshold_def breaker_cooldown_def
        breaker_wrap_def from_secs_def)
  let ?c = "b\<lparr>cb_failures := length xs\<rparr>"
  let ?o = "b\<lparr>cb_failures := cb_threshold b, cb_last_opened := t - cb_epoch b, cb_state := Open\<rparr>"
  have xs: "health_checks xs b = (replicate (length xs) True, ?c)"
    using closed_failures_count [OF b(1) _ assms(2)] assms(3) b(2) by simp
  have "(t - cb_epoch b) mod 2 ^ 64 = t - cb_epoch b"
    using assms(4) by (simp add: in_range_def)
  then have o: "health_check t (Some e) ?c = ((True, Some e), ?o)"
    using assms(3) b(1) closed_failure [of ?c t e]
    by (simp add: record_failure_def open_circuit_def Let_def)
  have ys: "health_checks ys ?o = (replicate (length ys) False, ?o)"
    using opened_refuses [of ?o t ys] assms(4,5) b(3) by (simp add: in_range_def)
  have "health_checks (xs @ (t, Some e) # ys) b
      = (replicate (cb_threshold b) True @ replicate (length ys) False, ?o)"
    using assms(3) xs o ys
    by (simp add: health_checks_append replicate_append_same flip: replicate_Suc)
  moreover have "health_check u inner ?o = ((True, inner),
      case inner of None \<Rightarrow> ?o\<lparr>cb_failures := 0, cb_state := Closed\<rparr> | Some _ \<Rightarrow> open_circuit u ?o)"
    using opened_probes [of ?o t u inner] assms(4,6) by (simp add: in_range_def)
  ultimately show ?thesis
    by (simp add: open_circuit_def split: option.splits)
qed

theorem circuit_life_witness:
  "fst (health_checks [(1, Some (Http ''down'')), (2, Some (Http ''down'')), (3, None)]
      (breaker_build 0 (failure_threshold 2 (breaker_cooldown 0 (breaker_wrap ''db'')))))
   = [True, True, False]"
proof -
  let ?b = "breaker_build 0 (failure_threshold 2 (breaker_cooldown 0 (breaker_wrap ''db'')))"
  have b: "cb_threshold ?b = 2" "cb_cooldown ?b = 1000000000" "cb_epoch ?b = 0"
    by (simp_all add: breaker_build_def failure_threshold_def breaker_cooldown_def breaker_wrap_def
        from_secs_def)
  have "fst (health_checks ([(1, Some (Http ''down''))] @ (2, Some (Http ''down'')) # [(3, None)]) ?b)
      = replicate (cb_threshold ?b) True @ replicate (length [(3 :: nat, None :: runtime_error option)]) False"
    by (rule circuit_life [where u = "2 + 1000000000" and inner = None, OF refl, THEN conjunct1])
      (simp_all add: b in_range_def)
  moreover have "replicate (2 :: nat) True = [True, True]"
    by (simp add: numeral_2_eq_2)
  ultimately show ?thesis
    by (simp only: b append.simps list.size replicate.simps add_0 One_nat_def)
qed

section \<open>Overlapping checks\<close>

text \<open>
  The compare-exchange of the code admits one check to the transition to half-open, but a second
  check that starts while that probe is still running asks the resource as well, at whatever time
  it comes.
\<close>

lemma half_open_two_probes:
  assumes "cb_state b = Open" "in_range t b" "cb_last_opened b = t - cb_epoch b" "t + cb_cooldown b \<le> u"
  shows "\<exists>b'. health_check_start u b = (Inr ProbeHalfOpen, b')
    \<and> health_check_start v b' = (Inr ProbeHalfOpen, b')"
  using assms
  by (auto simp: health_check_start_def health_check_open_def in_range_def Let_def)

text \<open>
  A health check as its single accesses to the shared atomics. Each constructor is the access the
  check performs next; a failure carries the error it will return.
\<close>

datatype check_point =
    LoadState
  | LoadStamp
  | ExchangeState
  | AskResource probe
  | ResetFailures probe
  | StoreClosed
  | LoadFailures runtime_error
  | ExchangeFailures nat runtime_error
  | StoreStamp runtime_error
  | StoreOpen runtime_error
  | Answered bool "runtime_error option"

abbreviation open_error :: "breaker \<Rightarrow> runtime_error" where
  "open_error b \<equiv> Http (''circuit breaker open for resource: '' @ cb_name b)"

fun check_access ::
  "instant \<Rightarrow> runtime_error option \<Rightarrow> check_point \<Rightarrow> breaker \<Rightarrow> check_point \<times> breaker"
where
  "check_access now inner LoadState b =
     (case cb_state b of
        Open \<Rightarrow> (LoadStamp, b)
      | HalfOpen \<Rightarrow> (AskResource ProbeHalfOpen, b)
      | Closed \<Rightarrow> (AskResource ProbeClosed, b))"
| "check_access now inner LoadStamp b =
     (let opened_at = (if cb_last_opened b = no_timestamp then now else cb_epoch b + cb_last_opened b)
      in (if cb_cooldown b \<le> now - opened_at then ExchangeState else Answered False (Some (open_error b)), b))"
| "check_access now inner ExchangeState b =
     (if cb_state b = Open then (AskResource ProbeHalfOpen, b\<lparr>cb_state := HalfOpen\<rparr>)
      else (Answered False (Some (open_error b)), b))"
| "check_access now inner (AskResource probe) b =
     (case inner of
        None \<Rightarrow> (ResetFailures probe, b)
      | Some e \<Rightarrow> (case probe of ProbeClosed \<Rightarrow> LoadFailures e | ProbeHalfOpen \<Rightarrow> StoreStamp e, b))"
| "check_access now inner (ResetFailures probe) b =
     (case probe of ProbeClosed \<Rightarrow> Answered True None | ProbeHalfOpen \<Rightarrow> StoreClosed, b\<lparr>cb_failures := 0\<rparr>)"
| "check_access now inner StoreClosed b = (Answered True None, b\<lparr>cb_state := Closed\<rparr>)"
| "check_access now inner (LoadFailures e) b =
     (if cb_threshold b \<le> cb_failures b then StoreStamp e else ExchangeFailures (cb_failures b) e, b)"
| "check_access now inner (ExchangeFailures prev e) b =
     (if cb_failures b = prev
      then (if cb_threshold b \<le> prev + 1 then StoreStamp e else Answered True (Some e), b\<lparr>cb_failures := prev + 1\<rparr>)
      else (LoadFailures e, b))"
| "check_access now inner (StoreStamp e) b = (StoreOpen e, b\<lparr>cb_last_opened := (now - cb_epoch b) mod 2 ^ 64\<rparr>)"
| "check_access now inner (StoreOpen e) b = (Answered True (Some e), b\<lparr>cb_state := Open\<rparr>)"
| "check_access now inner (Answered asked result) b = (Answered asked result, b)"

text \<open>A check whose accesses no other check interrupts is the check of the model above.\<close>

lemma check_alone:
  "((\<lambda>(pc, b). check_access now inner pc b) ^^ 7) (LoadState, b)
     = (case health_check now inner b of ((asked, result), b') \<Rightarrow> (Answered asked result, b'))"
proof -
  have seven: "(f ^^ 7) x = f (f (f (f (f (f (f x))))))" for f :: "'a \<Rightarrow> 'a" and x
    by (simp add: eval_nat_numeral)
  show ?thesis
    unfolding seven
    by (cases "cb_state b"; cases inner)
      (simp_all add: health_check_def health_check_start_def health_check_open_def health_check_closed_def
        health_check_half_open_def record_failure_def open_circuit_def Let_def)
qed

text \<open>
  Any number of checks, each at some access, and the answers in the order in which they were
  recorded: a success where the failures are reset, a failure where they are counted.
\<close>

record breaker_run =
  bm_breaker :: breaker
  bm_checks :: "check_point list"
  bm_recorded :: "bool list"

fun recorded :: "check_point \<Rightarrow> breaker \<Rightarrow> bool list" where
  "recorded (ResetFailures probe) b = [True]"
| "recorded (ExchangeFailures prev e) b = (if cb_failures b = prev then [False] else [])"
| "recorded _ b = []"

inductive breaker_step :: "breaker_run \<Rightarrow> breaker_run \<Rightarrow> bool" where
  check_enters: "breaker_step m (m\<lparr>bm_checks := bm_checks m @ [LoadState]\<rparr>)"
| check_moves:
    "i < length (bm_checks m) \<Longrightarrow> in_range now (bm_breaker m) \<Longrightarrow>
     check_access now inner (bm_checks m ! i) (bm_breaker m) = (pc, b) \<Longrightarrow>
     breaker_step m (m\<lparr>bm_breaker := b, bm_checks := (bm_checks m)[i := pc],
       bm_recorded := bm_recorded m @ recorded (bm_checks m ! i) (bm_breaker m)\<rparr>)"

definition breaker_run_new :: "breaker \<Rightarrow> breaker_run" where
  "breaker_run_new b = \<lparr>bm_breaker = b, bm_checks = [], bm_recorded = []\<rparr>"

section \<open>The circuit opens only after enough failures\<close>

text \<open>The failures recorded since the last success.\<close>

definition trailing_failures :: "bool list \<Rightarrow> nat" where
  "trailing_failures rs = length (takeWhile Not (rev rs))"

definition failed_in_a_row :: "nat \<Rightarrow> bool list \<Rightarrow> bool" where
  "failed_in_a_row n rs \<longleftrightarrow> sublist (replicate n False) rs"

lemma trailing_failures_simps [simp]:
  "trailing_failures (rs @ [True]) = 0"
  "trailing_failures (rs @ [False]) = Suc (trailing_failures rs)"
  by (simp_all add: trailing_failures_def)

lemma failed_in_a_row_append: "failed_in_a_row n rs \<Longrightarrow> failed_in_a_row n (rs @ later)"
  unfolding failed_in_a_row_def sublist_def by (metis append.assoc)

lemma trailing_failed_in_a_row:
  assumes "n \<le> trailing_failures rs"
  shows "failed_in_a_row n rs"
proof -
  let ?k = "trailing_failures rs"
  have "takeWhile Not (rev rs) = replicate ?k False"
    unfolding trailing_failures_def by (rule replicate_eqI) (auto dest: set_takeWhileD)
  then have "rev rs = replicate ?k False @ dropWhile Not (rev rs)"
    by (metis takeWhile_dropWhile_id)
  then have "rs = rev (dropWhile Not (rev rs)) @ replicate ?k False"
    by (metis rev_append rev_replicate rev_rev_ident)
  moreover have "replicate ?k False = replicate (?k - n) False @ replicate n False"
    using assms by (simp flip: replicate_add)
  ultimately show ?thesis
    unfolding failed_in_a_row_def sublist_def by (metis append.assoc append_Nil2)
qed

text \<open>What a check has seen, at each of its accesses.\<close>

fun check_ok :: "breaker \<Rightarrow> bool list \<Rightarrow> check_point \<Rightarrow> bool" where
  "check_ok b rs (ExchangeFailures prev e) \<longleftrightarrow> prev < cb_threshold b"
| "check_ok b rs (StoreOpen e) \<longleftrightarrow> failed_in_a_row (cb_threshold b) rs \<and> cb_last_opened b \<noteq> no_timestamp"
| "check_ok b rs (AskResource ProbeClosed) \<longleftrightarrow> True"
| "check_ok b rs (Answered asked result) \<longleftrightarrow> asked \<or> failed_in_a_row (cb_threshold b) rs"
| "check_ok b rs pc \<longleftrightarrow>
     pc \<in> {LoadStamp, ExchangeState, AskResource ProbeHalfOpen} \<union> range StoreStamp \<longrightarrow>
     failed_in_a_row (cb_threshold b) rs"

definition breaker_inv :: "breaker_run \<Rightarrow> bool" where
  "breaker_inv m \<longleftrightarrow>
     (let b = bm_breaker m; rs = bm_recorded m
      in cb_failures b \<le> trailing_failures rs \<and> cb_failures b \<le> cb_threshold b
         \<and> (cb_state b \<noteq> Closed \<longrightarrow> failed_in_a_row (cb_threshold b) rs \<and> cb_last_opened b \<noteq> no_timestamp)
         \<and> list_all (check_ok b rs) (bm_checks m))"

lemma check_ok_later:
  assumes "check_ok b rs pc" "cb_threshold b' = cb_threshold b"
    and "cb_last_opened b \<noteq> no_timestamp \<longrightarrow> cb_last_opened b' \<noteq> no_timestamp"
  shows "check_ok b' (rs @ later) pc"
  using assms failed_in_a_row_append
  by (cases "(b, rs, pc)" rule: check_ok.cases) auto

lemma check_access_inv:
  assumes "check_access now inner pc b = (pc', b')" "in_range now b" "check_ok b rs pc"
    and "cb_failures b \<le> trailing_failures rs" "cb_failures b \<le> cb_threshold b"
    and "cb_state b \<noteq> Closed \<longrightarrow> failed_in_a_row (cb_threshold b) rs \<and> cb_last_opened b \<noteq> no_timestamp"
  shows "check_ok b' (rs @ recorded pc b) pc'
    \<and> cb_failures b' \<le> trailing_failures (rs @ recorded pc b) \<and> cb_failures b' \<le> cb_threshold b'
    \<and> cb_threshold b' = cb_threshold b
    \<and> (cb_last_opened b \<noteq> no_timestamp \<longrightarrow> cb_last_opened b' \<noteq> no_timestamp)
    \<and> (cb_state b' \<noteq> Closed \<longrightarrow>
         failed_in_a_row (cb_threshold b') (rs @ recorded pc b) \<and> cb_last_opened b' \<noteq> no_timestamp)"
proof (cases pc)
  case (ExchangeFailures prev e)
  then show ?thesis
    using assms failed_in_a_row_append [of "cb_threshold b" rs "[False]"]
      trailing_failed_in_a_row [of "cb_threshold b" "rs @ [False]"]
    by (auto split: if_splits)
next
  case (LoadFailures e)
  then show ?thesis
    using assms trailing_failed_in_a_row [of "cb_threshold b" rs] by (auto split: if_splits)
next
  case (ResetFailures probe)
  then show ?thesis
    using assms failed_in_a_row_append [of "cb_threshold b" rs "[True]"] by (cases probe) auto
next
  case (AskResource probe)
  then show ?thesis
    using assms by (cases probe) (auto split: option.splits)
next
  case (StoreStamp e)
  then show ?thesis
    using assms by (auto simp: in_range_def)
qed (use assms in \<open>auto simp: Let_def split: breaker_state.splits if_splits\<close>)

lemma breaker_step_inv: "breaker_step m m' \<Longrightarrow> breaker_inv m \<Longrightarrow> breaker_inv m'"
proof (induction rule: breaker_step.induct)
  case (check_enters m)
  then show ?case
    by (auto simp: breaker_inv_def Let_def)
next
  case (check_moves i m now inner pc b)
  let ?old = "bm_breaker m" and ?rs = "bm_recorded m" and ?pc = "bm_checks m ! i"
  have ok: "check_ok ?old ?rs q" if "q \<in> set (bm_checks m)" for q
    using check_moves.prems that by (auto simp: breaker_inv_def Let_def list_all_iff)
  have "check_ok ?old ?rs ?pc"
    using ok check_moves.hyps(1) by simp
  note access = check_access_inv [OF check_moves.hyps(3,2) this]
  have new: "check_ok b (?rs @ recorded ?pc ?old) pc" "cb_threshold b = cb_threshold ?old"
    "cb_last_opened ?old \<noteq> no_timestamp \<longrightarrow> cb_last_opened b \<noteq> no_timestamp"
    using access check_moves.prems by (simp_all add: breaker_inv_def Let_def)
  have "list_all (check_ok b (?rs @ recorded ?pc ?old)) ((bm_checks m)[i := pc])"
    using check_ok_later [OF ok new(2,3)] new(1) set_update_subset_insert [of "bm_checks m" i pc]
    by (auto simp: list_all_iff)
  then show ?case
    using access new(2) check_moves.prems by (auto simp: breaker_inv_def Let_def)
qed

text \<open>C34: However the single accesses of any number of health checks interleave, a breaker built with the
  builder does not open early. As long as fewer failures than the threshold were recorded in a row,
  the circuit is closed and no check is refused: each one that has answered asked the resource. The
  count never passes the threshold, so that its increment cannot wrap. And whoever sees the circuit
  open finds the time of its opening in place, as the order of the two stores intends.\<close>

theorem opens_only_after_failures:
  assumes "b = breaker_build t0 (failure_threshold n (breaker_cooldown d (breaker_wrap name)))"
    and "breaker_step\<^sup>*\<^sup>* (breaker_run_new b) m"
  shows "(\<not> failed_in_a_row (max 1 n) (bm_recorded m) \<longrightarrow>
            cb_state (bm_breaker m) = Closed \<and> (\<forall>result. Answered False result \<notin> set (bm_checks m)))
     \<and> cb_failures (bm_breaker m) \<le> max 1 n
     \<and> (cb_state (bm_breaker m) \<noteq> Closed \<longrightarrow> cb_last_opened (bm_breaker m) \<noteq> no_timestamp)"
proof -
  have start: "breaker_inv (breaker_run_new b)" "cb_threshold b = max 1 n"
    using assms(1) by (auto simp: breaker_inv_def breaker_run_new_def breaker_build_def failure_threshold_def
        breaker_cooldown_def breaker_wrap_def)
  have "breaker_inv m \<and> cb_threshold (bm_breaker m) = max 1 n"
    using assms(2)
  proof (induction rule: rtranclp_induct)
    case (step u v)
    from step.hyps(2) have "cb_threshold (bm_breaker v) = cb_threshold (bm_breaker u)"
    proof cases
      case (check_moves i now inner pc b)
      then show ?thesis
        by (cases "bm_checks u ! i") (auto simp: Let_def split: if_splits breaker_state.splits option.splits)
    qed simp
    with step show ?case
      using breaker_step_inv by simp
  qed (use start in \<open>simp add: breaker_run_new_def\<close>)
  then show ?thesis
    by (auto simp: breaker_inv_def Let_def list_all_iff)
qed

abbreviation lone_run :: "breaker \<Rightarrow> check_point \<Rightarrow> bool list \<Rightarrow> breaker_run" where
  "lone_run b pc rs \<equiv> \<lparr>bm_breaker = b, bm_checks = [pc], bm_recorded = rs\<rparr>"

lemma lone_run_moves:
  assumes "breaker_step\<^sup>*\<^sup>* m (lone_run b pc rs)" "in_range now b" "check_access now inner pc b = (pc', b')"
  shows "breaker_step\<^sup>*\<^sup>* m (lone_run b' pc' (rs @ recorded pc b))"
  using assms(1) check_moves [of 0 "lone_run b pc rs" now inner pc' b'] assms(2,3)
  by (auto intro: rtranclp.rtrancl_into_rtrancl)

text \<open>A breaker with threshold one, and a single check that fails and opens it.\<close>

theorem opens_only_after_failures_witness:
  "\<exists>m. breaker_step\<^sup>*\<^sup>*
      (breaker_run_new (breaker_build 0 (failure_threshold 0 (breaker_cooldown 0 (breaker_wrap ''db''))))) m
    \<and> cb_state (bm_breaker m) = Open \<and> bm_recorded m = [False]
    \<and> cb_failures (bm_breaker m) \<le> 1 \<and> cb_last_opened (bm_breaker m) \<noteq> no_timestamp"
proof -
  let ?b = "breaker_build 0 (failure_threshold 0 (breaker_cooldown 0 (breaker_wrap ''db'')))"
  let ?e = "Http ''down''" and ?start = "breaker_run_new ?b"
  let ?m = "lone_run (?b\<lparr>cb_failures := 1, cb_last_opened := 2, cb_state := Open\<rparr>)
      (Answered True (Some ?e)) [False]"
  have b: "cb_state ?b = Closed" "cb_failures ?b = 0" "cb_threshold ?b = 1" "cb_epoch ?b = 0"
    by (simp_all add: breaker_build_def failure_threshold_def breaker_cooldown_def breaker_wrap_def)
  have now: "in_range 2 c" if "cb_epoch c = 0" for c
    using that by (simp add: in_range_def)
  have "breaker_step\<^sup>*\<^sup>* ?start (lone_run ?b LoadState [])"
    using check_enters [of ?start] by (auto simp: breaker_run_new_def)
  then have "breaker_step\<^sup>*\<^sup>* ?start (lone_run ?b (AskResource ProbeClosed) [])"
    by (rule lone_run_moves [where pc = LoadState and inner = None and now = 2, simplified]) (simp_all add: now b)
  then have "breaker_step\<^sup>*\<^sup>* ?start (lone_run ?b (LoadFailures ?e) [])"
    by (rule lone_run_moves [where inner = "Some ?e" and now = 2 and rs = "[]" and pc = "AskResource ProbeClosed",
        simplified]) (simp_all add: now b)
  then have "breaker_step\<^sup>*\<^sup>* ?start (lone_run ?b (ExchangeFailures 0 ?e) [])"
    by (rule lone_run_moves [where inner = None and now = 2 and rs = "[]" and pc = "LoadFailures ?e", simplified])
      (simp_all add: now b)
  then have "breaker_step\<^sup>*\<^sup>* ?start (lone_run (?b\<lparr>cb_failures := 1\<rparr>) (StoreStamp ?e) [False])"
    using lone_run_moves [where inner = None and now = 2 and rs = "[]" and pc = "ExchangeFailures 0 ?e" and b = ?b]
    by (simp add: now b)
  then have "breaker_step\<^sup>*\<^sup>* ?start
      (lone_run (?b\<lparr>cb_failures := 1, cb_last_opened := 2\<rparr>) (StoreOpen ?e) [False])"
    using lone_run_moves [where inner = None and now = 2 and rs = "[False]" and pc = "StoreStamp ?e"
        and b = "?b\<lparr>cb_failures := 1\<rparr>"] by (simp add: now b)
  then have run: "breaker_step\<^sup>*\<^sup>* ?start ?m"
    using lone_run_moves [where inner = None and now = 2 and rs = "[False]" and pc = "StoreOpen ?e"
        and b = "?b\<lparr>cb_failures := 1, cb_last_opened := 2\<rparr>"] by (simp add: now b)
  show ?thesis
    using run opens_only_after_failures [OF refl run] by (intro exI [of _ ?m]) simp
qed

end
