(* ===== verification/Rust_Text.thy ===== *)
theory Rust_Text
  imports Camber_Prelude
begin

text \<open>
  Two operations of the Rust standard library on text that request parsing relies on:
  the validation of \<open>std::str::from_utf8\<close> and \<open>str::trim\<close>, which removes
  leading and trailing characters with the Unicode property White_Space. Text is its UTF-8 bytes.
\<close>

section \<open>UTF-8 validation\<close>

definition byte_in :: "nat \<Rightarrow> nat \<Rightarrow> char \<Rightarrow> bool" where
  "byte_in lo hi c \<longleftrightarrow> lo \<le> of_char c \<and> of_char c \<le> hi"

abbreviation continuation :: "char \<Rightarrow> bool" where
  "continuation \<equiv> byte_in 0x80 0xBF"

text \<open>The length of the well-formed character a byte string starts with, by its first bytes.\<close>

definition utf8_width :: "string \<Rightarrow> nat option" where
  "utf8_width s =
     (case s of
        [] \<Rightarrow> None
      | a # r \<Rightarrow>
          if byte_in 0 0x7F a then Some 1
          else (case r of
             [] \<Rightarrow> None
           | b # r2 \<Rightarrow>
               if byte_in 0xC2 0xDF a \<and> continuation b then Some 2
               else (case r2 of
                  [] \<Rightarrow> None
                | c # r3 \<Rightarrow>
                    if continuation c \<and>
                       (byte_in 0xE0 0xE0 a \<and> byte_in 0xA0 0xBF b
                        \<or> byte_in 0xE1 0xEC a \<and> continuation b
                        \<or> byte_in 0xED 0xED a \<and> byte_in 0x80 0x9F b
                        \<or> byte_in 0xEE 0xEF a \<and> continuation b) then Some 3
                    else (case r3 of
                       [] \<Rightarrow> None
                     | d # _ \<Rightarrow>
                         if continuation c \<and> continuation d \<and>
                            (byte_in 0xF0 0xF0 a \<and> byte_in 0x90 0xBF b
                             \<or> byte_in 0xF1 0xF3 a \<and> continuation b
                             \<or> byte_in 0xF4 0xF4 a \<and> byte_in 0x80 0x8F b) then Some 4
                         else None))))"

lemma utf8_width_pos: "utf8_width s = Some n \<Longrightarrow> 0 < n \<and> s \<noteq> []"
  by (auto simp: utf8_width_def split: list.splits if_splits)

function utf8_valid :: "string \<Rightarrow> bool" where
  "utf8_valid s =
     (s = [] \<or> (case utf8_width s of None \<Rightarrow> False | Some n \<Rightarrow> utf8_valid (drop n s)))"
  by pat_completeness auto
termination
  by (relation "measure length") (auto dest: utf8_width_pos)

declare utf8_valid.simps [simp del]

lemma utf8_valid_Nil [simp]: "utf8_valid []"
  by (simp add: utf8_valid.simps)

lemma utf8_valid_ascii: "list_all (byte_in 0 0x7F) s \<Longrightarrow> utf8_valid s"
  by (induction s) (simp_all add: utf8_valid.simps [of "_ # _"] utf8_width_def)

section \<open>Trimming\<close>

definition whitespace_encodings :: "string list" where
  "whitespace_encodings =
     [[CHR 0x09], [CHR 0x0A], [CHR 0x0B], [CHR 0x0C], [CHR 0x0D], [CHR 0x20]]
     @ [[CHR 0xC2, CHR 0x85], [CHR 0xC2, CHR 0xA0], [CHR 0xE1, CHR 0x9A, CHR 0x80]]
     @ [[CHR 0xE2, CHR 0x80, CHR 0x80], [CHR 0xE2, CHR 0x80, CHR 0x81], [CHR 0xE2, CHR 0x80, CHR 0x82],
        [CHR 0xE2, CHR 0x80, CHR 0x83], [CHR 0xE2, CHR 0x80, CHR 0x84], [CHR 0xE2, CHR 0x80, CHR 0x85],
        [CHR 0xE2, CHR 0x80, CHR 0x86], [CHR 0xE2, CHR 0x80, CHR 0x87], [CHR 0xE2, CHR 0x80, CHR 0x88],
        [CHR 0xE2, CHR 0x80, CHR 0x89], [CHR 0xE2, CHR 0x80, CHR 0x8A], [CHR 0xE2, CHR 0x80, CHR 0xA8],
        [CHR 0xE2, CHR 0x80, CHR 0xA9], [CHR 0xE2, CHR 0x80, CHR 0xAF]]
     @ [[CHR 0xE2, CHR 0x81, CHR 0x9F], [CHR 0xE3, CHR 0x80, CHR 0x80]]"

function strip_leading :: "string list \<Rightarrow> string \<Rightarrow> string" where
  "strip_leading ws s =
     (case find (\<lambda>w. w \<noteq> [] \<and> take (length w) s = w) ws of
        None \<Rightarrow> s
      | Some w \<Rightarrow> strip_leading ws (drop (length w) s))"
  by pat_completeness auto
termination
proof (relation "measure (length \<circ> snd)")
  fix ws s and w :: string
  assume "find (\<lambda>w. w \<noteq> [] \<and> take (length w) s = w) ws = Some w"
  then have "w \<noteq> []" "take (length w) s = w"
    by (auto simp: find_Some_iff)
  then have "0 < length w" "s \<noteq> []"
    by auto
  then show "((ws, drop (length w) s), (ws, s)) \<in> measure (length \<circ> snd)"
    by simp
qed simp

declare strip_leading.simps [simp del]

definition str_trim :: "string \<Rightarrow> string" where
  "str_trim s =
     rev (strip_leading (map rev whitespace_encodings)
       (rev (strip_leading whitespace_encodings s)))"

lemma strip_leading_suffix: "\<exists>p. s = p @ strip_leading ws s"
proof (induction ws s rule: strip_leading.induct)
  case (1 ws s)
  show ?case
  proof (cases "find (\<lambda>w. w \<noteq> [] \<and> take (length w) s = w) ws")
    case None
    then show ?thesis
      by (simp add: strip_leading.simps [of ws s])
  next
    case (Some w)
    then have "take (length w) s = w"
      by (auto simp: find_Some_iff)
    then have s: "s = w @ drop (length w) s"
      using append_take_drop_id [of "length w" s] by simp
    obtain p where "drop (length w) s = p @ strip_leading ws (drop (length w) s)"
      using 1 [OF Some] by blast
    moreover have "strip_leading ws s = strip_leading ws (drop (length w) s)"
      using Some by (simp add: strip_leading.simps [of ws s])
    ultimately have "s = (w @ p) @ strip_leading ws s"
      using s by simp
    then show ?thesis
      by blast
  qed
qed

lemma strip_leading_fixed:
  "(\<And>w. w \<in> set ws \<Longrightarrow> w \<noteq> [] \<Longrightarrow> take (length w) s \<noteq> w) \<Longrightarrow> strip_leading ws s = s"
  by (subst strip_leading.simps) (auto split: option.splits simp: find_Some_iff)

lemma set_strip_leading: "set (strip_leading ws s) \<subseteq> set s"
proof -
  obtain p where "s = p @ strip_leading ws s"
    using strip_leading_suffix by blast
  then have "set s = set p \<union> set (strip_leading ws s)"
    by (metis set_append)
  then show ?thesis
    by simp
qed

lemma set_str_trim: "set (str_trim s) \<subseteq> set s"
  unfolding str_trim_def set_rev
  by (rule order_trans [OF set_strip_leading]) (simp add: set_strip_leading)

lemma strip_leading_hd:
  assumes "\<And>w. w \<in> set ws \<Longrightarrow> w \<noteq> [] \<Longrightarrow> hd w \<noteq> hd s"
  shows "strip_leading ws s = s"
proof (rule strip_leading_fixed)
  fix w
  assume w: "w \<in> set ws" "w \<noteq> []"
  show "take (length w) s \<noteq> w"
  proof
    assume "take (length w) s = w"
    then have "hd w = hd (take (length w) s)"
      by simp
    also have "\<dots> = hd s"
      using w(2) by (simp add: hd_take)
    finally show False
      using assms [OF w] by simp
  qed
qed

lemma whitespace_ends:
  assumes "w \<in> set whitespace_encodings"
  shows "\<not> byte_in 33 126 (hd w) \<and> \<not> byte_in 33 126 (last w)"
proof -
  have "list_all (\<lambda>w. \<not> byte_in 33 126 (hd w) \<and> \<not> byte_in 33 126 (last w)) whitespace_encodings"
    by (simp add: whitespace_encodings_def byte_in_def)
  with assms show ?thesis
    by (simp add: list_all_iff)
qed

text \<open>Text that starts and ends with visible ASCII characters is left as it is.\<close>

lemma str_trim_visible:
  assumes "byte_in 33 126 (hd s)" "byte_in 33 126 (last s)" "s \<noteq> []"
  shows "str_trim s = s"
proof -
  have "strip_leading whitespace_encodings s = s"
  proof (rule strip_leading_hd)
    fix w
    assume "w \<in> set whitespace_encodings"
    from whitespace_ends [OF this] assms(1) show "hd w \<noteq> hd s"
      by auto
  qed
  moreover have "strip_leading (map rev whitespace_encodings) (rev s) = rev s"
  proof (rule strip_leading_hd)
    fix w
    assume "w \<in> set (map rev whitespace_encodings)" "w \<noteq> []"
    then obtain v where v: "v \<in> set whitespace_encodings" "w = rev v" "v \<noteq> []"
      by auto
    from whitespace_ends [OF v(1)] assms v(2,3) show "hd w \<noteq> hd (rev s)"
      by (auto simp: hd_rev)
  qed
  ultimately show ?thesis
    by (simp add: str_trim_def)
qed

end
