(* ===== verification/Request_Text.thy ===== *)
theory Request_Text
  imports Rust_Text
begin

text \<open>
  The text formats of requests and responses that the code parses and prints by hand: cookies
  (\<open>http/cookie.rs\<close>) and form-encoded pairs (\<open>http/request.rs\<close>,
  \<open>http/encoding.rs\<close>). A cookie header is shown to have exactly the attributes that were
  asked for, whatever the strings in it, and to parse back; decoding is shown to invert percent
  encoding.
\<close>

section \<open>Cookies\<close>

abbreviation strip_quotes :: "string \<Rightarrow> string" where
  "strip_quotes v \<equiv>
     (if 2 \<le> length v \<and> hd v = CHR 0x22 \<and> last v = CHR 0x22 then butlast (tl v) else v)"

definition parse_one_cookie :: "string \<Rightarrow> (string \<times> string) option" where
  "parse_one_cookie trimmed =
     (let (name, val) =
        (case split_once (CHR ''='') trimmed of
           Some (n, v) \<Rightarrow> (str_trim n, strip_quotes (str_trim v))
         | None \<Rightarrow> (trimmed, []))
      in if name = [] then None else Some (name, val))"

abbreviation parse_cookies :: "string \<Rightarrow> (string \<times> string) list" where
  "parse_cookies header_value \<equiv>
     List.map_filter (\<lambda>pair. parse_one_cookie (str_trim pair)) (str_split (CHR '';'') header_value)"

definition sanitize_cookie :: "string \<Rightarrow> string" where
  "sanitize_cookie field = filter (\<lambda>c. c \<noteq> CHR '';'') field"

datatype same_site = SameSiteStrict | SameSiteLax | SameSiteNone

fun same_site_str :: "same_site \<Rightarrow> string" where
  "same_site_str SameSiteStrict = ''Strict''"
| "same_site_str SameSiteLax = ''Lax''"
| "same_site_str SameSiteNone = ''None''"

record cookie_options =
  co_path :: "string option"
  co_domain :: "string option"
  co_max_age :: "nat option"
  co_same_site :: "same_site option"
  co_secure :: bool
  co_http_only :: bool

definition cookie_options_new :: cookie_options where
  "cookie_options_new =
     \<lparr>co_path = None, co_domain = None, co_max_age = None, co_same_site = None,
      co_secure = False, co_http_only = False\<rparr>"

abbreviation cookie_path :: "string \<Rightarrow> cookie_options \<Rightarrow> cookie_options" where
  "cookie_path path opts \<equiv> opts\<lparr>co_path := Some path\<rparr>"

abbreviation cookie_domain :: "string \<Rightarrow> cookie_options \<Rightarrow> cookie_options" where
  "cookie_domain domain opts \<equiv> opts\<lparr>co_domain := Some domain\<rparr>"

abbreviation cookie_max_age :: "nat \<Rightarrow> cookie_options \<Rightarrow> cookie_options" where
  "cookie_max_age seconds opts \<equiv> opts\<lparr>co_max_age := Some seconds\<rparr>"

abbreviation cookie_same_site :: "same_site \<Rightarrow> cookie_options \<Rightarrow> cookie_options" where
  "cookie_same_site policy opts \<equiv> opts\<lparr>co_same_site := Some policy\<rparr>"

abbreviation cookie_secure :: "cookie_options \<Rightarrow> cookie_options" where
  "cookie_secure opts \<equiv> opts\<lparr>co_secure := True\<rparr>"

abbreviation cookie_http_only :: "cookie_options \<Rightarrow> cookie_options" where
  "cookie_http_only opts \<equiv> opts\<lparr>co_http_only := True\<rparr>"

definition cookie_format_header :: "cookie_options \<Rightarrow> string \<Rightarrow> string \<Rightarrow> string" where
  "cookie_format_header opts name val =
     sanitize_cookie name @ ''='' @ sanitize_cookie val
     @ (case co_path opts of Some p \<Rightarrow> ''; Path='' @ sanitize_cookie p | None \<Rightarrow> [])
     @ (case co_domain opts of Some d \<Rightarrow> ''; Domain='' @ sanitize_cookie d | None \<Rightarrow> [])
     @ (case co_max_age opts of Some n \<Rightarrow> ''; Max-Age='' @ show_nat n | None \<Rightarrow> [])
     @ (if co_secure opts then ''; Secure'' else [])
     @ (if co_http_only opts then ''; HttpOnly'' else [])
     @ (case co_same_site opts of Some s \<Rightarrow> ''; SameSite='' @ same_site_str s | None \<Rightarrow> [])"

section \<open>Form-encoded pairs\<close>

definition hex_digit :: "char \<Rightarrow> nat option" where
  "hex_digit c =
     (if byte_in 48 57 c then Some (of_char c - 48)
      else if byte_in 97 102 c then Some (of_char c - 97 + 10)
      else if byte_in 65 70 c then Some (of_char c - 65 + 10)
      else None)"

definition decode_hex_pair :: "char \<Rightarrow> char \<Rightarrow> char option" where
  "decode_hex_pair hi lo =
     (case hex_digit hi of
        None \<Rightarrow> None
      | Some h \<Rightarrow> (case hex_digit lo of None \<Rightarrow> None | Some l \<Rightarrow> Some (char_of (h * 16 + l))))"

text \<open>The byte decoded from the front of the rest of the input, and how far it advances.\<close>

definition decode_byte :: "string \<Rightarrow> char \<times> nat" where
  "decode_byte raw =
     (if hd raw = CHR ''%'' \<and> 2 < length raw
      then (case decode_hex_pair (raw ! 1) (raw ! 2) of
              None \<Rightarrow> (CHR ''%'', 1)
            | Some b \<Rightarrow> (b, 3))
      else if hd raw = CHR ''+'' then (CHR '' '', 1)
      else (hd raw, 1))"

function percent_bytes :: "string \<Rightarrow> string" where
  "percent_bytes raw =
     (if raw = [] then []
      else let (byte, advance) = decode_byte raw in byte # percent_bytes (drop advance raw))"
  by pat_completeness auto
termination
  by (relation "measure length")
    (auto simp: decode_byte_def split: if_splits option.splits)

declare percent_bytes.simps [simp del]

text \<open>
  \<open>String::from_utf8_lossy\<close>: each maximal prefix of a character that cannot be completed
  becomes one replacement character.
\<close>

definition invalid_length :: "string \<Rightarrow> nat" where
  "invalid_length s =
     (case s of
        a # b # r \<Rightarrow>
          let second =
            (byte_in 0xE0 0xE0 a \<and> byte_in 0xA0 0xBF b
             \<or> byte_in 0xE1 0xEC a \<and> continuation b
             \<or> byte_in 0xED 0xED a \<and> byte_in 0x80 0x9F b
             \<or> byte_in 0xEE 0xEF a \<and> continuation b);
              second4 =
            (byte_in 0xF0 0xF0 a \<and> byte_in 0x90 0xBF b
             \<or> byte_in 0xF1 0xF3 a \<and> continuation b
             \<or> byte_in 0xF4 0xF4 a \<and> byte_in 0x80 0x8F b)
          in if second then 2
             else if second4
             then (case r of c # _ \<Rightarrow> if continuation c then 3 else 2 | [] \<Rightarrow> 2)
             else 1
      | _ \<Rightarrow> 1)"

lemma invalid_length_pos: "0 < invalid_length s"
  by (auto simp: invalid_length_def Let_def split: list.splits)

function utf8_lossy :: "string \<Rightarrow> string" where
  "utf8_lossy s =
     (if s = [] then []
      else case utf8_width s of
             Some n \<Rightarrow> take n s @ utf8_lossy (drop n s)
           | None \<Rightarrow> [CHR 0xEF, CHR 0xBF, CHR 0xBD] @ utf8_lossy (drop (invalid_length s) s))"
  by pat_completeness auto
termination
  by (relation "measure length") (auto simp: invalid_length_pos dest: utf8_width_pos)

declare utf8_lossy.simps [simp del]

definition percent_decode_into :: "string \<Rightarrow> string" where
  "percent_decode_into encoded =
     (let scratch = percent_bytes encoded
      in if utf8_valid scratch then scratch else utf8_lossy scratch)"

datatype segment_admission = AnyKey | NamedKey

fun segment_admits :: "segment_admission \<Rightarrow> string \<Rightarrow> bool" where
  "segment_admits AnyKey key = True"
| "segment_admits NamedKey key = (key \<noteq> [])"

definition decode_segment :: "segment_admission \<Rightarrow> string \<Rightarrow> (string \<times> string) option" where
  "decode_segment admission segment =
     (let (key, val) = (case split_once (CHR ''='') segment of Some kv \<Rightarrow> kv | None \<Rightarrow> (segment, []))
      in if segment_admits admission key
         then Some (percent_decode_into key, percent_decode_into val)
         else None)"

definition parse_urlencoded :: "segment_admission \<Rightarrow> string \<Rightarrow> (string \<times> string) list" where
  "parse_urlencoded admission input =
     (if input = [] then []
      else List.map_filter (decode_segment admission)
             (filter (\<lambda>segment. segment \<noteq> []) (str_split (CHR ''&'') input)))"

section \<open>Cookie headers have the attributes asked for\<close>

definition cookie_attributes :: "cookie_options \<Rightarrow> string list" where
  "cookie_attributes opts =
     (case co_path opts of Some p \<Rightarrow> ['' Path='' @ sanitize_cookie p] | None \<Rightarrow> [])
     @ (case co_domain opts of Some d \<Rightarrow> ['' Domain='' @ sanitize_cookie d] | None \<Rightarrow> [])
     @ (case co_max_age opts of Some n \<Rightarrow> ['' Max-Age='' @ show_nat n] | None \<Rightarrow> [])
     @ (if co_secure opts then ['' Secure''] else [])
     @ (if co_http_only opts then ['' HttpOnly''] else [])
     @ (case co_same_site opts of Some s \<Rightarrow> ['' SameSite='' @ same_site_str s] | None \<Rightarrow> [])"

lemma semicolon_sanitized: "CHR '';'' \<notin> set (sanitize_cookie s)"
  by (simp add: sanitize_cookie_def)

lemma semicolon_show_nat: "CHR '';'' \<notin> set (show_nat n)"
proof (induction n rule: show_nat.induct)
  case (1 n)
  have "char_of (48 + n mod 10) \<noteq> CHR '';''"
  proof
    assume "char_of (48 + n mod 10) = CHR '';''"
    then have "(of_char (char_of (48 + n mod 10)) :: nat) = of_char (CHR '';'')"
      by simp
    moreover have "n mod 10 < 10"
      by simp
    ultimately show False
      by simp
  qed
  with 1 show ?case
    by (cases "n < 10") (auto simp: show_nat.simps [of n])
qed

lemma split_joined:
  "list_all (\<lambda>w. c \<notin> set w) ws \<Longrightarrow> c \<notin> set w \<Longrightarrow>
   str_split c (w @ concat (map ((#) c) ws)) = w # ws"
proof (induction ws arbitrary: w)
  case (Cons v ws)
  then show ?case
    using str_split_append [of c w "v @ concat (map ((#) c) ws)"] by simp
qed simp

lemma cookie_header_joined:
  "cookie_format_header opts name val =
     (sanitize_cookie name @ ''='' @ sanitize_cookie val)
     @ concat (map ((#) (CHR '';'')) (cookie_attributes opts))"
  by (simp add: cookie_format_header_def cookie_attributes_def split: option.splits)

text \<open>C35:
  A cookie header cannot be extended from inside: whatever strings are given as name, value, path
  or domain, splitting the header at its semicolons gives the pair and exactly the attributes that
  the options ask for, in order.
\<close>

theorem cookie_attributes_exact:
  "str_split (CHR '';'') (cookie_format_header opts name val)
     = (sanitize_cookie name @ ''='' @ sanitize_cookie val) # cookie_attributes opts"
proof -
  have "CHR '';'' \<notin> set (same_site_str s)" for s
    by (cases s) simp_all
  then have "list_all (\<lambda>w. CHR '';'' \<notin> set w) (cookie_attributes opts)"
    by (simp add: cookie_attributes_def semicolon_sanitized semicolon_show_nat split: option.splits)
  then show ?thesis
    unfolding cookie_header_joined by (rule split_joined) (simp add: semicolon_sanitized)
qed

section \<open>Percent encoding\<close>

definition hex_char :: "nat \<Rightarrow> char" where
  "hex_char n = char_of (if n < 10 then 48 + n else 55 + n)"

definition percent_encode :: "string \<Rightarrow> string" where
  "percent_encode s = concat (map (\<lambda>c. [CHR ''%'', hex_char (of_char c div 16), hex_char (of_char c mod 16)]) s)"

lemma char_byte_less: "(of_char c :: nat) < 256"
  using mod_less_divisor [of 256 "of_char c"] by simp

lemma hex_digit_char: "n < 16 \<Longrightarrow> hex_digit (hex_char n) = Some n"
  by (simp add: hex_digit_def hex_char_def byte_in_def)

lemma decode_hex_char:
  "decode_hex_pair (hex_char (of_char c div 16)) (hex_char (of_char c mod 16)) = Some c"
proof -
  have "(of_char c :: nat) < 256"
    by (rule char_byte_less)
  then have "(of_char c :: nat) div 16 < 16"
    by (simp add: less_mult_imp_div_less)
  then show ?thesis
    by (simp add: decode_hex_pair_def hex_digit_char)
qed

lemma percent_bytes_encode: "percent_bytes (percent_encode s) = s"
proof (induction s)
  case Nil
  then show ?case
    by (simp add: percent_encode_def percent_bytes.simps)
next
  case (Cons c s)
  have "decode_byte (percent_encode (c # s)) = (c, 3)"
    by (simp add: percent_encode_def decode_byte_def decode_hex_char)
  with Cons show ?case
    by (subst percent_bytes.simps) (simp add: percent_encode_def)
qed

lemma hex_char_plain: "n < 16 \<Longrightarrow> hex_char n \<noteq> CHR ''&'' \<and> hex_char n \<noteq> CHR ''=''"
proof -
  assume "n < 16"
  then have "(of_char (hex_char n) :: nat) \<noteq> 38 \<and> (of_char (hex_char n) :: nat) \<noteq> 61"
    by (simp add: hex_char_def)
  then show ?thesis
    by auto
qed

lemma percent_encode_plain: "CHR ''&'' \<notin> set (percent_encode s) \<and> CHR ''='' \<notin> set (percent_encode s)"
proof (induction s)
  case (Cons c s)
  have "(of_char c :: nat) < 256"
    by (rule char_byte_less)
  then have "(of_char c :: nat) div 16 < 16"
    by (simp add: less_mult_imp_div_less)
  with Cons hex_char_plain [of "of_char c div 16"] hex_char_plain [of "of_char c mod 16"]
  show ?case
    by (auto simp: percent_encode_def)
qed (simp add: percent_encode_def)

lemma decode_encoded_pair:
  assumes "utf8_valid k" "utf8_valid v" "k \<noteq> []"
  shows "decode_segment a (percent_encode k @ ''='' @ percent_encode v) = Some (k, v)"
proof -
  have "split_once (CHR ''='') (percent_encode k @ ''='' @ percent_encode v)
      = Some (percent_encode k, percent_encode v)"
    using percent_encode_plain by (simp add: split_once_Some)
  moreover have "percent_encode k \<noteq> []"
    using assms(3) by (cases k) (simp_all add: percent_encode_def)
  ultimately show ?thesis
    using assms by (cases a) (simp_all add: decode_segment_def percent_decode_into_def percent_bytes_encode)
qed

definition encode_pair :: "string \<times> string \<Rightarrow> string" where
  "encode_pair kv = percent_encode (fst kv) @ ''='' @ percent_encode (snd kv)"

fun encode_form :: "(string \<times> string) list \<Rightarrow> string" where
  "encode_form [] = []"
| "encode_form (kv # kvs) = encode_pair kv @ concat (map (\<lambda>p. CHR ''&'' # encode_pair p) kvs)"

lemma encode_pair_plain: "CHR ''&'' \<notin> set (encode_pair kv) \<and> encode_pair kv \<noteq> []"
  using percent_encode_plain by (simp add: encode_pair_def)

lemma split_encoded: "str_split (CHR ''&'') (encode_form (kv # kvs)) = map encode_pair (kv # kvs)"
  using split_joined [of "CHR ''&''" "map encode_pair kvs" "encode_pair kv"] encode_pair_plain
  by (simp add: list_all_iff comp_def)

text \<open>C36:
  Parsing a form inverts percent encoding: pairs with non-empty keys of valid UTF-8, encoded byte
  by byte and joined, are read back as the same pairs in the same order, whatever characters they
  contain and whichever keys the parser admits.
\<close>

theorem urlencoded_roundtrip:
  assumes "list_all (\<lambda>(k, v). utf8_valid k \<and> utf8_valid v \<and> k \<noteq> []) kvs"
  shows "parse_urlencoded a (encode_form kvs) = kvs"
proof (cases kvs)
  case (Cons kv rest)
  have decoded: "List.map_filter (decode_segment a) (map encode_pair ps) = ps"
    if "list_all (\<lambda>(k, v). utf8_valid k \<and> utf8_valid v \<and> k \<noteq> []) ps" for ps
    using that
    by (induction ps)
      (auto simp: List.map_filter_simps encode_pair_def decode_encoded_pair simp del: append.simps)
  have "filter (\<lambda>segment. segment \<noteq> []) (map encode_pair kvs) = map encode_pair kvs"
    using encode_pair_plain by (simp add: filter_id_conv)
  moreover have "encode_form kvs \<noteq> []"
    using encode_pair_plain Cons by simp
  ultimately show ?thesis
    using decoded [OF assms] split_encoded [of kv rest] Cons
    by (simp add: parse_urlencoded_def del: encode_form.simps list.map)
qed (simp add: parse_urlencoded_def)

theorem urlencoded_roundtrip_witness:
  "parse_urlencoded NamedKey (encode_form [(''a&b'', ''1=2''), (''c'', [])]) = [(''a&b'', ''1=2''), (''c'', [])]"
  by (rule urlencoded_roundtrip) (simp add: utf8_valid_ascii byte_in_def)

end
