(* ===== verification/Response_Commitment.thy ===== *)
theory Response_Commitment
  imports Response_Origin
begin

text \<open>
  The set-once commitment of an operation's response, from \<open>http/response_commitment.rs\<close>.
  Producers on several tasks share one cell behind a lock; each attempt is one critical section,
  so concurrent attempts are some sequence of calls. What the commitment tells the completion
  account is the list \<open>oc_account\<close>, oldest first. The terminal causes of an operation are
  values of the type \<open>'t\<close>. The test observer is left out.
\<close>

section \<open>The cell\<close>

datatype 't response_commit = CommitHead response_origin | CommitCause 't

datatype account_entry = AccountOrigin response_origin | AccountUncommittedHead

record 't operation_commitment =
  oc_id :: nat
  oc_committed :: "'t response_commit option"
  oc_account :: "account_entry list"

definition commitment_minted :: "nat \<Rightarrow> 't operation_commitment" where
  "commitment_minted ident = \<lparr>oc_id = ident, oc_committed = None, oc_account = []\<rparr>"

definition commit ::
  "'t response_commit \<Rightarrow> 't operation_commitment
   \<Rightarrow> ('t response_commit + unit) \<times> 't operation_commitment"
where
  "commit attempt oc =
     (case oc_committed oc of
        Some committed \<Rightarrow> (Inl committed, oc)
      | None \<Rightarrow> (Inr (), oc\<lparr>oc_committed := Some attempt\<rparr>))"

definition record_head :: "response_origin \<Rightarrow> 't operation_commitment \<Rightarrow> 't operation_commitment" where
  "record_head origin oc =
     (case commit (CommitHead origin) oc of
        (Inr _, oc') \<Rightarrow> oc'\<lparr>oc_account := oc_account oc' @ [AccountOrigin origin]\<rparr>
      | (Inl _, oc') \<Rightarrow> oc')"

definition commit_cause ::
  "'t \<Rightarrow> 't operation_commitment \<Rightarrow> ('t response_commit + unit) \<times> 't operation_commitment"
where
  "commit_cause terminal oc =
     (case commit (CommitCause terminal) oc of
        (Inr u, oc') \<Rightarrow> (Inr u, oc'\<lparr>oc_account := oc_account oc' @ [AccountUncommittedHead]\<rparr>)
      | (Inl committed, oc') \<Rightarrow> (Inl committed, oc'))"

section \<open>The first attempt wins\<close>

definition attempt :: "'t response_commit \<Rightarrow> 't operation_commitment \<Rightarrow> 't operation_commitment" where
  "attempt a oc = (case a of CommitHead origin \<Rightarrow> record_head origin oc
                          | CommitCause t \<Rightarrow> snd (commit_cause t oc))"

fun account_of :: "'t response_commit \<Rightarrow> account_entry" where
  "account_of (CommitHead origin) = AccountOrigin origin"
| "account_of (CommitCause t) = AccountUncommittedHead"

lemma attempt_taken: "oc_committed oc = Some w \<Longrightarrow> attempt a oc = oc"
  by (cases a) (simp_all add: attempt_def record_head_def commit_cause_def commit_def)

lemma attempt_free:
  "oc_committed oc = None \<Longrightarrow>
   attempt a oc = oc\<lparr>oc_committed := Some a, oc_account := oc_account oc @ [account_of a]\<rparr>"
  by (cases a) (simp_all add: attempt_def record_head_def commit_cause_def commit_def)

lemma attempts_taken: "oc_committed oc = Some w \<Longrightarrow> fold attempt as oc = oc"
  by (induction as) (simp_all add: attempt_taken)

text \<open>C37:
  In whatever order producers and causes reach the cell of an operation, the first one owns the
  answer for good: the cell holds it after any number of attempts, the account has exactly one
  entry and it names the winner, and a cause that comes later is told who won and changes nothing.
\<close>

theorem commitment_first_wins:
  "oc_committed (fold attempt (a # as) (commitment_minted i)) = Some a
   \<and> oc_account (fold attempt (a # as) (commitment_minted i)) = [account_of a]
   \<and> commit_cause t (fold attempt (a # as) (commitment_minted i))
      = (Inl a, fold attempt (a # as) (commitment_minted i))"
proof -
  let ?won = "(commitment_minted i)\<lparr>oc_committed := Some a, oc_account := [account_of a]\<rparr>"
  have "fold attempt (a # as) (commitment_minted i) = ?won"
    by (simp add: attempt_free attempts_taken [of _ a] commitment_minted_def)
  then show ?thesis
    by (simp add: commit_cause_def commit_def)
qed

end
