(* ===== verification/Multipart_Grammar.thy ===== *)
theory Multipart_Grammar
  imports Runtime_Error Rust_Text
begin

text \<open>
  The grammar both multipart parsers share, from \<open>http/multipart/grammar.rs\<close>: header
  parameters with their quoting, the boundary of a request, the header block of a part, and the
  search for delimiters. Text is its UTF-8 bytes. The code walks quoted text character by
  character; every byte of a character outside ASCII is at least 128 and is treated like the
  character, so the walk is written byte by byte. An iterator over parameters that is consumed
  with early returns is a fold that stops at the first error.
\<close>

abbreviation malformed :: "string \<Rightarrow> runtime_error" where
  "malformed \<equiv> MultipartInvalid"

abbreviation CR :: char where "CR \<equiv> CHR 0x0D"
abbreviation LF :: char where "LF \<equiv> CHR 0x0A"

abbreviation protocol_max_boundary_bytes :: nat where
  "protocol_max_boundary_bytes \<equiv> 70"

abbreviation delimiter_prefix :: string where
  "delimiter_prefix \<equiv> [CR, LF, CHR ''-'', CHR ''-'']"

abbreviation body_prefix :: string where
  "body_prefix \<equiv> ''--''"

abbreviation header_terminator :: string where
  "header_terminator \<equiv> [CR, LF, CR, LF]"

abbreviation invalid_quoted_parameter :: string where
  "invalid_quoted_parameter \<equiv> ''invalid multipart quoted parameter''"

abbreviation invalid_header_parameter :: string where
  "invalid_header_parameter \<equiv> ''invalid multipart header parameter''"

abbreviation invalid_boundary :: string where
  "invalid_boundary \<equiv> ''missing or invalid multipart boundary''"

abbreviation invalid_content_disposition :: string where
  "invalid_content_disposition \<equiv> ''invalid multipart content-disposition''"

abbreviation invalid_part_headers :: string where
  "invalid_part_headers \<equiv> ''invalid multipart part headers''"

abbreviation invalid_delimiter_framing :: string where
  "invalid_delimiter_framing \<equiv> ''invalid multipart delimiter framing''"

section \<open>Parameters\<close>

definition is_token :: "string \<Rightarrow> bool" where
  "is_token val \<longleftrightarrow> val \<noteq> []
     \<and> list_all (\<lambda>c. is_ascii_alphanumeric c
          \<or> c \<in> set (CHR 0x27 # CHR 0x60 # ''!#$%&*+-.^_|~'')) val"

datatype parameter_value = Quoted string | Unquoted string

definition is_quoted_text :: "char \<Rightarrow> bool" where
  "is_quoted_text ch \<longleftrightarrow>
     of_char ch \<in> {9, 32, 33 :: nat} \<or> byte_in 35 91 ch \<or> byte_in 93 126 ch \<or> byte_in 128 255 ch"

definition is_quoted_pair_value :: "char \<Rightarrow> bool" where
  "is_quoted_pair_value ch \<longleftrightarrow> of_char ch = (9 :: nat) \<or> byte_in 32 126 ch \<or> byte_in 128 255 ch"

fun validate_quoted_value :: "string \<Rightarrow> runtime_error + unit" where
  "validate_quoted_value [] = Inr ()"
| "validate_quoted_value (ch # cs) =
     (if ch = CHR 0x5C
      then (case cs of
              escaped # rest \<Rightarrow>
                if is_quoted_pair_value escaped then validate_quoted_value rest
                else Inl (malformed invalid_quoted_parameter)
            | [] \<Rightarrow> Inl (malformed invalid_quoted_parameter))
      else if is_quoted_text ch then validate_quoted_value cs
      else Inl (malformed invalid_quoted_parameter))"

fun unescape :: "bool \<Rightarrow> string \<Rightarrow> string" where
  "unescape escaped [] = []"
| "unescape escaped (ch # cs) =
     (if escaped then ch # unescape False cs
      else if ch = CHR 0x5C then unescape True cs
      else ch # unescape False cs)"

definition decode_quoted_value :: "string \<Rightarrow> string" where
  "decode_quoted_value val = (if CHR 0x5C \<notin> set val then val else unescape False val)"

fun parameter_decode :: "parameter_value \<Rightarrow> string" where
  "parameter_decode (Unquoted val) = val"
| "parameter_decode (Quoted val) = decode_quoted_value val"

definition parse_parameter_value :: "string \<Rightarrow> runtime_error + parameter_value" where
  "parse_parameter_value val =
     (case val of
        ch # quoted \<Rightarrow>
          if ch = CHR 0x22
          then if quoted \<noteq> [] \<and> last quoted = CHR 0x22
               then (case validate_quoted_value (butlast quoted) of
                       Inl e \<Rightarrow> Inl e
                     | Inr _ \<Rightarrow> Inr (Quoted (butlast quoted)))
               else Inl (malformed invalid_quoted_parameter)
          else if is_token val then Inr (Unquoted val)
          else Inl (malformed ''invalid multipart unquoted parameter'')
      | [] \<Rightarrow> Inl (malformed ''invalid multipart unquoted parameter''))"

definition parse_parameter :: "string \<Rightarrow> runtime_error + (string \<times> parameter_value)" where
  "parse_parameter segment =
     (case split_once (CHR ''='') segment of
        None \<Rightarrow> Inl (malformed invalid_header_parameter)
      | Some (key, val) \<Rightarrow>
          if is_token (str_trim key)
          then (case parse_parameter_value (str_trim val) of
                  Inl e \<Rightarrow> Inl e
                | Inr v \<Rightarrow> Inr (str_trim key, v))
          else Inl (malformed ''invalid multipart parameter name''))"

text \<open>The walk of the code, with what precedes the current character.\<close>

fun scan_parameter :: "bool \<Rightarrow> bool \<Rightarrow> string \<Rightarrow> string \<Rightarrow> bool + (string \<times> string)" where
  "scan_parameter in_quotes escaped seen [] = Inl (in_quotes \<or> escaped)"
| "scan_parameter in_quotes escaped seen (ch # cs) =
     (if in_quotes \<and> escaped then scan_parameter in_quotes False (seen @ [ch]) cs
      else if in_quotes \<and> ch = CHR 0x5C then scan_parameter in_quotes True (seen @ [ch]) cs
      else if in_quotes \<and> ch = CHR 0x22 then scan_parameter False escaped (seen @ [ch]) cs
      else if \<not> in_quotes \<and> ch = CHR 0x22 then scan_parameter True escaped (seen @ [ch]) cs
      else if \<not> in_quotes \<and> ch = CHR '';'' then Inr (seen, cs)
      else scan_parameter in_quotes escaped (seen @ [ch]) cs)"

definition split_next_parameter :: "string \<Rightarrow> runtime_error + (string \<times> string option)" where
  "split_next_parameter input =
     (case scan_parameter False False [] input of
        Inr (seen, remaining) \<Rightarrow>
          if str_trim seen = [] then Inl (malformed invalid_header_parameter)
          else Inr (str_trim seen, Some remaining)
      | Inl unclosed \<Rightarrow>
          if unclosed then Inl (malformed invalid_quoted_parameter)
          else if str_trim input = [] then Inl (malformed invalid_header_parameter)
          else Inr (str_trim input, None))"

lemma scan_parameter_rest:
  "scan_parameter q e seen s = Inr (seen', rest) \<Longrightarrow>
   length seen' + length rest < length seen + length s"
  by (induction q e seen s rule: scan_parameter.induct) (auto split: if_splits)

function fold_parameters ::
  "(string \<times> parameter_value \<Rightarrow> 's \<Rightarrow> runtime_error + 's) \<Rightarrow> string option \<Rightarrow> 's \<Rightarrow> runtime_error + 's"
where
  "fold_parameters f None s = Inr s"
| "fold_parameters f (Some remaining) s =
     (case split_next_parameter remaining of
        Inl e \<Rightarrow> Inl e
      | Inr (segment, rest) \<Rightarrow>
          (case parse_parameter segment of
             Inl e \<Rightarrow> Inl e
           | Inr parameter \<Rightarrow>
               (case f parameter s of
                  Inl e \<Rightarrow> Inl e
                | Inr s' \<Rightarrow> fold_parameters f rest s')))"
  by pat_completeness auto
termination
proof (relation "measure (\<lambda>(_, r, _). case r of None \<Rightarrow> 0 | Some s \<Rightarrow> Suc (length s))", goal_cases)
  case (2 f remaining s x segment rest)
  then show ?case
    by (auto simp: split_next_parameter_def split: sum.splits prod.splits if_splits option.splits
        dest: scan_parameter_rest)
qed simp

definition split_header_params :: "string \<Rightarrow> runtime_error + (string \<times> string option)" where
  "split_header_params header =
     (let (head, remaining) =
        (case split_once (CHR '';'') header of
           Some (head, parameters) \<Rightarrow> (str_trim head, Some parameters)
         | None \<Rightarrow> (str_trim header, None))
      in if head = [] then Inl (malformed ''invalid multipart header'') else Inr (head, remaining))"

section \<open>Boundaries\<close>

definition is_boundary_char :: "char \<Rightarrow> bool" where
  "is_boundary_char c \<longleftrightarrow> is_ascii_alphanumeric c \<or> c \<in> set (CHR 0x27 # ''()+_,-./:=? '')"

definition validate_boundary_within :: "string \<Rightarrow> nat \<Rightarrow> runtime_error + unit" where
  "validate_boundary_within boundary max_bytes =
     (let valid_length =
            (1 \<le> length boundary \<and> length boundary \<le> min max_bytes protocol_max_boundary_bytes);
          valid_characters = list_all is_boundary_char boundary;
          valid_ending = (boundary = [] \<or> last boundary \<noteq> CHR '' '')
      in if valid_length \<and> valid_characters \<and> valid_ending then Inr ()
         else Inl (malformed invalid_boundary))"

definition extract_boundary_within :: "string \<Rightarrow> nat \<Rightarrow> runtime_error + string" where
  "extract_boundary_within content_type max_bytes =
     (case split_header_params content_type of
        Inl e \<Rightarrow> Inl e
      | Inr (media_type, params) \<Rightarrow>
          if \<not> eq_ignore_ascii_case media_type ''multipart/form-data''
          then Inl (malformed invalid_boundary)
          else
            (case fold_parameters
                    (\<lambda>(name, val) boundary.
                       if eq_ignore_ascii_case name ''boundary''
                       then if boundary \<noteq> None then Inl (malformed invalid_boundary)
                            else (case validate_boundary_within (parameter_decode val) max_bytes of
                                    Inl e \<Rightarrow> Inl e
                                  | Inr _ \<Rightarrow> Inr (Some (parameter_decode val)))
                       else Inr boundary)
                    params None of
               Inl e \<Rightarrow> Inl e
             | Inr None \<Rightarrow> Inl (malformed invalid_boundary)
             | Inr (Some boundary) \<Rightarrow> Inr boundary))"

section \<open>Header blocks\<close>

record part_headers =
  pt_name :: "string option"
  pt_filename :: "string option"
  pt_content_type :: "string option"

definition set_owned_param_once ::
  "string option \<Rightarrow> parameter_value \<Rightarrow> string \<Rightarrow> string \<Rightarrow> runtime_error + string option"
where
  "set_owned_param_once slot val duplicate unnamed =
     (if slot \<noteq> None then Inl (malformed duplicate)
      else let decoded = parameter_decode val
           in if decoded = [] then Inl (malformed unnamed) else Inr (Some decoded))"

definition absorb_disposition_parameters ::
  "string option \<Rightarrow> part_headers \<Rightarrow> runtime_error + part_headers"
where
  "absorb_disposition_parameters parameters =
     fold_parameters
       (\<lambda>(name, val) h.
          if eq_ignore_ascii_case name ''name''
          then (case set_owned_param_once (pt_name h) val
                       ''multipart content-disposition repeats the name parameter''
                       ''multipart content-disposition names an empty field'' of
                  Inl e \<Rightarrow> Inl e
                | Inr slot \<Rightarrow> Inr (h\<lparr>pt_name := slot\<rparr>))
          else if eq_ignore_ascii_case name ''filename''
          then (case set_owned_param_once (pt_filename h) val
                       ''multipart content-disposition repeats the filename parameter''
                       ''multipart content-disposition carries an empty filename'' of
                  Inl e \<Rightarrow> Inl e
                | Inr slot \<Rightarrow> Inr (h\<lparr>pt_filename := slot\<rparr>))
          else Inr h)
       parameters"

definition absorb_disposition :: "string \<Rightarrow> part_headers \<Rightarrow> runtime_error + part_headers" where
  "absorb_disposition header_value h =
     (case split_header_params header_value of
        Inl e \<Rightarrow> Inl e
      | Inr (disposition, parameters) \<Rightarrow>
          if \<not> eq_ignore_ascii_case disposition ''form-data''
          then Inl (malformed invalid_content_disposition)
          else (case absorb_disposition_parameters parameters h of
                  Inl e \<Rightarrow> Inl e
                | Inr h' \<Rightarrow>
                    if pt_name h' \<noteq> None then Inr h'
                    else Inl (malformed invalid_content_disposition)))"

definition absorb :: "string \<Rightarrow> string \<Rightarrow> part_headers \<Rightarrow> runtime_error + part_headers" where
  "absorb header_name header_value h =
     (if eq_ignore_ascii_case header_name ''content-disposition''
      then if pt_name h \<noteq> None then Inl (malformed invalid_content_disposition)
           else absorb_disposition header_value h
      else if eq_ignore_ascii_case header_name ''content-type''
      then if pt_content_type h \<noteq> None then Inl (malformed invalid_part_headers)
           else Inr (h\<lparr>pt_content_type := Some header_value\<rparr>)
      else Inr h)"

text \<open>\<open>str::split\<close> at the two-byte pattern CR LF.\<close>

fun split_crlf :: "string \<Rightarrow> string list" where
  "split_crlf [] = [[]]"
| "split_crlf [c] = [[c]]"
| "split_crlf (c # d # cs) =
     (if c = CR \<and> d = LF then [] # split_crlf cs
      else (case split_crlf (d # cs) of
              w # ws \<Rightarrow> (c # w) # ws
            | [] \<Rightarrow> [[c]]))"

fun absorb_lines :: "string list \<Rightarrow> part_headers \<Rightarrow> runtime_error + part_headers" where
  "absorb_lines [] h = Inr h"
| "absorb_lines (line # ls) h =
     (case split_once (CHR '':'') line of
        None \<Rightarrow> Inl (malformed invalid_part_headers)
      | Some (name, val) \<Rightarrow>
          (case absorb (str_trim name) (str_trim val) h of
             Inl e \<Rightarrow> Inl e
           | Inr h' \<Rightarrow> absorb_lines ls h'))"

definition parse_header_block :: "string \<Rightarrow> runtime_error + part_headers" where
  "parse_header_block raw =
     (if utf8_valid raw
      then absorb_lines (split_crlf raw) \<lparr>pt_name = None, pt_filename = None, pt_content_type = None\<rparr>
      else Inl (malformed invalid_part_headers))"

text \<open>The number of windows of two bytes that are CR LF, and one more.\<close>

fun crlf_windows :: "string \<Rightarrow> nat" where
  "crlf_windows (c # d # cs) = (if c = CR \<and> d = LF then 1 else 0) + crlf_windows (d # cs)"
| "crlf_windows _ = 0"

definition header_line_count :: "string \<Rightarrow> nat" where
  "header_line_count raw = (if raw = [] then 0 else crlf_windows raw + 1)"

section \<open>Delimiters\<close>

text \<open>The first window of a non-empty pattern.\<close>

fun window_position :: "string \<Rightarrow> string \<Rightarrow> nat option" where
  "window_position needle [] = None"
| "window_position needle (c # cs) =
     (if take (length needle) (c # cs) = needle then Some 0
      else map_option Suc (window_position needle cs))"

definition find_bytes :: "string \<Rightarrow> string \<Rightarrow> nat \<Rightarrow> nat option" where
  "find_bytes haystack needle start =
     (if length haystack \<le> start \<or> needle = [] then None
      else map_option (\<lambda>pos. pos + start) (window_position needle (drop start haystack)))"

text \<open>\<open>slice::get\<close> of a range.\<close>

definition get_range :: "string \<Rightarrow> nat \<Rightarrow> nat \<Rightarrow> string option" where
  "get_range s a b = (if a \<le> b \<and> b \<le> length s then Some (take (b - a) (drop a s)) else None)"

definition opens_body :: "string \<Rightarrow> string \<Rightarrow> bool" where
  "opens_body bytes boundary \<longleftrightarrow>
     take 2 bytes = body_prefix \<and> take (length boundary) (drop 2 bytes) = boundary"

definition delimiter_carry_over :: "nat \<Rightarrow> nat" where
  "delimiter_carry_over boundary_bytes = boundary_bytes + (length delimiter_prefix + 2 - 1)"

definition delimiter_suffix_closes :: "string option \<Rightarrow> bool option" where
  "delimiter_suffix_closes suffix =
     (if suffix = Some [CR, LF] then Some False
      else if suffix = Some ''--'' then Some True
      else None)"

definition delimiter_closes_at :: "string \<Rightarrow> nat \<Rightarrow> runtime_error + bool" where
  "delimiter_closes_at bytes at =
     (case delimiter_suffix_closes (get_range bytes at (at + 2)) of
        Some closes \<Rightarrow> Inr closes
      | None \<Rightarrow> Inl (malformed invalid_delimiter_framing))"

definition epilogue_closes :: "string \<Rightarrow> runtime_error + bool" where
  "epilogue_closes bytes =
     (if bytes = [] \<or> bytes = [CR, LF] then Inr True
      else if bytes = [CR] then Inr False
      else Inl (malformed invalid_delimiter_framing))"

lemma window_position_less: "window_position n s = Some p \<Longrightarrow> p < length s"
  by (induction n s arbitrary: p rule: window_position.induct) (auto split: if_splits)

lemma find_bytes_bounds:
  "find_bytes h n start = Some p \<Longrightarrow> start \<le> p \<and> p < length h"
  by (auto simp: find_bytes_def split: if_splits dest: window_position_less)

function find_delimiter :: "string \<Rightarrow> string \<Rightarrow> nat \<Rightarrow> nat option" where
  "find_delimiter body boundary start =
     (case find_bytes body delimiter_prefix start of
        None \<Rightarrow> None
      | Some pos \<Rightarrow>
          let boundary_start = pos + length delimiter_prefix;
              suffix = boundary_start + length boundary;
              boundary_matches = (get_range body boundary_start suffix = Some boundary);
              suffix_bytes = get_range body suffix (suffix + 2)
          in if boundary_matches \<and> delimiter_suffix_closes suffix_bytes \<noteq> None
             then Some pos
             else find_delimiter body boundary boundary_start)"
  by pat_completeness auto
termination
  by (relation "measure (\<lambda>(body, _, start). length body - start)")
    (auto dest!: find_bytes_bounds)

declare find_delimiter.simps [simp del]

section \<open>The search for delimiters finds the first one\<close>

text \<open>
  Reference: a delimiter line starts at a position when the bytes there are the prefix, the
  boundary, and one of the two suffixes.
\<close>

definition delimiter_at :: "string \<Rightarrow> string \<Rightarrow> nat \<Rightarrow> bool" where
  "delimiter_at body boundary p \<longleftrightarrow>
     take (length boundary + 6) (drop p body)
       \<in> {delimiter_prefix @ boundary @ [CR, LF], delimiter_prefix @ boundary @ ''--''}"

lemma find_append: "find P (xs @ ys) = (case find P xs of None \<Rightarrow> find P ys | Some x \<Rightarrow> Some x)"
  by (induction xs) simp_all

lemma find_upt_Some:
  "find P [a..<n] = Some p \<longleftrightarrow> a \<le> p \<and> p < n \<and> P p \<and> (\<forall>q. a \<le> q \<and> q < p \<longrightarrow> \<not> P q)"
proof (induction "n - a" arbitrary: a)
  case (Suc m)
  then have "[a..<n] = a # [Suc a..<n]"
    by (simp add: upt_conv_Cons)
  moreover have "find P [Suc a..<n] = Some p \<longleftrightarrow>
      Suc a \<le> p \<and> p < n \<and> P p \<and> (\<forall>q. Suc a \<le> q \<and> q < p \<longrightarrow> \<not> P q)"
    using Suc by (intro Suc.hyps(1)) simp
  moreover have "a < n"
    using Suc.hyps(2) by simp
  moreover have "(\<forall>q. a \<le> q \<and> q < p \<longrightarrow> \<not> P q) \<longleftrightarrow>
      (a < p \<longrightarrow> \<not> P a) \<and> (\<forall>q. Suc a \<le> q \<and> q < p \<longrightarrow> \<not> P q)"
    by (metis Suc_le_eq le_eq_less_or_eq)
  moreover have "a \<le> p \<longleftrightarrow> a = p \<or> Suc a \<le> p"
    by linarith
  ultimately show ?case
    by (cases "P a") auto
qed auto

lemma find_upt_None: "find P [a..<n] = None \<longleftrightarrow> (\<forall>q. a \<le> q \<and> q < n \<longrightarrow> \<not> P q)"
  by (auto simp: find_None_iff)

lemma find_upt_skip:
  assumes "\<And>q. a \<le> q \<Longrightarrow> q < m \<Longrightarrow> \<not> P q" "a \<le> m"
  shows "find P [a..<n] = find P [m..<n]"
proof (cases "m \<le> n")
  case True
  then have "[a..<n] = [a..<m] @ [m..<n]"
    using assms(2) by (metis upt_add_eq_append le_add_diff_inverse)
  moreover have "find P ([a..<m] @ ys) = find P ys" for ys
    using assms(1) find_upt_None [of P a m] by (simp add: find_append)
  ultimately show ?thesis
    by simp
next
  case False
  then have "find P [a..<n] = None"
    unfolding find_upt_None using assms(1) by auto
  with False show ?thesis
    by simp
qed

lemma window_position_Some:
  assumes "n \<noteq> []"
  shows "window_position n s = Some p \<longleftrightarrow>
     take (length n) (drop p s) = n \<and> (\<forall>q < p. take (length n) (drop q s) \<noteq> n)"
  using assms
proof (induction n s arbitrary: p rule: window_position.induct)
  case (2 n c cs)
  show ?case
  proof (cases p)
    case (Suc p')
    then show ?thesis
      using 2 by (auto simp: less_Suc_eq_0_disj)
  qed (use 2 in auto)
qed auto

lemma window_position_None:
  assumes "n \<noteq> []"
  shows "window_position n s = None \<longleftrightarrow> (\<forall>q. take (length n) (drop q s) \<noteq> n)"
  using assms
proof (induction n s rule: window_position.induct)
  case (2 n c cs)
  show ?case
  proof
    assume "window_position n (c # cs) = None"
    then have "take (length n) (c # cs) \<noteq> n" "\<forall>q. take (length n) (drop q cs) \<noteq> n"
      using 2 by (auto split: if_splits)
    then show "\<forall>q. take (length n) (drop q (c # cs)) \<noteq> n"
      by (metis drop0 drop_Suc_Cons not0_implies_Suc)
  next
    assume "\<forall>q. take (length n) (drop q (c # cs)) \<noteq> n"
    then show "window_position n (c # cs) = None"
      using 2 by (metis drop0 drop_Suc_Cons option.simps(8) window_position.simps(2))
  qed
qed auto

lemma find_bytes_find:
  assumes "n \<noteq> []"
  shows "find_bytes h n start = find (\<lambda>p. take (length n) (drop p h) = n) [start..<length h]"
proof (cases "window_position n (drop start h)")
  case None
  then have "take (length n) (drop q h) \<noteq> n" if "start \<le> q" for q
    using window_position_None [OF assms, of "drop start h"] that
    by (metis drop_drop le_add_diff_inverse2)
  then show ?thesis
    using None find_upt_None [of "\<lambda>p. take (length n) (drop p h) = n" start "length h"]
    by (simp add: find_bytes_def)
next
  case (Some p)
  then have p: "take (length n) (drop (p + start) h) = n"
      and first: "\<forall>q < p. take (length n) (drop (q + start) h) \<noteq> n"
    using window_position_Some [OF assms, of "drop start h"] by (simp_all add: add.commute)
  have less: "p + start < length h"
    using window_position_less [OF Some] by simp
  have "take (length n) (drop q h) \<noteq> n" if "start \<le> q" "q < p + start" for q
    using first that by (metis le_add_diff_inverse2 less_diff_conv2)
  with p less have "find (\<lambda>p. take (length n) (drop p h) = n) [start..<length h] = Some (p + start)"
    unfolding find_upt_Some by auto
  then show ?thesis
    using Some less assms by (simp add: find_bytes_def)
qed

lemma get_range_Some:
  "get_range s a (a + n) = Some t \<longleftrightarrow> a + n \<le> length s \<and> take n (drop a s) = t"
  by (auto simp: get_range_def)

lemma take_append_iff:
  assumes "length u = n"
  shows "take (n + k) s = u @ v \<longleftrightarrow> take n s = u \<and> take k (drop n s) = v"
proof (cases "n \<le> length s")
  case True
  then show ?thesis
    using assms by (simp add: take_add)
next
  case False
  then have "take (n + k) s \<noteq> u @ v"
    using assms arg_cong [of "take (n + k) s" "u @ v" length] by auto
  with False show ?thesis
    using assms by auto
qed

lemma full_take: "take k s = v \<Longrightarrow> length v = k \<Longrightarrow> k \<le> length s"
  by auto

lemma suffix_closes_iff:
  "delimiter_suffix_closes x \<noteq> None \<longleftrightarrow> x = Some [CR, LF] \<or> x = Some ''--''"
  by (auto simp: delimiter_suffix_closes_def)

lemma delimiter_at_iff:
  "delimiter_at body b p \<longleftrightarrow>
     take 4 (drop p body) = delimiter_prefix
     \<and> get_range body (p + 4) (p + 4 + length b) = Some b
     \<and> delimiter_suffix_closes (get_range body (p + 4 + length b) (p + 4 + length b + 2)) \<noteq> None"
proof -
  have split: "take (length b + 6) (drop p body) = delimiter_prefix @ b @ v \<longleftrightarrow>
      take 4 (drop p body) = delimiter_prefix \<and> take (length b) (drop (p + 4) body) = b
      \<and> take 2 (drop (p + 4 + length b) body) = v" for v
    using take_append_iff [of delimiter_prefix 4 "length b + 2" "drop p body" "b @ v"]
      take_append_iff [of b "length b" 2 "drop (p + 4) body" v]
    by (simp add: add.commute add.left_commute del: add_2_eq_Suc add_2_eq_Suc')
  have fits: "take 2 (drop (p + 4 + length b) body) = v \<longleftrightarrow>
      get_range body (p + 4 + length b) (p + 4 + length b + 2) = Some v" if "length v = 2" for v
    unfolding get_range_Some using full_take [of 2 "drop (p + 4 + length b) body" v] that by auto
  have inner: "get_range body (p + 4) (p + 4 + length b) = Some b \<longleftrightarrow>
      take (length b) (drop (p + 4) body) = b"
    if "get_range body (p + 4 + length b) (p + 4 + length b + 2) = Some v" for v
    using that unfolding get_range_Some by auto
  show ?thesis
    unfolding delimiter_at_def insert_iff empty_iff split suffix_closes_iff
    using fits [of "[CR, LF]"] fits [of "''--''"] inner by (simp only: list.size) blast
qed

lemma prefix_no_overlap:
  assumes "take 4 (drop p body) = delimiter_prefix" "p < q" "q < p + 4"
  shows "take 4 (drop q body) \<noteq> delimiter_prefix"
proof
  assume q: "take 4 (drop q body) = delimiter_prefix"
  have at: "body ! (r + i) = delimiter_prefix ! i"
    if "take 4 (drop r body) = delimiter_prefix" "i < 4" for r i
  proof -
    have "r + 4 \<le> length body"
      using full_take [OF that(1)] by simp
    then have "take 4 (drop r body) ! i = body ! (r + i)"
      using that(2) by simp
    then show ?thesis
      using that(1) by simp
  qed
  have "body ! q = CR"
    using at [OF q, of 0] by simp
  moreover have "body ! q = delimiter_prefix ! (q - p)" "q - p \<in> {1, 2, 3}"
    using at [OF assms(1), of "q - p"] assms(2,3) by auto
  ultimately show False
    by auto
qed

lemma find_delimiter_step:
  assumes "find_bytes body delimiter_prefix start = Some p" "take 4 (drop p body) = delimiter_prefix"
  shows "find_delimiter body b start
           = (if delimiter_at body b p then Some p else find_delimiter body b (p + 4))"
proof -
  have "length delimiter_prefix = 4"
    by simp
  then show ?thesis
    unfolding find_delimiter.simps [of body b start] delimiter_at_iff Let_def assms option.case
    by (simp only: assms(2) simp_thms)
qed

lemma find_delimiter_first:
  "find_delimiter body b start = find (delimiter_at body b) [start..<length body]"
proof (induction "length body - start" arbitrary: start rule: less_induct)
  case less
  let ?at = "\<lambda>p. take 4 (drop p body) = delimiter_prefix"
  have fb: "find_bytes body delimiter_prefix start = find ?at [start..<length body]"
    using find_bytes_find [of delimiter_prefix body start] by (simp add: numeral_eq_Suc)
  show ?case
  proof (cases "find ?at [start..<length body]")
    case None
    then have "find (delimiter_at body b) [start..<length body] = None"
      unfolding find_upt_None delimiter_at_iff by blast
    with None fb show ?thesis
      by (simp add: find_delimiter.simps [of body b start])
  next
    case (Some p)
    then have p: "start \<le> p" "p < length body" "?at p" "\<forall>q. start \<le> q \<and> q < p \<longrightarrow> \<not> ?at q"
      unfolding find_upt_Some by auto
    have found: "find_bytes body delimiter_prefix start = Some p"
      using fb Some by simp
    note step = find_delimiter_step [OF found p(3), of b]
    show ?thesis
    proof (cases "delimiter_at body b p")
      case True
      then have "find (delimiter_at body b) [start..<length body] = Some p"
        unfolding find_upt_Some using p(1,2,4) delimiter_at_iff [of body b] by blast
      with True step show ?thesis
        by simp
    next
      case False
      have "\<not> delimiter_at body b q" if "start \<le> q" "q < p + 4" for q
      proof (cases q p rule: linorder_cases)
        case less
        then show ?thesis
          using p(4) that(1) unfolding delimiter_at_iff by blast
      next
        case equal
        then show ?thesis
          using False by simp
      next
        case greater
        then show ?thesis
          using prefix_no_overlap [OF p(3)] that(2) unfolding delimiter_at_iff by blast
      qed
      then have "find (delimiter_at body b) [start..<length body] = find (delimiter_at body b) [p + 4..<length body]"
        by (rule find_upt_skip) (use p(1) in simp_all)
      moreover have "length body - (p + 4) < length body - start"
        using p(1,2) by simp
      ultimately show ?thesis
        unfolding step using False less [of "p + 4"] by (simp only: if_False)
    qed
  qed
qed

section \<open>Metadata is no larger than the block it was read from\<close>

lemma length_strip_leading: "length (strip_leading ws s) \<le> length s"
  using strip_leading_suffix [of s ws] by (metis le_add2 length_append)

lemma length_str_trim: "length (str_trim s) \<le> length s"
  unfolding str_trim_def length_rev
  using length_strip_leading [of "map rev whitespace_encodings" "rev (strip_leading whitespace_encodings s)"]
    length_strip_leading [of whitespace_encodings s] by simp

lemma length_unescape: "length (unescape e s) \<le> length s"
  by (induction e s rule: unescape.induct) (auto intro: le_SucI)

lemma length_parameter_value:
  "parse_parameter_value s = Inr v \<Longrightarrow> length (parameter_decode v) \<le> length s"
  using length_unescape [of False "butlast (tl s)"]
  by (auto simp: parse_parameter_value_def decode_quoted_value_def split: list.splits if_splits sum.splits)

lemma length_parameter:
  assumes "parse_parameter segment = Inr (key, v)"
  shows "length (parameter_decode v) \<le> length segment"
proof -
  obtain k val where s: "split_once (CHR ''='') segment = Some (k, val)"
      "parse_parameter_value (str_trim val) = Inr v"
    using assms by (auto simp: parse_parameter_def split: option.splits if_splits sum.splits)
  have "length (parameter_decode v) \<le> length (str_trim val)"
    using length_parameter_value [OF s(2)] .
  also have "\<dots> \<le> length val"
    by (rule length_str_trim)
  also have "\<dots> \<le> length segment"
    using s(1) by (simp add: split_once_Some)
  finally show ?thesis .
qed

lemma length_next_parameter:
  assumes "split_next_parameter input = Inr (segment, rest)"
  shows "length segment + (case rest of None \<Rightarrow> 0 | Some r \<Rightarrow> length r) \<le> length input"
proof (cases "scan_parameter False False [] input")
  case (Inl u)
  then show ?thesis
    using assms length_str_trim [of input]
    by (auto simp: split_next_parameter_def split: if_splits)
next
  case (Inr sr)
  obtain seen r where sr: "sr = (seen, r)"
    by fastforce
  with Inr have "length seen + length r < length input"
    using scan_parameter_rest by fastforce
  then show ?thesis
    using assms Inr sr length_str_trim [of seen]
    by (auto simp: split_next_parameter_def split: if_splits)
qed

lemma fold_parameters_weight:
  assumes "\<And>key v s s'. f (key, v) s = Inr s' \<Longrightarrow> w s' \<le> w s + length (parameter_decode v)"
    and "fold_parameters f r s = Inr s'"
  shows "w s' \<le> w s + (case r of None \<Rightarrow> 0 | Some t \<Rightarrow> length t)"
  using assms
proof (induction f r s arbitrary: s' rule: fold_parameters.induct)
  case (2 f remaining s)
  obtain segment rest key v t where
    st: "split_next_parameter remaining = Inr (segment, rest)" "parse_parameter segment = Inr (key, v)"
      "f (key, v) s = Inr t" "fold_parameters f rest t = Inr s'"
    using "2.prems"(2) by (auto split: sum.splits)
  have "w s' \<le> w t + (case rest of None \<Rightarrow> 0 | Some r \<Rightarrow> length r)"
    using "2.IH" [OF st(1) refl st(2) st(3) "2.prems"(1) st(4)] .
  moreover have "w t \<le> w s + length (parameter_decode v)"
    using "2.prems"(1) [OF st(3)] .
  ultimately show ?case
    using length_next_parameter [OF st(1)] length_parameter [OF st(2)] by simp
qed simp

definition header_weight :: "part_headers \<Rightarrow> nat" where
  "header_weight h =
     (case pt_name h of None \<Rightarrow> 0 | Some s \<Rightarrow> length s)
     + (case pt_filename h of None \<Rightarrow> 0 | Some s \<Rightarrow> length s)
     + (case pt_content_type h of None \<Rightarrow> 0 | Some s \<Rightarrow> length s)"

lemma absorb_disposition_parameters_weight:
  assumes "absorb_disposition_parameters r h = Inr h'"
  shows "header_weight h' \<le> header_weight h + (case r of None \<Rightarrow> 0 | Some t \<Rightarrow> length t)"
  using assms unfolding absorb_disposition_parameters_def
  by (rule fold_parameters_weight [rotated])
    (auto simp: header_weight_def set_owned_param_once_def Let_def split: if_splits sum.splits)

lemma length_header_params:
  assumes "split_header_params header = Inr (head, Some r)"
  shows "length r \<le> length header"
  using assms by (auto simp: split_header_params_def split_once_Some split: option.splits if_splits)

lemma absorb_weight:
  assumes "absorb name val h = Inr h'"
  shows "header_weight h' \<le> header_weight h + length val"
proof (cases "eq_ignore_ascii_case name ''content-disposition''")
  case True
  then obtain head r where st: "split_header_params val = Inr (head, r)"
      "absorb_disposition_parameters r h = Inr h'"
    using assms by (auto simp: absorb_def absorb_disposition_def split: if_splits sum.splits)
  have "(case r of None \<Rightarrow> 0 | Some t \<Rightarrow> length t) \<le> length val"
    using length_header_params [of val head] st(1) by (cases r) auto
  then show ?thesis
    using absorb_disposition_parameters_weight [OF st(2)] by simp
next
  case False
  then show ?thesis
    using assms by (auto simp: absorb_def header_weight_def split: if_splits)
qed

lemma absorb_lines_weight:
  "absorb_lines ls h = Inr h' \<Longrightarrow> header_weight h' \<le> header_weight h + sum_list (map length ls)"
proof (induction ls arbitrary: h)
  case (Cons line ls)
  then obtain name val g where st: "split_once (CHR '':'') line = Some (name, val)"
      "absorb (str_trim name) (str_trim val) h = Inr g" "absorb_lines ls g = Inr h'"
    by (auto split: option.splits sum.splits)
  have "length (str_trim val) \<le> length line"
    using st(1) length_str_trim [of val] by (simp add: split_once_Some)
  then show ?case
    using absorb_weight [OF st(2)] Cons.IH [OF st(3)] by simp
qed simp

lemma length_split_crlf: "sum_list (map length (split_crlf s)) \<le> length s"
  by (induction s rule: split_crlf.induct) (auto split: list.splits)

lemma parse_header_block_weight:
  assumes "parse_header_block raw = Inr h"
  shows "header_weight h \<le> length raw"
  using assms absorb_lines_weight [of "split_crlf raw" _ h] length_split_crlf [of raw]
  by (fastforce simp: parse_header_block_def header_weight_def split: if_splits)

end
