(* ===== verification/Multipart_Parser.thy ===== *)
theory Multipart_Parser
  imports Multipart_Grammar
begin

text \<open>
  The incremental multipart parser: its limits (\<open>limits.rs\<close>), the budget of its buffer
  (\<open>budget.rs\<close>), the state machine (\<open>parser.rs\<close>), and how a session pulls frames and takes events
  from it (\<open>session.rs\<close>). Sizes are natural numbers; where the code checks an addition or a product
  for overflow the width of \<open>usize\<close> is written out. The parser is the one with debug assertions:
  a subtraction that underflows, a slice out of range and a failed assertion are the fault
  \<open>Panics\<close>. A fault leaves the state as it was when it arose.
\<close>

section \<open>Limits\<close>

record multipart_limits =
  max_fields :: nat
  max_field_bytes :: nat
  max_headers_per_field :: nat
  max_header_bytes_per_field :: nat
  max_boundary_bytes :: nat
  max_chunk_bytes :: nat
  max_parser_buffer_bytes :: nat

definition limits_defaults :: multipart_limits where
  "limits_defaults = \<lparr>
     max_fields = 128,
     max_field_bytes = 8 * 1024 * 1024,
     max_headers_per_field = 32,
     max_header_bytes_per_field = 16 * 1024,
     max_boundary_bytes = protocol_max_boundary_bytes,
     max_chunk_bytes = 64 * 1024,
     max_parser_buffer_bytes = 128 * 1024\<rparr>"

abbreviation usize_checked :: "nat \<Rightarrow> nat option" where
  "usize_checked n \<equiv> (if n < 2 ^ 64 then Some n else None)"

definition header_peak :: "multipart_limits \<Rightarrow> nat option" where
  "header_peak l = usize_checked (max_header_bytes_per_field l * 2)"

definition chunk_peak :: "multipart_limits \<Rightarrow> nat option" where
  "chunk_peak l = usize_checked (max_chunk_bytes l + delimiter_carry_over (max_boundary_bytes l))"

definition required_parser_buffer_bytes :: "multipart_limits \<Rightarrow> runtime_error + nat" where
  "required_parser_buffer_bytes l =
     (case header_peak l of
        None \<Rightarrow> Inl (InvalidArgument ''multipart max_header_bytes_per_field overflows its parser peak'')
      | Some header \<Rightarrow>
          (case chunk_peak l of
             None \<Rightarrow> Inl (InvalidArgument ''multipart max_chunk_bytes overflows its parser peak'')
           | Some chunk \<Rightarrow> Inr (max header chunk)))"

definition build_limits :: "multipart_limits \<Rightarrow> runtime_error + multipart_limits" where
  "build_limits l =
     (if \<exists>n \<in> set [max_fields l, max_field_bytes l, max_headers_per_field l,
          max_header_bytes_per_field l, max_boundary_bytes l, max_chunk_bytes l,
          max_parser_buffer_bytes l]. n = 0
      then Inl (InvalidArgument ''multipart limits must all be greater than zero'')
      else if protocol_max_boundary_bytes < max_boundary_bytes l
      then Inl (InvalidArgument ''multipart max_boundary_bytes cannot exceed the protocol maximum of 70'')
      else
        (case required_parser_buffer_bytes l of
           Inl e \<Rightarrow> Inl e
         | Inr required \<Rightarrow>
             if required \<le> max_parser_buffer_bytes l then Inr l
             else Inl (InvalidArgument
               ''multipart max_parser_buffer_bytes is below the peak the other limits require'')))"

definition max_reply_bytes :: "multipart_limits \<Rightarrow> nat" where
  "max_reply_bytes l = max (max_chunk_bytes l) (max_header_bytes_per_field l)"

section \<open>The budget\<close>

record buffer_budget =
  bb_limit :: nat
  bb_reserved :: nat
  bb_peak :: nat

abbreviation budget_new :: "nat \<Rightarrow> buffer_budget" where
  "budget_new limit \<equiv> \<lparr>bb_limit = limit, bb_reserved = 0, bb_peak = 0\<rparr>"

definition budget_reserve :: "nat \<Rightarrow> buffer_budget \<Rightarrow> runtime_error + buffer_budget" where
  "budget_reserve bytes b =
     (let sum = bb_reserved b + bytes
      in if sum < 2 ^ 64 \<and> sum \<le> bb_limit b
         then Inr (b\<lparr>bb_reserved := sum, bb_peak := max (bb_peak b) sum\<rparr>)
         else Inl (malformed ''multipart parser buffer exhausted''))"

text \<open>The assertion of a release is \<open>None\<close> when it fails.\<close>

definition budget_release :: "nat \<Rightarrow> buffer_budget \<Rightarrow> buffer_budget option" where
  "budget_release bytes b =
     (if bytes \<le> bb_reserved b then Some (b\<lparr>bb_reserved := bb_reserved b - bytes\<rparr>) else None)"

section \<open>Fields and events\<close>

definition declares_nested_multipart :: "string \<Rightarrow> bool" where
  "declares_nested_multipart val \<longleftrightarrow>
     (case get_range (strip_leading whitespace_encodings val) 0 10 of
        None \<Rightarrow> False
      | Some prefix \<Rightarrow> eq_ignore_ascii_case prefix ''multipart/'')"

record field_metadata =
  fm_name :: string
  fm_filename :: "string option"
  fm_content_type :: "string option"
  fm_bytes :: nat

definition measure_metadata :: "string \<Rightarrow> string option \<Rightarrow> string option \<Rightarrow> nat" where
  "measure_metadata name filename content_type =
     length name + (case filename of None \<Rightarrow> 0 | Some s \<Rightarrow> length s)
       + (case content_type of None \<Rightarrow> 0 | Some s \<Rightarrow> length s)"

definition into_metadata :: "part_headers \<Rightarrow> runtime_error + field_metadata" where
  "into_metadata h =
     (case pt_name h of
        None \<Rightarrow> Inl (malformed invalid_content_disposition)
      | Some name \<Rightarrow>
          if (case pt_content_type h of None \<Rightarrow> False | Some t \<Rightarrow> declares_nested_multipart t)
          then Inl (malformed ''nested multipart parts are not parsed'')
          else Inr \<lparr>fm_name = name, fm_filename = pt_filename h, fm_content_type = pt_content_type h,
                    fm_bytes = measure_metadata name (pt_filename h) (pt_content_type h)\<rparr>)"

datatype parser_event = Field field_metadata | Chunk string | FieldEnd | End

fun event_reservation :: "parser_event \<Rightarrow> nat" where
  "event_reservation (Field m) = fm_bytes m"
| "event_reservation (Chunk c) = length c"
| "event_reservation FieldEnd = 0"
| "event_reservation End = 0"

section \<open>The state machine\<close>

datatype parser_state = Opening | Headers | Data | Epilogue | Complete

datatype parser_step = Event parser_event | Continue | NeedMore

record incremental_parser =
  ip_limits :: multipart_limits
  ip_boundary :: string
  ip_buffer :: string
  ip_budget :: buffer_budget
  ip_state :: parser_state
  ip_scanned :: nat
  ip_fields_seen :: nat
  ip_field_bytes :: nat

definition parser_new :: "string \<Rightarrow> multipart_limits \<Rightarrow> incremental_parser" where
  "parser_new boundary l = \<lparr>
     ip_limits = l, ip_boundary = boundary, ip_buffer = [],
     ip_budget = budget_new (max_parser_buffer_bytes l), ip_state = Opening,
     ip_scanned = 0, ip_fields_seen = 0, ip_field_bytes = 0\<rparr>"

text \<open>
  An operation reads and writes the parser and the frame it is given, and may fault.
\<close>

datatype fault = Panics | Refuses runtime_error

type_synonym 'a parsing =
  "incremental_parser \<times> string \<Rightarrow> (fault + 'a) \<times> incremental_parser \<times> string"

definition and_then :: "'a parsing \<Rightarrow> ('a \<Rightarrow> 'b parsing) \<Rightarrow> 'b parsing" where
  "and_then m f s = (case m s of (Inl e, s') \<Rightarrow> (Inl e, s') | (Inr a, s') \<Rightarrow> f a s')"

abbreviation refuse :: "string \<Rightarrow> 'a parsing" where
  "refuse text \<equiv> (\<lambda>s. (Inl (Refuses (malformed text)), s))"

definition release_delivered :: "nat \<Rightarrow> unit parsing" where
  "release_delivered bytes =
     (\<lambda>(p, source). case budget_release bytes (ip_budget p) of
        None \<Rightarrow> (Inl Panics, p, source)
      | Some b \<Rightarrow> (Inr (), p\<lparr>ip_budget := b\<rparr>, source))"

definition retain :: "string \<Rightarrow> unit parsing" where
  "retain bytes =
     (\<lambda>(p, source). case budget_reserve (length bytes) (ip_budget p) of
        Inl e \<Rightarrow> (Inl (Refuses e), p, source)
      | Inr b \<Rightarrow> (Inr (), p\<lparr>ip_budget := b, ip_buffer := ip_buffer p @ bytes\<rparr>, source))"

definition fill :: "nat \<Rightarrow> unit parsing" where
  "fill want =
     (\<lambda>(p, source).
        let n = min want (length source)
        in if n = 0 then (Inr (), p, source)
           else and_then (retain (take n source)) (\<lambda>_ (p, source). (Inr (), p, drop n source))
                  (p, source))"

definition consume :: "nat \<Rightarrow> unit parsing" where
  "consume count =
     (\<lambda>(p, source).
        if length (ip_buffer p) < count then (Inl Panics, p, source)
        else and_then (release_delivered count)
               (\<lambda>_ (p, source). (Inr (), p\<lparr>ip_scanned := ip_scanned p - count\<rparr>, source))
               (p\<lparr>ip_buffer := drop count (ip_buffer p)\<rparr>, source))"

definition delimiter_suffix :: "nat \<Rightarrow> parser_state parsing" where
  "delimiter_suffix at =
     (\<lambda>(p, source). case delimiter_closes_at (ip_buffer p) at of
        Inl e \<Rightarrow> (Inl (Refuses e), p, source)
      | Inr closes \<Rightarrow> (Inr (if closes then Epilogue else Headers), p, source))"

definition delimiter_line_bytes :: "incremental_parser \<Rightarrow> nat" where
  "delimiter_line_bytes p = length delimiter_prefix + length (ip_boundary p) + 2"

definition step_opening :: "parser_step parsing" where
  "step_opening =
     (\<lambda>(p, source).
        let suffix_at = length body_prefix + length (ip_boundary p);
            line = suffix_at + 2
        in and_then (fill (line - length (ip_buffer p)))
             (\<lambda>_ (p, source).
                if length (ip_buffer p) < line then (Inr NeedMore, p, source)
                else if \<not> opens_body (ip_buffer p) (ip_boundary p)
                then refuse invalid_delimiter_framing (p, source)
                else and_then (delimiter_suffix suffix_at)
                       (\<lambda>next_state. and_then (consume line)
                          (\<lambda>_ (p, source). (Inr Continue, p\<lparr>ip_state := next_state\<rparr>, source)))
                       (p, source))
             (p, source))"

text \<open>The reservation is given back on an error, and narrowed to the metadata otherwise.\<close>

definition read_field_metadata :: "nat \<Rightarrow> field_metadata parsing" where
  "read_field_metadata block_end =
     (\<lambda>(p, source).
        let block = take block_end (ip_buffer p)
        in if max_headers_per_field (ip_limits p) < header_line_count block
           then refuse ''multipart field declares more headers than the configured maximum'' (p, source)
           else
             let p = p\<lparr>ip_fields_seen := ip_fields_seen p + 1\<rparr>
             in if max_fields (ip_limits p) < ip_fields_seen p
                then refuse ''multipart body declares more fields than the configured maximum'' (p, source)
                else
                  (case budget_reserve block_end (ip_budget p) of
                     Inl e \<Rightarrow> (Inl (Refuses e), p, source)
                   | Inr b \<Rightarrow>
                       let p = p\<lparr>ip_budget := b\<rparr>
                       in (case parse_header_block block of
                             Inl e \<Rightarrow>
                               and_then (release_delivered block_end) (\<lambda>_ s. (Inl (Refuses e), s)) (p, source)
                           | Inr headers \<Rightarrow>
                               (case into_metadata headers of
                                  Inl e \<Rightarrow>
                                    and_then (release_delivered block_end) (\<lambda>_ s. (Inl (Refuses e), s)) (p, source)
                                | Inr metadata \<Rightarrow>
                                    if block_end < fm_bytes metadata then (Inl Panics, p, source)
                                    else and_then (release_delivered (block_end - min (fm_bytes metadata) block_end))
                                           (\<lambda>_ s. (Inr metadata, s)) (p, source)))))"

definition await_header_terminator :: "nat \<Rightarrow> parser_step parsing" where
  "await_header_terminator ceiling =
     (\<lambda>(p, source).
        let p = p\<lparr>ip_scanned := length (ip_buffer p)\<rparr>
        in if ceiling \<le> length (ip_buffer p)
           then refuse ''multipart field header block exceeds its configured maximum'' (p, source)
           else (Inr NeedMore, p, source))"

definition step_headers :: "parser_step parsing" where
  "step_headers =
     (\<lambda>(p, source).
        let ceiling = max_header_bytes_per_field (ip_limits p)
        in and_then (fill (ceiling - length (ip_buffer p)))
             (\<lambda>_ (p, source).
                let start = ip_scanned p - (length header_terminator - 1)
                in (case find_bytes (ip_buffer p) header_terminator start of
                      None \<Rightarrow> await_header_terminator ceiling (p, source)
                    | Some block_end \<Rightarrow>
                        and_then (read_field_metadata block_end)
                          (\<lambda>metadata. and_then (consume (block_end + length header_terminator))
                             (\<lambda>_ (p, source).
                                (Inr (Event (Field metadata)),
                                 p\<lparr>ip_scanned := 0, ip_field_bytes := 0, ip_state := Data\<rparr>, source)))
                          (p, source)))
             (p, source))"

definition yield_chunk :: "nat \<Rightarrow> parser_step parsing" where
  "yield_chunk available =
     (\<lambda>(p, source).
        let n = min available (max_chunk_bytes (ip_limits p));
            sum = ip_field_bytes p + n
        in if \<not> (sum < 2 ^ 64 \<and> sum \<le> max_field_bytes (ip_limits p))
           then (Inl (Refuses (RequestBodyLimitExceeded
                   (''multipart field exceeds its configured maximum of ''
                      @ show_nat (max_field_bytes (ip_limits p)) @ '' bytes''))), p, source)
           else if length (ip_buffer p) < n then (Inl Panics, p\<lparr>ip_field_bytes := sum\<rparr>, source)
           else (Inr (Event (Chunk (take n (ip_buffer p)))),
                 p\<lparr>ip_field_bytes := sum, ip_buffer := drop n (ip_buffer p),
                   ip_scanned := ip_scanned p - n\<rparr>, source))"

definition yield_before_carry :: "nat \<Rightarrow> parser_step parsing" where
  "yield_before_carry carry =
     (\<lambda>(p, source).
        let p = p\<lparr>ip_scanned := length (ip_buffer p)\<rparr>;
            available = length (ip_buffer p) - carry
        in if available = 0 then (Inr NeedMore, p, source) else yield_chunk available (p, source))"

definition close_field :: "parser_step parsing" where
  "close_field =
     (\<lambda>(p, source).
        and_then (delimiter_suffix (length delimiter_prefix + length (ip_boundary p)))
          (\<lambda>next_state. and_then (consume (delimiter_line_bytes p))
             (\<lambda>_ (p, source).
                (Inr (Event FieldEnd), p\<lparr>ip_scanned := 0, ip_state := next_state\<rparr>, source)))
          (p, source))"

definition fill_to_delimiter :: "nat \<Rightarrow> nat option parsing" where
  "fill_to_delimiter carry =
     (\<lambda>(p, source).
        let retained = length (ip_buffer p);
            ceiling = max_chunk_bytes (ip_limits p) + carry;
            n = min (ceiling - retained) (length source)
        in if 2 ^ 64 \<le> ceiling then (Inl Panics, p, source)
           else and_then (retain (take n source))
             (\<lambda>_ (p, source).
                let delimiter = find_delimiter (ip_buffer p) (ip_boundary p) (retained - carry);
                    line_end = (case delimiter of None \<Rightarrow> retained + n
                                | Some pos \<Rightarrow> pos + delimiter_line_bytes p);
                    kept = line_end - retained
                in if line_end < retained \<or> n < kept then (Inl Panics, p, source)
                   else and_then (release_delivered (n - kept))
                          (\<lambda>_ (p, source). (Inr delimiter, p, drop kept source))
                          (p\<lparr>ip_buffer := take (retained + kept) (ip_buffer p)\<rparr>, source))
             (p, source))"

definition step_data :: "parser_step parsing" where
  "step_data =
     (\<lambda>(p, source).
        let carry = delimiter_carry_over (length (ip_boundary p))
        in and_then
             (case find_delimiter (ip_buffer p) (ip_boundary p) (ip_scanned p - carry) of
                Some pos \<Rightarrow> (\<lambda>s. (Inr (Some pos), s))
              | None \<Rightarrow> fill_to_delimiter carry)
             (\<lambda>delimiter.
                case delimiter of
                  None \<Rightarrow> yield_before_carry carry
                | Some pos \<Rightarrow> if pos = 0 then close_field else yield_chunk pos)
             (p, source))"

definition step_epilogue :: "parser_step parsing" where
  "step_epilogue =
     (\<lambda>(p, source).
        and_then (fill (3 - length (ip_buffer p)))
          (\<lambda>_ (p, source).
             case epilogue_closes (ip_buffer p) of
               Inl e \<Rightarrow> (Inl (Refuses e), p, source)
             | Inr _ \<Rightarrow> (Inr NeedMore, p, source))
          (p, source))"

definition step :: "parser_step parsing" where
  "step =
     (\<lambda>(p, source).
        case ip_state p of
          Opening \<Rightarrow> step_opening (p, source)
        | Headers \<Rightarrow> step_headers (p, source)
        | Data \<Rightarrow> step_data (p, source)
        | Epilogue \<Rightarrow> step_epilogue (p, source)
        | Complete \<Rightarrow> (Inr (Event End), p, source))"

lemma and_then_Inr:
  "and_then m f s = (Inr b, t) \<longleftrightarrow> (\<exists>a s'. m s = (Inr a, s') \<and> f a s' = (Inr b, t))"
  by (auto simp: and_then_def split: prod.splits sum.splits)

lemma delimiter_suffix_state:
  "delimiter_suffix at s = (Inr st, t) \<Longrightarrow> st \<noteq> Opening \<and> t = s"
  by (auto simp: delimiter_suffix_def split: prod.splits sum.splits if_splits)

lemma step_continues:
  assumes "step (p, source) = (Inr Continue, p', source')"
  shows "ip_state p = Opening \<and> ip_state p' \<noteq> Opening"
proof (cases "ip_state p")
  case Opening
  then show ?thesis
    using assms
    by (auto simp: step_def step_opening_def Let_def and_then_Inr split: if_splits
        dest!: delimiter_suffix_state)
next
  case Headers
  then show ?thesis
    using assms
    by (auto simp: step_def step_headers_def await_header_terminator_def Let_def and_then_Inr
        split: if_splits option.splits)
next
  case Data
  then show ?thesis
    using assms
    by (auto simp: step_def step_data_def yield_before_carry_def yield_chunk_def close_field_def
        Let_def and_then_Inr split: if_splits option.splits)
next
  case Epilogue
  then show ?thesis
    using assms
    by (auto simp: step_def step_epilogue_def Let_def and_then_Inr split: if_splits sum.splits)
      (metis sum.exhaust)
qed (use assms in \<open>simp add: step_def\<close>)

function advance :: "parser_event option parsing" where
  "advance (p, source) =
     (case step (p, source) of
        (Inl e, s) \<Rightarrow> (Inl e, s)
      | (Inr (Event event), s) \<Rightarrow> (Inr (Some event), s)
      | (Inr Continue, s) \<Rightarrow> advance s
      | (Inr NeedMore, s) \<Rightarrow> (Inr None, s))"
  by pat_completeness auto
termination
  by (relation "measure (\<lambda>(p, _). if ip_state p = Opening then 1 else 0)")
    (auto dest: step_continues [OF sym])

declare advance.simps [simp del]

definition close_session :: "parser_event parsing" where
  "close_session =
     (\<lambda>(p, source).
        and_then (consume (length (ip_buffer p)))
          (\<lambda>_ (p, source). (Inr End, p\<lparr>ip_state := Complete\<rparr>, source))
          (p, source))"

definition finish :: "parser_event parsing" where
  "finish =
     (\<lambda>(p, source).
        if ip_state p = Complete then (Inr End, p, source)
        else if ip_state p = Epilogue \<and> epilogue_closes (ip_buffer p) = Inr True
        then close_session (p, source)
        else refuse ''multipart body ended before its closing delimiter'' (p, source))"

section \<open>The session\<close>

text \<open>
  The frames of the upload are a list; what a session does when the transport fails or a deadline
  passes is outside it. A frame that is pulled replaces the one that was held.
\<close>

fun next_event ::
  "string list \<Rightarrow> incremental_parser \<times> string
     \<Rightarrow> (fault + parser_event) \<times> (incremental_parser \<times> string) \<times> string list"
where
  "next_event frames s =
     (case advance s of
        (Inl e, s') \<Rightarrow> (Inl e, s', frames)
      | (Inr (Some event), s') \<Rightarrow> (Inr event, s', frames)
      | (Inr None, (p, source)) \<Rightarrow>
          (case frames of
             [] \<Rightarrow> (case finish (p, source) of (r, s') \<Rightarrow> (r, s', []))
           | frame # rest \<Rightarrow> next_event rest (p, frame)))"

declare next_event.simps [simp del]

datatype command_kind = NextField | NextChunk | Discard

text \<open>A reply carries what the event it answers with carries.\<close>

fun reply_for :: "command_kind \<Rightarrow> parser_event \<Rightarrow> parser_event option" where
  "reply_for kind End = Some End"
| "reply_for NextField (Field m) = Some (Field m)"
| "reply_for NextChunk (Chunk c) = Some (Chunk c)"
| "reply_for NextChunk FieldEnd = Some FieldEnd"
| "reply_for Discard FieldEnd = Some FieldEnd"
| "reply_for NextField (Chunk c) = None"
| "reply_for NextField FieldEnd = None"
| "reply_for NextChunk (Field m) = None"
| "reply_for Discard (Field m) = None"
| "reply_for Discard (Chunk c) = None"

text \<open>A parser whose chunks could be empty would never end, so the loop may not return.\<close>

partial_function (option) pump ::
  "command_kind \<Rightarrow> string list \<Rightarrow> incremental_parser \<times> string
     \<Rightarrow> ((fault + parser_event) \<times> (incremental_parser \<times> string) \<times> string list) option"
where
  "pump kind frames s =
     (case next_event frames s of
        (Inl e, s', frames') \<Rightarrow> Some (Inl e, s', frames')
      | (Inr event, s', frames') \<Rightarrow>
          (case release_delivered (event_reservation event) s' of
             (Inl e, s'') \<Rightarrow> Some (Inl e, s'', frames')
           | (Inr _, s'') \<Rightarrow>
               (case reply_for kind event of
                  Some reply \<Rightarrow> Some (Inr reply, s'', frames')
                | None \<Rightarrow> pump kind frames' s'')))"

text \<open>
  The replies a handler gets that reads a body to its end: it asks for the next field while it has
  none, and for chunks until the field it has ends.
\<close>

partial_function (option) read_all ::
  "bool \<Rightarrow> string list \<Rightarrow> incremental_parser \<times> string \<Rightarrow> (parser_event list \<times> fault option) option"
where
  "read_all in_field frames s =
     Option.bind (pump (if in_field then NextChunk else NextField) frames s)
       (\<lambda>(answer, s', frames').
          case answer of
            Inl e \<Rightarrow> Some ([], Some e)
          | Inr reply \<Rightarrow>
              if reply = End then Some ([End], None)
              else Option.bind (read_all (reply \<noteq> FieldEnd) frames' s')
                     (\<lambda>(replies, r). Some (reply # replies, r)))"

end
