(* ===== verification/Multipart_Reference.thy ===== *)
theory Multipart_Reference
  imports Multipart_Parser
begin

text \<open>
  What a multipart body means, read as one string: no frames, no buffer, no budget, no carry over.
  The fields that were read to their end, with their data, and the refusal that stopped the
  reading, if any. The incremental parser is proved against it in \<open>Multipart_Refinement\<close>, the
  buffered parser in \<open>Multipart_Buffered\<close>.
\<close>

section \<open>The reference\<close>

type_synonym body_outcome = "(field_metadata \<times> string) list \<times> fault option"

abbreviation truncated :: fault where
  "truncated \<equiv> Refuses (malformed ''multipart body ended before its closing delimiter'')"

abbreviation misframed :: fault where
  "misframed \<equiv> Refuses (malformed invalid_delimiter_framing)"

abbreviation field_too_large :: "multipart_limits \<Rightarrow> fault" where
  "field_too_large l \<equiv> Refuses (RequestBodyLimitExceeded
     (''multipart field exceeds its configured maximum of '' @ show_nat (max_field_bytes l) @ '' bytes''))"

definition ref_epilogue :: "string \<Rightarrow> fault option" where
  "ref_epilogue rest =
     (if rest = [] \<or> rest = [CR, LF] then None
      else if rest = [CR] then Some truncated
      else Some misframed)"

definition ref_block :: "multipart_limits \<Rightarrow> nat \<Rightarrow> string \<Rightarrow> runtime_error + field_metadata" where
  "ref_block l n block =
     (if max_headers_per_field l < header_line_count block
      then Inl (malformed ''multipart field declares more headers than the configured maximum'')
      else if max_fields l < n + 1
      then Inl (malformed ''multipart body declares more fields than the configured maximum'')
      else (case parse_header_block block of Inl e \<Rightarrow> Inl e | Inr headers \<Rightarrow> into_metadata headers))"

definition ref_data ::
  "string \<Rightarrow> multipart_limits \<Rightarrow> (string \<Rightarrow> body_outcome) \<Rightarrow> nat \<Rightarrow> field_metadata \<Rightarrow> string \<Rightarrow> string
     \<Rightarrow> body_outcome"
where
  "ref_data b l later read m prior body =
     (case find_delimiter body b 0 of
        None \<Rightarrow>
          ([], Some (if max_field_bytes l < read + (length body - delimiter_carry_over (length b))
                     then field_too_large l else truncated))
      | Some d \<Rightarrow>
          if max_field_bytes l < read + d then ([], Some (field_too_large l))
          else let rest = drop (d + length b + 6) body
               in apfst (Cons (m, prior @ take d body))
                    (if delimiter_closes_at body (d + length b + 4) = Inr True
                     then ([], ref_epilogue rest) else later rest))"

lemma delimiter_at_fits:
  assumes "delimiter_at body b q"
  shows "q + length b + 6 \<le> length body"
proof -
  have "length (take (length b + 6) (drop q body))
      \<in> length ` {delimiter_prefix @ b @ [CR, LF], delimiter_prefix @ b @ ''--''}"
    using assms unfolding delimiter_at_def by (rule imageI)
  then have "length (take (length b + 6) (drop q body)) = length b + 6"
    by (simp only: image_insert image_empty insert_iff empty_iff length_append list.size simp_thms)
  then have "length b + 6 \<le> length (drop q body)"
    unfolding length_take by linarith
  then show ?thesis
    by simp
qed

lemma find_delimiter_fits:
  assumes "find_delimiter body b start = Some d"
  shows "delimiter_at body b d" "d + length b + 6 \<le> length body"
proof -
  show at: "delimiter_at body b d"
    using assms unfolding find_delimiter_first find_upt_Some by blast
  show "d + length b + 6 \<le> length body"
    using delimiter_at_fits [OF at] .
qed

lemma ref_data_cong [fundef_cong]:
  assumes "b = b'" "l = l'" "read = read'" "m = m'" "prior = prior'" "body = body'"
    and "\<And>rest. length rest < length body' \<Longrightarrow> later rest = later' rest"
  shows "ref_data b l later read m prior body = ref_data b' l' later' read' m' prior' body'"
proof (cases "find_delimiter body b 0")
  case (Some d)
  have "later (drop (d + length b + 6) body) = later' (drop (d + length b + 6) body)"
    using find_delimiter_fits(2) [OF Some] assms by (intro assms(7)) simp
  then show ?thesis
    using assms(1-6) Some by (simp add: ref_data_def Let_def)
qed (use assms in \<open>simp add: ref_data_def\<close>)

function ref_headers :: "string \<Rightarrow> multipart_limits \<Rightarrow> nat \<Rightarrow> string \<Rightarrow> body_outcome" where
  "ref_headers b l n body =
     (let ceiling = max_header_bytes_per_field l
      in case find_bytes (take ceiling body) header_terminator 0 of
           None \<Rightarrow>
             ([], Some (if ceiling \<le> length body
                        then Refuses (malformed ''multipart field header block exceeds its configured maximum'')
                        else truncated))
         | Some h \<Rightarrow>
             (case ref_block l n (take h body) of
                Inl e \<Rightarrow> ([], Some (Refuses e))
              | Inr m \<Rightarrow> ref_data b l (ref_headers b l (n + 1)) 0 m [] (drop (h + 4) body)))"
  by pat_completeness auto
termination
  by (relation "measure (\<lambda>(_, _, _, body). length body)") auto

declare ref_headers.simps [simp del]

definition ref_opening :: "string \<Rightarrow> multipart_limits \<Rightarrow> string \<Rightarrow> body_outcome" where
  "ref_opening b l body =
     (if length body < length b + 4 then ([], Some truncated)
      else if \<not> opens_body body b then ([], Some misframed)
      else (case delimiter_closes_at body (length b + 2) of
              Inl e \<Rightarrow> ([], Some (Refuses e))
            | Inr closes \<Rightarrow>
                if closes then ([], ref_epilogue (drop (length b + 4) body))
                else ref_headers b l 0 (drop (length b + 4) body)))"

section \<open>Searches in a body and in a part of it\<close>

lemma delimiter_at_append:
  assumes "q + length b + 6 \<le> length u"
  shows "delimiter_at (u @ v) b q \<longleftrightarrow> delimiter_at u b q"
  using assms by (simp add: delimiter_at_def)

lemma delimiter_at_drop: "delimiter_at (drop n body) b q \<longleftrightarrow> delimiter_at body b (n + q)"
  by (simp add: delimiter_at_def add.commute)

lemma find_delimiter_Some:
  "find_delimiter body b 0 = Some d \<longleftrightarrow> delimiter_at body b d \<and> (\<forall>q < d. \<not> delimiter_at body b q)"
  unfolding find_delimiter_first find_upt_Some using delimiter_at_fits [of body b d] by fastforce

lemma find_delimiter_None:
  "find_delimiter body b 0 = None \<longleftrightarrow> (\<forall>q. \<not> delimiter_at body b q)"
  unfolding find_delimiter_first find_upt_None using delimiter_at_fits [of body b] by fastforce

text \<open>A search that skips positions where no delimiter starts is the search from the beginning.\<close>

lemma find_delimiter_from:
  assumes "\<And>q. delimiter_at body b q \<Longrightarrow> start \<le> q"
  shows "find_delimiter body b start = find_delimiter body b 0"
  unfolding find_delimiter_first
  by (rule find_upt_skip [symmetric]) (use assms in force)+

lemma find_delimiter_append:
  assumes "find_delimiter u b 0 = Some d"
  shows "find_delimiter (u @ v) b 0 = Some d"
proof -
  have "d + length b + 6 \<le> length u"
    using find_delimiter_fits(2) [OF assms] .
  then show ?thesis
    using assms unfolding find_delimiter_Some by (simp add: delimiter_at_append)
qed

lemma find_delimiter_take:
  assumes "find_delimiter u b 0 = Some d"
  shows "find_delimiter (take (d + length b + 6) u) b 0 = Some d"
proof -
  let ?t = "take (d + length b + 6) u"
  have fits: "d + length b + 6 \<le> length u"
    using find_delimiter_fits(2) [OF assms] .
  then have "delimiter_at u b q \<longleftrightarrow> delimiter_at ?t b q" if "q \<le> d" for q
    using delimiter_at_append [of q b ?t "drop (d + length b + 6) u"] that by simp
  then show ?thesis
    using assms unfolding find_delimiter_Some by auto
qed

lemma find_delimiter_drop:
  assumes "find_delimiter body b 0 = Some d" "n \<le> d"
  shows "find_delimiter (drop n body) b 0 = Some (d - n)"
  using assms unfolding find_delimiter_Some by (auto simp: delimiter_at_drop)

lemma find_delimiter_drop_None:
  assumes "find_delimiter body b 0 = None"
  shows "find_delimiter (drop n body) b 0 = None"
  using assms unfolding find_delimiter_None by (simp add: delimiter_at_drop)

lemma find_terminator:
  "find_bytes s header_terminator start = find (\<lambda>p. take 4 (drop p s) = header_terminator) [start..<length s]"
  using find_bytes_find [of header_terminator s start] by (simp add: numeral_eq_Suc)

lemma terminator_fits: "take 4 (drop q s) = header_terminator \<Longrightarrow> q + 4 \<le> length s"
  using full_take [of 4 "drop q s" header_terminator] by (cases "q \<le> length s") auto

lemma find_terminator_Some:
  "find_bytes s header_terminator 0 = Some h \<longleftrightarrow>
     take 4 (drop h s) = header_terminator \<and> (\<forall>q < h. take 4 (drop q s) \<noteq> header_terminator)"
  unfolding find_terminator find_upt_Some using terminator_fits [of h s] by fastforce

lemma find_terminator_None:
  "find_bytes s header_terminator 0 = None \<longleftrightarrow> (\<forall>q. take 4 (drop q s) \<noteq> header_terminator)"
  unfolding find_terminator find_upt_None using terminator_fits [of _ s] by fastforce

lemma find_terminator_from:
  assumes "\<And>q. take 4 (drop q s) = header_terminator \<Longrightarrow> start \<le> q"
  shows "find_bytes s header_terminator start = find_bytes s header_terminator 0"
  unfolding find_terminator by (rule find_upt_skip [symmetric]) (use assms in force)+

lemma find_terminator_append:
  assumes "find_bytes u header_terminator 0 = Some h"
  shows "find_bytes (u @ v) header_terminator 0 = Some h" "h + 4 \<le> length u"
proof -
  show fits: "h + 4 \<le> length u"
    using assms unfolding find_terminator_Some by (blast dest: terminator_fits)
  then show "find_bytes (u @ v) header_terminator 0 = Some h"
    using assms unfolding find_terminator_Some by simp
qed

lemma delimiter_closes_append:
  assumes "at + 2 \<le> length u"
  shows "delimiter_closes_at (u @ v) at = delimiter_closes_at u at"
  using assms by (simp add: delimiter_closes_at_def get_range_def)

lemma delimiter_closes_drop:
  "delimiter_closes_at (drop n u) at = delimiter_closes_at u (n + at)" if "n \<le> length u"
  using that by (auto simp: delimiter_closes_at_def get_range_def add.commute)

lemma delimiter_closes_found:
  assumes "delimiter_at body b d"
  obtains closes where "delimiter_closes_at body (d + length b + 4) = Inr closes"
proof -
  obtain closes where "delimiter_suffix_closes (get_range body (d + 4 + length b) (d + 4 + length b + 2)) = Some closes"
    using assms unfolding delimiter_at_iff by blast
  moreover have "d + 4 + length b = d + length b + 4"
    by simp
  ultimately have "delimiter_closes_at body (d + length b + 4) = Inr closes"
    unfolding delimiter_closes_at_def by simp
  then show ?thesis
    by (rule that)
qed

text \<open>Data that is handed out before the delimiter does not change what the rest means.\<close>

lemma ref_data_chunk:
  assumes "\<And>d. find_delimiter body b 0 = Some d \<Longrightarrow> n \<le> d"
    and "find_delimiter body b 0 = None \<Longrightarrow> n \<le> length body - delimiter_carry_over (length b)"
  shows "ref_data b l later read m prior body
           = ref_data b l later (read + n) m (prior @ take n body) (drop n body)"
proof (cases "find_delimiter body b 0")
  case None
  then show ?thesis
    using assms(2) find_delimiter_drop_None [OF None, of n] by (auto simp: ref_data_def)
next
  case (Some d)
  have d: "n \<le> d" "n \<le> length body"
    using assms(1) [OF Some] find_delimiter_fits(2) [OF Some] by simp_all
  have "delimiter_closes_at (drop n body) (d - n + length b + 4) = delimiter_closes_at body (d + length b + 4)"
    using delimiter_closes_drop [OF d(2), of "d - n + length b + 4"] d(1) by simp
  moreover have "take n body @ take (d - n) (drop n body) = take d body"
    using d(1) by (metis le_add_diff_inverse take_add)
  ultimately show ?thesis
    using Some d find_delimiter_drop [OF Some d(1)] by (simp add: ref_data_def Let_def)
qed

section \<open>The search resumes where the last one ended\<close>

text \<open>C21: The search for delimiter lines, which jumps over every prefix it rejects, finds the first
  position at or after its start where a delimiter line is. When bytes are appended to text that
  holds none, searching on from the carry-over before the old end finds what searching everything
  again would find: the carry-over is long enough.\<close>

theorem delimiter_search_exact:
  "find_delimiter body b start = find (delimiter_at body b) [start..<length body]
   \<and> (find_delimiter u b 0 = None \<longrightarrow>
        find_delimiter (u @ v) b (length u - delimiter_carry_over (length b)) = find_delimiter (u @ v) b 0)"
proof (intro conjI impI)
  assume none: "find_delimiter u b 0 = None"
  show "find_delimiter (u @ v) b (length u - delimiter_carry_over (length b)) = find_delimiter (u @ v) b 0"
  proof (rule find_delimiter_from)
    fix q
    assume "delimiter_at (u @ v) b q"
    then have "\<not> q + length b + 6 \<le> length u"
      using none delimiter_at_append unfolding find_delimiter_None by blast
    then show "length u - delimiter_carry_over (length b) \<le> q"
      by (simp add: delimiter_carry_over_def)
  qed
qed (rule find_delimiter_first)

lemma delimiter_search_exact_witness:
  "find_delimiter (''abcdefgh'' @ [CR, LF] @ ''--'') ''b'' 0 = None
   \<and> find_delimiter ((''abcdefgh'' @ [CR, LF] @ ''--'') @ ''b--'') ''b'' 6 = Some 8"
proof -
  have none: "find_delimiter (''abcdefgh'' @ [CR, LF] @ ''--'') ''b'' 0 = None"
    by code_simp
  have found: "find_delimiter ((''abcdefgh'' @ [CR, LF] @ ''--'') @ ''b--'') ''b'' 0 = Some 8"
    by code_simp
  have "length (''abcdefgh'' @ [CR, LF] @ ''--'') - delimiter_carry_over (length ''b'') = 6"
    by (simp add: delimiter_carry_over_def)
  then show ?thesis
    using delimiter_search_exact
      [of "[]" "''b''" 0 "''abcdefgh'' @ [CR, LF] @ ''--''" "''b--''"] none found by metis
qed

section \<open>Sample input\<close>

definition sample_limits :: multipart_limits where
  "sample_limits = \<lparr>
     max_fields = 2, max_field_bytes = 40, max_headers_per_field = 3, max_header_bytes_per_field = 60,
     max_boundary_bytes = 5, max_chunk_bytes = 3, max_parser_buffer_bytes = 120\<rparr>"

definition sample_frames :: "string list" where
  "sample_frames =
     [''--b'' @ [CR], [LF] @ ''Content-Disposition: form-data; name=a'' @ [CR, LF, CR, LF],
      ''data'' @ [CR, LF] @ ''-'', ''-b-'', ''-'' @ [CR, LF]]"

lemma sample_limits_build: "build_limits sample_limits = Inr sample_limits"
  by (simp add: build_limits_def required_parser_buffer_bytes_def header_peak_def chunk_peak_def
      delimiter_carry_over_def sample_limits_def)

lemma sample_limits_fit:
  "max_field_bytes sample_limits < 2 ^ 64" "length ''b'' \<le> max_boundary_bytes sample_limits"
  by (simp_all add: sample_limits_def)

lemma sample_meaning:
  "ref_opening ''b'' sample_limits (concat sample_frames)
     = ([(\<lparr>fm_name = ''a'', fm_filename = None, fm_content_type = None, fm_bytes = 1\<rparr>, ''data'')], None)"
  by code_simp

end
