(* ===== verification/Multipart_Refinement.thy ===== *)
theory Multipart_Refinement
  imports Multipart_Reference
begin

text \<open>
  The incremental parser means what the reference of \<open>Multipart_Reference\<close> means, for every way a
  body is cut into frames: the fields it delivers are those of the reference and it ends with the
  same refusal or without one. The proof keeps an invariant of the parser (what it holds is what
  it reserved, the positions it has searched hold no match, and its buffer stays within the peaks
  the limits were built for) and reads off each state what the rest of the body means.
\<close>

section \<open>The invariant of the parser\<close>

definition built :: "incremental_parser \<Rightarrow> bool" where
  "built p \<longleftrightarrow> build_limits (ip_limits p) = Inr (ip_limits p)
     \<and> max_field_bytes (ip_limits p) < 2 ^ 64
     \<and> length (ip_boundary p) \<le> max_boundary_bytes (ip_limits p)"

definition accounted :: "incremental_parser \<Rightarrow> nat \<Rightarrow> bool" where
  "accounted p delivered \<longleftrightarrow>
     bb_limit (ip_budget p) = max_parser_buffer_bytes (ip_limits p)
     \<and> bb_reserved (ip_budget p) = length (ip_buffer p) + delivered"

abbreviation line_bytes :: "incremental_parser \<Rightarrow> nat" where
  "line_bytes p \<equiv> length (ip_boundary p) + 6"

definition state_ok :: "incremental_parser \<Rightarrow> bool" where
  "state_ok p \<longleftrightarrow> ip_scanned p \<le> length (ip_buffer p) \<and>
     (case ip_state p of
        Opening \<Rightarrow> length (ip_buffer p) \<le> length (ip_boundary p) + 4 \<and> ip_fields_seen p = 0 \<and> ip_scanned p = 0
      | Headers \<Rightarrow> length (ip_buffer p) \<le> max_header_bytes_per_field (ip_limits p)
          \<and> (\<forall>q. take 4 (drop q (ip_buffer p)) = header_terminator \<longrightarrow> ip_scanned p < q + 4)
      | Data \<Rightarrow> length (ip_buffer p)
            \<le> max (max_header_bytes_per_field (ip_limits p)) (max_chunk_bytes (ip_limits p) + length (ip_boundary p) + 5)
          \<and> (\<forall>q. delimiter_at (ip_buffer p) (ip_boundary p) q \<longrightarrow>
               ip_scanned p < q + line_bytes p
               \<and> length (ip_buffer p) \<le> q + line_bytes p + max_header_bytes_per_field (ip_limits p))
          \<and> ip_field_bytes p \<le> max_field_bytes (ip_limits p)
      | Epilogue \<Rightarrow> length (ip_buffer p) \<le> max (max_header_bytes_per_field (ip_limits p)) 3
      | Complete \<Rightarrow> ip_buffer p = [])"

definition parser_ok :: "incremental_parser \<Rightarrow> nat \<Rightarrow> bool" where
  "parser_ok p delivered \<longleftrightarrow> built p \<and> accounted p delivered \<and> state_ok p"

lemma built_bounds:
  assumes "built p"
  defines "l \<equiv> ip_limits p"
  shows "0 < max_chunk_bytes l" "0 < max_header_bytes_per_field l"
    and "2 * max_header_bytes_per_field l \<le> max_parser_buffer_bytes l"
    and "2 * max_header_bytes_per_field l < 2 ^ 64"
    and "max_chunk_bytes l + length (ip_boundary p) + 5 \<le> max_parser_buffer_bytes l"
    and "max_chunk_bytes l + length (ip_boundary p) + 5 < 2 ^ 64"
    and "max_field_bytes l < 2 ^ 64"
  using assms
  by (auto simp: built_def build_limits_def required_parser_buffer_bytes_def header_peak_def
      chunk_peak_def delimiter_carry_over_def split: if_splits)

section \<open>What the rest of a body means in a state\<close>

type_synonym open_field = "(field_metadata \<times> string) option"

definition coherent :: "incremental_parser \<Rightarrow> open_field \<Rightarrow> bool" where
  "coherent p cur \<longleftrightarrow> (cur \<noteq> None \<longleftrightarrow> ip_state p = Data)"

definition denote :: "incremental_parser \<Rightarrow> open_field \<Rightarrow> string \<Rightarrow> body_outcome" where
  "denote p cur rest =
     (case ip_state p of
        Opening \<Rightarrow> ref_opening (ip_boundary p) (ip_limits p) rest
      | Headers \<Rightarrow> ref_headers (ip_boundary p) (ip_limits p) (ip_fields_seen p) rest
      | Data \<Rightarrow>
          (case cur of
             None \<Rightarrow> ([], Some Panics)
           | Some (m, prior) \<Rightarrow>
               ref_data (ip_boundary p) (ip_limits p)
                 (ref_headers (ip_boundary p) (ip_limits p) (ip_fields_seen p))
                 (ip_field_bytes p) m prior rest)
      | Epilogue \<Rightarrow> ([], ref_epilogue rest)
      | Complete \<Rightarrow> ([], None))"

fun after_event :: "parser_event \<Rightarrow> open_field \<Rightarrow> open_field" where
  "after_event (Field m) cur = Some (m, [])"
| "after_event (Chunk c) cur = map_option (\<lambda>(m, d). (m, d @ c)) cur"
| "after_event FieldEnd cur = None"
| "after_event End cur = None"

fun completed :: "parser_event \<Rightarrow> open_field \<Rightarrow> (field_metadata \<times> string) list" where
  "completed FieldEnd (Some f) = [f]"
| "completed _ _ = []"

text \<open>The fields of a sequence of events.\<close>

fun gather :: "open_field \<Rightarrow> parser_event list \<Rightarrow> (field_metadata \<times> string) list" where
  "gather cur [] = []"
| "gather cur (event # events) = completed event cur @ gather (after_event event cur) events"

definition refusal :: "fault + 'a \<Rightarrow> fault option" where
  "refusal r = (case r of Inl e \<Rightarrow> Some e | Inr _ \<Rightarrow> None)"

text \<open>An event fits what is open, and its payload is bounded.\<close>

fun proper :: "multipart_limits \<Rightarrow> open_field \<Rightarrow> parser_event \<Rightarrow> bool" where
  "proper l cur (Field m) \<longleftrightarrow> cur = None \<and> fm_bytes m \<le> max_header_bytes_per_field l"
| "proper l cur (Chunk c) \<longleftrightarrow> cur \<noteq> None \<and> c \<noteq> [] \<and> length c \<le> max_chunk_bytes l"
| "proper l cur FieldEnd \<longleftrightarrow> cur \<noteq> None"
| "proper l cur End \<longleftrightarrow> cur = None"

text \<open>
  A step keeps the invariant and what the rest of the body means, whatever follows the frame.
  A parser that asks for more has used the frame up, and ending the body there means what
  \<open>finish\<close> answers.
\<close>

fun sound_step ::
  "incremental_parser \<Rightarrow> string \<Rightarrow> string \<Rightarrow> open_field
     \<Rightarrow> (fault + parser_step) \<times> incremental_parser \<times> string \<Rightarrow> bool"
where
  "sound_step p source future cur (Inl e, _, _) \<longleftrightarrow>
     denote p cur (ip_buffer p @ source @ future) = ([], Some e)"
| "sound_step p source future cur (Inr Continue, p', source') \<longleftrightarrow>
     parser_ok p' 0 \<and> coherent p' cur \<and> ip_limits p' = ip_limits p
     \<and> denote p cur (ip_buffer p @ source @ future) = denote p' cur (ip_buffer p' @ source' @ future)"
| "sound_step p source future cur (Inr NeedMore, p', source') \<longleftrightarrow>
     parser_ok p' 0 \<and> coherent p' cur \<and> ip_limits p' = ip_limits p \<and> source' = []
     \<and> denote p cur (ip_buffer p @ source @ future) = denote p' cur (ip_buffer p' @ future)
     \<and> denote p' cur (ip_buffer p') = ([], refusal (fst (finish (p', []))))"
| "sound_step p source future cur (Inr (Event event), p', source') \<longleftrightarrow>
     parser_ok p' (event_reservation event) \<and> coherent p' (after_event event cur)
     \<and> ip_limits p' = ip_limits p \<and> proper (ip_limits p) cur event
     \<and> (event = End \<longrightarrow> ip_state p' = Complete)
     \<and> denote p cur (ip_buffer p @ source @ future)
         = apfst (append (completed event cur))
             (denote p' (after_event event cur) (ip_buffer p' @ source' @ future))"

lemma sound_step_transfer:
  assumes "denote q cur (ip_buffer q @ rest @ future) = denote p cur (ip_buffer p @ source @ future)"
    and "ip_limits q = ip_limits p"
  shows "sound_step p source future cur r \<longleftrightarrow> sound_step q rest future cur r"
  using assms by (cases "(q, rest, future, cur, r)" rule: sound_step.cases) simp_all

lemma apfst_append_Nil [simp]: "apfst (append []) x = x"
  by (cases x) simp

section \<open>Filling and consuming\<close>

lemma reserve_room:
  assumes "bb_reserved b + n \<le> bb_limit b" "bb_reserved b + n < 2 ^ 64"
  shows "budget_reserve n b = Inr (b\<lparr>bb_reserved := bb_reserved b + n, bb_peak := max (bb_peak b) (bb_reserved b + n)\<rparr>)"
  using assms by (simp add: budget_reserve_def Let_def)

lemma retain_ok:
  assumes "accounted p 0" "length (ip_buffer p) + length bytes \<le> max_parser_buffer_bytes (ip_limits p)"
    and "length (ip_buffer p) + length bytes < 2 ^ 64"
  obtains b where "retain bytes (p, source) = (Inr (), p\<lparr>ip_budget := b, ip_buffer := ip_buffer p @ bytes\<rparr>, source)"
    and "bb_limit b = bb_limit (ip_budget p)"
    and "bb_reserved b = length (ip_buffer p) + length bytes"
  using assms that by (simp add: retain_def accounted_def reserve_room)

lemma fill_ok:
  assumes "accounted p 0" "length (ip_buffer p) + min want (length source) \<le> max_parser_buffer_bytes (ip_limits p)"
    and "length (ip_buffer p) + min want (length source) < 2 ^ 64"
  obtains b where "fill want (p, source)
      = (Inr (), p\<lparr>ip_budget := b, ip_buffer := ip_buffer p @ take want source\<rparr>, drop want source)"
    and "accounted (p\<lparr>ip_budget := b, ip_buffer := ip_buffer p @ take want source\<rparr>) 0"
proof (cases "min want (length source) = 0")
  case True
  then have "take want source = []" "drop want source = source"
    by (auto simp: min_def split: if_splits)
  then show ?thesis
    using that [of "ip_budget p"] True assms(1) by (auto simp: fill_def Let_def accounted_def)
next
  case False
  let ?n = "min want (length source)"
  have take: "take ?n source = take want source" "drop ?n source = drop want source"
    by (auto simp: min_def)
  obtain b where b: "retain (take ?n source) (p, source)
        = (Inr (), p\<lparr>ip_budget := b, ip_buffer := ip_buffer p @ take ?n source\<rparr>, source)"
      "bb_limit b = bb_limit (ip_budget p)" "bb_reserved b = length (ip_buffer p) + length (take ?n source)"
    using retain_ok [of p "take ?n source" source] assms by auto
  show ?thesis
    using that [of b] b False assms(1) unfolding take
    by (simp add: fill_def Let_def and_then_def accounted_def take)
qed

lemma consume_ok:
  assumes "accounted p k" "n \<le> length (ip_buffer p)"
  obtains b where "consume n (p, source)
      = (Inr (), p\<lparr>ip_budget := b, ip_buffer := drop n (ip_buffer p), ip_scanned := ip_scanned p - n\<rparr>, source)"
    and "accounted (p\<lparr>ip_budget := b, ip_buffer := drop n (ip_buffer p), ip_scanned := ip_scanned p - n\<rparr>) k"
  using assms that [of "(ip_budget p)\<lparr>bb_reserved := bb_reserved (ip_budget p) - n\<rparr>"]
  by (simp add: consume_def and_then_def release_delivered_def budget_release_def accounted_def)

section \<open>Each state\<close>

lemma suffix_state:
  "delimiter_suffix at (p, source) =
     (case delimiter_closes_at (ip_buffer p) at of
        Inl e \<Rightarrow> (Inl (Refuses e), p, source)
      | Inr closes \<Rightarrow> (Inr (if closes then Epilogue else Headers), p, source))"
  by (simp add: delimiter_suffix_def)

lemma opens_body_append:
  assumes "length b + 2 \<le> length u"
  shows "opens_body (u @ v) b \<longleftrightarrow> opens_body u b"
  using assms by (simp add: opens_body_def)

lemma step_opening_eq:
  "step_opening (p, source) =
     and_then (fill (length (ip_boundary p) + 4 - length (ip_buffer p)))
       (\<lambda>_ (q, source).
          if length (ip_buffer q) < length (ip_boundary p) + 4 then (Inr NeedMore, q, source)
          else if \<not> opens_body (ip_buffer q) (ip_boundary q)
          then refuse invalid_delimiter_framing (q, source)
          else and_then (delimiter_suffix (length (ip_boundary p) + 2))
                 (\<lambda>next_state. and_then (consume (length (ip_boundary p) + 4))
                    (\<lambda>_ (p, source). (Inr Continue, p\<lparr>ip_state := next_state\<rparr>, source)))
                 (q, source))
       (p, source)"
proof -
  have "length body_prefix + n = n + 2" "n + 2 + 2 = n + (4::nat)" for n
    by simp_all
  then show ?thesis
    unfolding step_opening_def Let_def prod.case by (simp only:)
qed

lemma step_opening_sound:
  assumes ok: "parser_ok p 0" and st: "ip_state p = Opening" and co: "coherent p cur"
  shows "sound_step p source future cur (step_opening (p, source))"
proof -
  let ?b = "ip_boundary p" and ?l = "ip_limits p"
  let ?line = "length ?b + 4"
  have bounds: "length (ip_buffer p) \<le> ?line" "?line \<le> max_parser_buffer_bytes ?l" "?line < 2 ^ 64"
    using ok st built_bounds(5,6) [of p] by (simp_all add: parser_ok_def state_ok_def)
  have acc: "accounted p 0"
    using ok by (simp add: parser_ok_def)
  obtain g where g: "fill (?line - length (ip_buffer p)) (p, source)
      = (Inr (), p\<lparr>ip_budget := g, ip_buffer := ip_buffer p @ take (?line - length (ip_buffer p)) source\<rparr>,
         drop (?line - length (ip_buffer p)) source)"
      "accounted (p\<lparr>ip_budget := g, ip_buffer := ip_buffer p @ take (?line - length (ip_buffer p)) source\<rparr>) 0"
    by (rule fill_ok [OF acc, of "?line - length (ip_buffer p)" source]) (use bounds in linarith)+
  define q where "q = p\<lparr>ip_budget := g, ip_buffer := ip_buffer p @ take (?line - length (ip_buffer p)) source\<rparr>"
  define rest where "rest = drop (?line - length (ip_buffer p)) source"
  have q: "ip_boundary q = ?b" "ip_limits q = ?l" "ip_state q = Opening" "ip_fields_seen q = 0"
      "ip_scanned q = 0" "built q" "accounted q 0" "length (ip_buffer q) \<le> ?line"
      "ip_buffer p @ source @ future = ip_buffer q @ rest @ future"
    using ok st g(2) bounds(1) by (simp_all add: q_def rest_def parser_ok_def state_ok_def built_def)
  show ?thesis
  proof (cases "length (ip_buffer q) < ?line")
    case True
    then have "rest = []"
      using bounds(1) by (simp add: q_def rest_def split: nat_diff_split)
    moreover have "step_opening (p, source) = (Inr NeedMore, q, rest)"
      using g(1) [folded q_def rest_def] True by (simp add: step_opening_eq and_then_def)
    moreover have "denote p cur (ip_buffer p @ source @ future) = denote q cur (ip_buffer q @ rest @ future)"
      unfolding q(9) using q st by (simp add: denote_def)
    moreover have "denote q cur (ip_buffer q) = ([], refusal (fst (finish (q, []))))"
      using True q by (simp add: denote_def ref_opening_def finish_def refusal_def)
    ultimately show ?thesis
      using q(1-8) co st by (simp add: parser_ok_def state_ok_def coherent_def)
  next
    case False
    then have len: "length (ip_buffer q) = ?line"
      using q(8) by simp
    have meaning: "denote p cur (ip_buffer p @ source @ future)
        = (if \<not> opens_body (ip_buffer q) ?b then ([], Some misframed)
           else (case delimiter_closes_at (ip_buffer q) (length ?b + 2) of
                   Inl e \<Rightarrow> ([], Some (Refuses e))
                 | Inr closes \<Rightarrow> if closes then ([], ref_epilogue (rest @ future))
                               else ref_headers ?b ?l 0 (rest @ future)))"
      unfolding q(9) using st len
      by (simp add: denote_def ref_opening_def opens_body_append delimiter_closes_append split: sum.split)
    obtain c where c: "consume ?line (q, rest)
        = (Inr (), q\<lparr>ip_budget := c, ip_buffer := drop ?line (ip_buffer q), ip_scanned := ip_scanned q - ?line\<rparr>, rest)"
        "accounted (q\<lparr>ip_budget := c, ip_buffer := drop ?line (ip_buffer q), ip_scanned := ip_scanned q - ?line\<rparr>) 0"
      using consume_ok [OF q(7)] len by (metis order_refl)
    have run: "step_opening (p, source)
        = (if \<not> opens_body (ip_buffer q) ?b then (Inl misframed, q, rest)
           else (case delimiter_closes_at (ip_buffer q) (length ?b + 2) of
                   Inl e \<Rightarrow> (Inl (Refuses e), q, rest)
                 | Inr closes \<Rightarrow>
                     (Inr Continue,
                      q\<lparr>ip_budget := c, ip_buffer := [], ip_scanned := 0,
                        ip_state := (if closes then Epilogue else Headers)\<rparr>, rest)))"
      using g(1) [folded q_def rest_def] c(1) len q(1,5) unfolding step_opening_eq
      by (simp add: and_then_def suffix_state split: sum.splits)
    show ?thesis
      unfolding run using meaning c(2) q(1-8) len co st
      by (auto simp: parser_ok_def state_ok_def coherent_def denote_def accounted_def built_def split: sum.splits)
  qed
qed

lemma metadata_bytes:
  assumes "parse_header_block block = Inr h" "into_metadata h = Inr m"
  shows "fm_bytes m \<le> length block"
proof -
  have "fm_bytes m = header_weight h"
    using assms(2)
    by (auto simp: into_metadata_def measure_metadata_def header_weight_def split: option.splits if_splits)
  then show ?thesis
    using parse_header_block_weight [OF assms(1)] by simp
qed

lemma ref_block_bytes: "ref_block l n block = Inr m \<Longrightarrow> fm_bytes m \<le> length block"
  using metadata_bytes by (auto simp: ref_block_def split: if_splits sum.splits)

lemma read_metadata_ok:
  assumes acc: "accounted q 0" and h: "h \<le> length (ip_buffer q)"
    and room: "length (ip_buffer q) + h \<le> max_parser_buffer_bytes (ip_limits q)"
      "length (ip_buffer q) + h < 2 ^ 64"
  defines "r \<equiv> ref_block (ip_limits q) (ip_fields_seen q) (take h (ip_buffer q))"
  shows "r = Inl e \<Longrightarrow> \<exists>q'. read_field_metadata h (q, s) = (Inl (Refuses e), q', s)"
    and "r = Inr m \<Longrightarrow> \<exists>g. read_field_metadata h (q, s)
           = (Inr m, q\<lparr>ip_fields_seen := ip_fields_seen q + 1, ip_budget := g\<rparr>, s)
         \<and> accounted (q\<lparr>ip_fields_seen := ip_fields_seen q + 1, ip_budget := g\<rparr>) (fm_bytes m)"
proof -
  let ?b = "ip_budget q" and ?block = "take h (ip_buffer q)"
  let ?g = "?b\<lparr>bb_reserved := bb_reserved ?b + h, bb_peak := max (bb_peak ?b) (bb_reserved ?b + h)\<rparr>"
  have reserve: "budget_reserve h ?b = Inr ?g"
    using acc room by (intro reserve_room) (simp_all add: accounted_def)
  show "\<exists>q'. read_field_metadata h (q, s) = (Inl (Refuses e), q', s)" if "r = Inl e"
    using that reserve unfolding r_def ref_block_def
    by (auto simp: read_field_metadata_def Let_def and_then_def release_delivered_def budget_release_def
        split: if_splits sum.splits)
  show "\<exists>g. read_field_metadata h (q, s)
           = (Inr m, q\<lparr>ip_fields_seen := ip_fields_seen q + 1, ip_budget := g\<rparr>, s)
         \<and> accounted (q\<lparr>ip_fields_seen := ip_fields_seen q + 1, ip_budget := g\<rparr>) (fm_bytes m)"
    if read: "r = Inr m"
  proof -
    obtain hs where hs: "parse_header_block ?block = Inr hs" "into_metadata hs = Inr m"
        "\<not> max_headers_per_field (ip_limits q) < header_line_count ?block"
        "\<not> max_fields (ip_limits q) < ip_fields_seen q + 1"
      using read unfolding r_def ref_block_def by (auto split: if_splits sum.splits)
    have "fm_bytes m \<le> h"
      using metadata_bytes [OF hs(1,2)] h by simp
    then have "read_field_metadata h (q, s) = (Inr m, q\<lparr>ip_fields_seen := ip_fields_seen q + 1,
        ip_budget := ?g\<lparr>bb_reserved := bb_reserved ?b + fm_bytes m\<rparr>\<rparr>, s)"
      using hs reserve by (simp add: read_field_metadata_def Let_def and_then_def release_delivered_def
          budget_release_def)
    moreover have "accounted (q\<lparr>ip_fields_seen := ip_fields_seen q + 1,
        ip_budget := ?g\<lparr>bb_reserved := bb_reserved ?b + fm_bytes m\<rparr>\<rparr>) (fm_bytes m)"
      using acc by (simp add: accounted_def)
    ultimately show ?thesis
      by blast
  qed
qed

lemma step_headers_eq:
  "step_headers (p, source) =
     and_then (fill (max_header_bytes_per_field (ip_limits p) - length (ip_buffer p)))
       (\<lambda>_ (q, source).
          case find_bytes (ip_buffer q) header_terminator (ip_scanned q - 3) of
            None \<Rightarrow> await_header_terminator (max_header_bytes_per_field (ip_limits p)) (q, source)
          | Some h \<Rightarrow>
              and_then (read_field_metadata h)
                (\<lambda>m. and_then (consume (h + 4))
                   (\<lambda>_ (p, source).
                      (Inr (Event (Field m)),
                       p\<lparr>ip_scanned := 0, ip_field_bytes := 0, ip_state := Data\<rparr>, source)))
                (q, source))
       (p, source)"
proof -
  have "length header_terminator = 4" "(4::nat) - 1 = 3"
    by simp_all
  then show ?thesis
    unfolding step_headers_def Let_def prod.case by (simp only:)
qed

lemma step_headers_sound:
  assumes ok: "parser_ok p 0" and st: "ip_state p = Headers" and co: "coherent p cur"
  shows "sound_step p source future cur (step_headers (p, source))"
proof -
  let ?b = "ip_boundary p" and ?l = "ip_limits p"
  let ?H = "max_header_bytes_per_field ?l"
  let ?n = "?H - length (ip_buffer p)"
  have bounds: "length (ip_buffer p) \<le> ?H" "2 * ?H \<le> max_parser_buffer_bytes ?l" "2 * ?H < 2 ^ 64"
    using ok st built_bounds(3,4) [of p] by (simp_all add: parser_ok_def state_ok_def)
  have acc: "accounted p 0"
    using ok by (simp add: parser_ok_def)
  obtain g where g: "fill ?n (p, source)
      = (Inr (), p\<lparr>ip_budget := g, ip_buffer := ip_buffer p @ take ?n source\<rparr>, drop ?n source)"
      "accounted (p\<lparr>ip_budget := g, ip_buffer := ip_buffer p @ take ?n source\<rparr>) 0"
    by (rule fill_ok [OF acc, of ?n source]) (use bounds in linarith)+
  define q where "q = p\<lparr>ip_budget := g, ip_buffer := ip_buffer p @ take ?n source\<rparr>"
  define rest where "rest = drop ?n source"
  have q: "ip_boundary q = ?b" "ip_limits q = ?l" "ip_state q = Headers"
      "ip_fields_seen q = ip_fields_seen p" "ip_scanned q = ip_scanned p" "built q" "accounted q 0"
      "length (ip_buffer q) \<le> ?H" "ip_scanned q \<le> length (ip_buffer q)"
    using ok st g(2) bounds(1) by (simp_all add: q_def parser_ok_def state_ok_def built_def)
  have body: "ip_buffer p @ source @ future = ip_buffer q @ rest @ future"
    by (simp add: q_def rest_def)
  have drained: "rest = []" if "length (ip_buffer q) < ?H"
    using that bounds(1) by (simp add: q_def rest_def split: nat_diff_split)
  have unseen: "ip_scanned p < t + 4" if "take 4 (drop t (ip_buffer q)) = header_terminator" for t
  proof (rule ccontr)
    assume "\<not> ip_scanned p < t + 4"
    then have "t + 4 \<le> length (ip_buffer p)"
      using ok by (simp add: parser_ok_def state_ok_def)
    then have "take 4 (drop t (ip_buffer p)) = header_terminator"
      using that by (simp add: q_def)
    then show False
      using ok st \<open>\<not> _\<close> by (simp add: parser_ok_def state_ok_def)
  qed
  have search: "find_bytes (ip_buffer q) header_terminator (ip_scanned q - 3)
      = find_bytes (ip_buffer q) header_terminator 0"
    by (rule find_terminator_from) (use unseen q(5) in force)
  show ?thesis
  proof (cases "find_bytes (ip_buffer q) header_terminator 0")
    case None
    let ?w = "q\<lparr>ip_scanned := length (ip_buffer q)\<rparr>"
    have run: "step_headers (p, source) = (if ?H \<le> length (ip_buffer q)
        then (Inl (Refuses (malformed ''multipart field header block exceeds its configured maximum'')), ?w, rest)
        else (Inr NeedMore, ?w, rest))"
      using g(1) [folded q_def rest_def] None search
      by (simp add: step_headers_eq and_then_def await_header_terminator_def Let_def)
    show ?thesis
    proof (cases "?H \<le> length (ip_buffer q)")
      case True
      then have "take ?H (ip_buffer q @ rest @ future) = ip_buffer q"
        using q(8) by simp
      then have "denote p cur (ip_buffer q @ rest @ future)
          = ([], Some (Refuses (malformed ''multipart field header block exceeds its configured maximum'')))"
        using None st True by (simp add: denote_def ref_headers.simps [of _ _ _ "_ @ _"])
      then show ?thesis
        unfolding run if_P [OF True] sound_step.simps body .
    next
      case False
      have "denote ?w cur (ip_buffer ?w) = ([], refusal (fst (finish (?w, []))))"
        using False None q by (simp add: denote_def ref_headers.simps [of _ _ _ "ip_buffer q"] finish_def refusal_def)
      moreover have "denote p cur (ip_buffer q @ rest @ future) = denote ?w cur (ip_buffer q @ rest @ future)"
        using q(1-5) st by (simp add: denote_def)
      moreover have "parser_ok ?w 0"
        using q None unfolding find_terminator_None
        by (simp add: parser_ok_def state_ok_def built_def accounted_def)
      ultimately show ?thesis
        unfolding run if_not_P [OF False] sound_step.simps body
        using False drained co st q(2,3) by (simp add: coherent_def)
    qed
  next
    case (Some h)
    have fits: "h + 4 \<le> length (ip_buffer q)"
      using find_terminator_append(2) [OF Some] .
    have "take ?H (ip_buffer q @ rest @ future)
        = ip_buffer q @ take (?H - length (ip_buffer q)) (rest @ future)"
      using q(8) by simp
    then have found: "find_bytes (take ?H (ip_buffer q @ rest @ future)) header_terminator 0 = Some h"
      using find_terminator_append(1) [OF Some] by simp
    let ?r = "ref_block ?l (ip_fields_seen p) (take h (ip_buffer q))"
    have meaning: "denote p cur (ip_buffer q @ rest @ future)
        = (case ?r of
             Inl e \<Rightarrow> ([], Some (Refuses e))
           | Inr m \<Rightarrow> ref_data ?b ?l (ref_headers ?b ?l (ip_fields_seen p + 1)) 0 m []
                        (drop (h + 4) (ip_buffer q) @ rest @ future))"
      using st found fits
      by (simp add: denote_def ref_headers.simps [of _ _ _ "_ @ _"] Let_def split: sum.split)
    have room: "h \<le> length (ip_buffer q)" "length (ip_buffer q) + h \<le> max_parser_buffer_bytes (ip_limits q)"
        "length (ip_buffer q) + h < 2 ^ 64"
      unfolding q(2) using fits bounds q(8) by linarith+
    note read = read_metadata_ok [OF q(7) room, of _ rest, unfolded q(2,4)]
    show ?thesis
    proof (cases ?r)
      case (Inl e)
      obtain q' where "read_field_metadata h (q, rest) = (Inl (Refuses e), q', rest)"
        using read(1) [OF Inl] by blast
      then have run: "step_headers (p, source) = (Inl (Refuses e), q', rest)"
        using g(1) [folded q_def rest_def] Some search by (simp add: step_headers_eq and_then_def)
      show ?thesis
        unfolding run sound_step.simps body meaning using Inl by simp
    next
      case (Inr m)
      obtain c where c: "read_field_metadata h (q, rest)
            = (Inr m, q\<lparr>ip_fields_seen := ip_fields_seen p + 1, ip_budget := c\<rparr>, rest)"
          "accounted (q\<lparr>ip_fields_seen := ip_fields_seen p + 1, ip_budget := c\<rparr>) (fm_bytes m)"
        using read(2) [OF Inr] by blast
      let ?c = "q\<lparr>ip_fields_seen := ip_fields_seen p + 1, ip_budget := c\<rparr>"
      obtain d where d: "consume (h + 4) (?c, rest) = (Inr (), ?c\<lparr>ip_budget := d,
            ip_buffer := drop (h + 4) (ip_buffer ?c), ip_scanned := ip_scanned ?c - (h + 4)\<rparr>, rest)"
          "accounted (?c\<lparr>ip_budget := d, ip_buffer := drop (h + 4) (ip_buffer ?c),
            ip_scanned := ip_scanned ?c - (h + 4)\<rparr>) (fm_bytes m)"
        using consume_ok [OF c(2), of "h + 4" rest] fits by auto
      let ?d = "?c\<lparr>ip_budget := d, ip_buffer := drop (h + 4) (ip_buffer ?c), ip_scanned := 0,
        ip_field_bytes := 0, ip_state := Data\<rparr>"
      have run: "step_headers (p, source) = (Inr (Event (Field m)), ?d, rest)"
        using g(1) [folded q_def rest_def] Some search c(1) d(1)
        by (simp add: step_headers_eq and_then_def)
      have "parser_ok ?d (fm_bytes m)"
        using d(2) q fits by (auto simp: parser_ok_def state_ok_def accounted_def built_def)
      moreover have "proper ?l cur (Field m)"
        using ref_block_bytes [OF Inr] fits q(8) co st by (cases cur) (auto simp: coherent_def)
      ultimately show ?thesis
        unfolding run sound_step.simps body meaning using Inr q by (simp add: coherent_def denote_def)
    qed
  qed
qed

text \<open>
  The bytes that may leave as data: none of them is part of the first delimiter of the body, nor
  of one that the end of the buffer could still be the start of.
\<close>

definition may_leave :: "string \<Rightarrow> string \<Rightarrow> nat \<Rightarrow> bool" where
  "may_leave b body n \<longleftrightarrow>
     (case find_delimiter body b 0 of None \<Rightarrow> n + length b + 5 \<le> length body | Some d \<Rightarrow> n \<le> d)"

lemma may_leave_limit:
  assumes "may_leave b body n" "n' \<le> n" "max_field_bytes l < read + n'"
  shows "ref_data b l later read m prior body = ([], Some (field_too_large l))"
  using assms by (auto simp: may_leave_def ref_data_def delimiter_carry_over_def split: option.splits)

lemma may_leave_chunk:
  assumes "may_leave b body n" "n' \<le> n"
  shows "ref_data b l later read m prior body
           = ref_data b l later (read + n') m (prior @ take n' body) (drop n' body)"
  by (rule ref_data_chunk)
    (use assms in \<open>auto simp: may_leave_def delimiter_carry_over_def split: option.splits\<close>)

definition data_ok :: "incremental_parser \<Rightarrow> bool" where
  "data_ok p \<longleftrightarrow> ip_state p = Data \<and> parser_ok p 0"

lemma data_okD:
  assumes "data_ok p"
  shows "ip_state p = Data" "built p" "accounted p 0" "ip_scanned p \<le> length (ip_buffer p)"
    and "length (ip_buffer p) \<le> max (max_header_bytes_per_field (ip_limits p))
           (max_chunk_bytes (ip_limits p) + length (ip_boundary p) + 5)"
    and "\<And>q. delimiter_at (ip_buffer p) (ip_boundary p) q \<Longrightarrow> ip_scanned p < q + line_bytes p"
    and "\<And>q. delimiter_at (ip_buffer p) (ip_boundary p) q
           \<Longrightarrow> length (ip_buffer p) \<le> q + line_bytes p + max_header_bytes_per_field (ip_limits p)"
    and "ip_field_bytes p \<le> max_field_bytes (ip_limits p)"
  using assms by (auto simp: data_ok_def parser_ok_def state_ok_def)

lemma yield_chunk_sound:
  assumes ok: "data_ok q" and co: "coherent q cur" and n: "0 < n" "n \<le> length (ip_buffer q)"
    and leave: "may_leave (ip_boundary q) (ip_buffer q @ rest @ future) n"
  shows "sound_step q rest future cur (yield_chunk n (q, rest))"
proof -
  let ?b = "ip_boundary q" and ?l = "ip_limits q"
  define k where "k = min n (max_chunk_bytes ?l)"
  obtain m prior where cur: "cur = Some (m, prior)"
    using co data_okD(1) [OF ok] by (auto simp: coherent_def)
  have k: "k \<le> n" "0 < k" "k \<le> length (ip_buffer q)"
    using n built_bounds(1) [OF data_okD(2) [OF ok]] by (auto simp: k_def)
  have k_chunk: "k \<le> max_chunk_bytes ?l"
    by (simp add: k_def)
  have st: "ip_state q = Data"
    using data_okD(1) [OF ok] .
  show ?thesis
  proof (cases "ip_field_bytes q + k \<le> max_field_bytes ?l")
    case False
    then have "ref_data ?b ?l later (ip_field_bytes q) m prior (ip_buffer q @ rest @ future)
        = ([], Some (field_too_large ?l))" for later
      using may_leave_limit [OF leave k(1)] by simp
    moreover have "yield_chunk n (q, rest) = (Inl (field_too_large ?l), q, rest)"
      using False by (simp add: yield_chunk_def k_def)
    ultimately show ?thesis
      using st cur by (simp add: denote_def)
  next
    case True
    let ?q = "q\<lparr>ip_field_bytes := ip_field_bytes q + k, ip_buffer := drop k (ip_buffer q),
      ip_scanned := ip_scanned q - k\<rparr>"
    have "ip_field_bytes q + k < 2 ^ 64"
      using True built_bounds(7) [OF data_okD(2) [OF ok]] by simp
    then have run: "yield_chunk n (q, rest) = (Inr (Event (Chunk (take k (ip_buffer q)))), ?q, rest)"
      using True n(2) by (simp add: yield_chunk_def Let_def k_def)
    have "parser_ok ?q k"
    proof -
      have "ip_scanned q - k < t + line_bytes q
          \<and> length (ip_buffer q) - k \<le> t + line_bytes q + max_header_bytes_per_field ?l"
        if "delimiter_at (drop k (ip_buffer q)) ?b t" for t
        using that data_okD(6,7) [OF ok, of "k + t"] by (auto simp: delimiter_at_drop)
      then show ?thesis
        using data_okD [OF ok] k(3) True
        by (auto simp: parser_ok_def state_ok_def accounted_def built_def)
    qed
    moreover have "ref_data ?b ?l later (ip_field_bytes q) m prior (ip_buffer q @ rest @ future)
        = ref_data ?b ?l later (ip_field_bytes q + k) m (prior @ take k (ip_buffer q))
            (drop k (ip_buffer q) @ rest @ future)" for later
      using may_leave_chunk [OF leave k(1)] k(3) by simp
    ultimately show ?thesis
      unfolding run using st cur k(2,3) k_chunk by (auto simp: denote_def coherent_def min_absorb2)
  qed
qed

lemma close_field_sound:
  assumes ok: "data_ok q" and co: "coherent q cur" and here: "delimiter_at (ip_buffer q) (ip_boundary q) 0"
  shows "sound_step q rest future cur (close_field (q, rest))"
proof -
  let ?b = "ip_boundary q" and ?l = "ip_limits q"
  obtain m prior where cur: "cur = Some (m, prior)"
    using co data_okD(1) [OF ok] by (auto simp: coherent_def)
  have len: "line_bytes q \<le> length (ip_buffer q)"
    using delimiter_at_fits [OF here] by simp
  obtain closes where closes: "delimiter_closes_at (ip_buffer q) (length ?b + 4) = Inr closes"
    using delimiter_closes_found [OF here] by (metis add_0)
  have "find_delimiter (ip_buffer q @ rest @ future) ?b 0 = Some 0"
    by (rule find_delimiter_append) (simp add: find_delimiter_Some here)
  then have meaning: "denote q cur (ip_buffer q @ rest @ future)
      = apfst (Cons (m, prior))
          (if closes then ([], ref_epilogue (drop (line_bytes q) (ip_buffer q) @ rest @ future))
           else ref_headers ?b ?l (ip_fields_seen q) (drop (line_bytes q) (ip_buffer q) @ rest @ future))"
    using data_okD(1,8) [OF ok] cur len closes
    by (simp add: denote_def ref_data_def Let_def delimiter_closes_append)
  obtain c where c: "consume (line_bytes q) (q, rest) = (Inr (), q\<lparr>ip_budget := c,
        ip_buffer := drop (line_bytes q) (ip_buffer q), ip_scanned := ip_scanned q - line_bytes q\<rparr>, rest)"
      "accounted (q\<lparr>ip_budget := c, ip_buffer := drop (line_bytes q) (ip_buffer q),
        ip_scanned := ip_scanned q - line_bytes q\<rparr>) 0"
    using consume_ok [OF data_okD(3) [OF ok] len] by blast
  let ?q = "q\<lparr>ip_budget := c, ip_buffer := drop (line_bytes q) (ip_buffer q), ip_scanned := 0,
    ip_state := (if closes then Epilogue else Headers)\<rparr>"
  have at: "length delimiter_prefix + length ?b = length ?b + 4" "delimiter_line_bytes q = line_bytes q"
    by (simp_all add: delimiter_line_bytes_def)
  have run: "close_field (q, rest) = (Inr (Event FieldEnd), ?q, rest)"
    unfolding close_field_def prod.case at using closes c(1) by (simp add: and_then_def suffix_state)
  have "parser_ok ?q 0"
    using c(2) data_okD(2) [OF ok] data_okD(7) [OF ok here]
    by (auto simp: parser_ok_def state_ok_def accounted_def built_def)
  then show ?thesis
    unfolding run sound_step.simps meaning using cur by (simp add: coherent_def denote_def)
qed

lemma may_leave_found:
  assumes "find_delimiter u b 0 = Some d"
  shows "may_leave b (u @ v) d"
  using find_delimiter_append [OF assms] by (simp add: may_leave_def)

lemma may_leave_before_carry:
  assumes "find_delimiter u b 0 = None" "n + length b + 5 \<le> length u"
  shows "may_leave b (u @ v) n"
proof (cases "find_delimiter (u @ v) b 0")
  case None
  with assms(2) show ?thesis
    by (simp add: may_leave_def)
next
  case (Some d)
  then have "\<not> d + length b + 6 \<le> length u"
    using assms(1) delimiter_at_append [of d b u v] unfolding find_delimiter_Some find_delimiter_None by blast
  with Some assms(2) show ?thesis
    by (simp add: may_leave_def)
qed

text \<open>The decision of a data step, once a search of the whole buffer is known.\<close>

lemma data_decision_sound:
  assumes ok: "data_ok q" and co: "coherent q cur"
    and full: "find_delimiter (ip_buffer q) (ip_boundary q) 0 = None \<Longrightarrow> rest = []
      \<or> max_chunk_bytes (ip_limits q) + length (ip_boundary q) + 5 \<le> length (ip_buffer q)"
  shows "sound_step q rest future cur
     ((case find_delimiter (ip_buffer q) (ip_boundary q) 0 of
         None \<Rightarrow> yield_before_carry (delimiter_carry_over (length (ip_boundary q)))
       | Some pos \<Rightarrow> if pos = 0 then close_field else yield_chunk pos) (q, rest))"
proof (cases "find_delimiter (ip_buffer q) (ip_boundary q) 0")
  case (Some d)
  have d: "delimiter_at (ip_buffer q) (ip_boundary q) d" "d \<le> length (ip_buffer q)"
    using find_delimiter_fits [OF Some] by simp_all
  show ?thesis
    using Some d close_field_sound [OF ok co] yield_chunk_sound [OF ok co, of d rest future]
      may_leave_found [OF Some] by (cases "d = 0") simp_all
next
  case None
  let ?w = "q\<lparr>ip_scanned := length (ip_buffer q)\<rparr>"
  let ?n = "length (ip_buffer q) - delimiter_carry_over (length (ip_boundary q))"
  have w: "data_ok ?w" "coherent ?w cur"
    using ok co None unfolding find_delimiter_None
    by (auto simp: data_ok_def parser_ok_def state_ok_def built_def accounted_def coherent_def)
  have same: "denote ?w cur r = denote q cur r" for r
    by (cases "ip_state q") (simp_all add: denote_def split: option.split)
  show ?thesis
  proof (cases "?n = 0")
    case True
    then have rest: "rest = []"
      using full [OF None] built_bounds(1) [OF data_okD(2) [OF ok]] by (auto simp: delimiter_carry_over_def)
    have run: "yield_before_carry (delimiter_carry_over (length (ip_boundary q))) (q, rest) = (Inr NeedMore, ?w, [])"
      using True rest by (simp add: yield_before_carry_def Let_def)
    have "denote q cur (ip_buffer q) = ([], refusal (fst (finish (?w, []))))"
      using data_okD(1,8) [OF ok] co None True
      by (auto simp: denote_def ref_data_def finish_def refusal_def coherent_def)
    then show ?thesis
      using run None rest same w by (simp add: data_ok_def)
  next
    case False
    have "may_leave (ip_boundary ?w) (ip_buffer ?w @ rest @ future) ?n"
      using False None by (simp add: may_leave_before_carry delimiter_carry_over_def)
    then have "sound_step ?w rest future cur (yield_chunk ?n (?w, rest))"
      using yield_chunk_sound [OF w, of ?n rest future] False by simp
    moreover have "sound_step q rest future cur r \<longleftrightarrow> sound_step ?w rest future cur r" for r
      by (rule sound_step_transfer) (simp_all add: same)
    ultimately show ?thesis
      using False None by (simp add: yield_before_carry_def Let_def)
  qed
qed

lemma fill_to_delimiter_ok:
  assumes ok: "data_ok p" and none: "find_delimiter (ip_buffer p) (ip_boundary p) 0 = None"
  obtains q rest where
    "fill_to_delimiter (delimiter_carry_over (length (ip_boundary p))) (p, source)
       = (Inr (find_delimiter (ip_buffer q) (ip_boundary q) 0), q, rest)"
    "data_ok q" "ip_buffer p @ source = ip_buffer q @ rest"
    "find_delimiter (ip_buffer q) (ip_boundary q) 0 = None \<Longrightarrow> rest = []
       \<or> max_chunk_bytes (ip_limits q) + length (ip_boundary q) + 5 \<le> length (ip_buffer q)"
    "\<And>r cur. denote q cur r = denote p cur r" "ip_boundary q = ip_boundary p" "ip_limits q = ip_limits p"
proof -
  let ?b = "ip_boundary p" and ?l = "ip_limits p"
  let ?carry = "delimiter_carry_over (length ?b)"
  let ?retained = "length (ip_buffer p)"
  define n where "n = min (max_chunk_bytes ?l + ?carry - ?retained) (length source)"
  define u where "u = ip_buffer p @ take n source"
  have carry: "?carry = length ?b + 5"
    by (simp add: delimiter_carry_over_def)
  note bounds = built_bounds [OF data_okD(2) [OF ok]]
  have len: "length u = ?retained + n" "n \<le> length source"
    by (simp_all add: u_def n_def)
  have room: "?retained + n \<le> max (max_header_bytes_per_field ?l) (max_chunk_bytes ?l + length ?b + 5)"
    using data_okD(5) [OF ok] unfolding n_def carry by linarith
  obtain g where g: "retain (take n source) (p, source) = (Inr (), p\<lparr>ip_budget := g, ip_buffer := u\<rparr>, source)"
      "bb_limit g = max_parser_buffer_bytes ?l" "bb_reserved g = length u"
  proof (rule retain_ok [OF data_okD(3) [OF ok], of "take n source" source])
    show "?retained + length (take n source) \<le> max_parser_buffer_bytes ?l"
      using room bounds(3,5) len(2) by simp
    show "?retained + length (take n source) < 2 ^ 64"
      using room bounds(4,6) len(2) by simp
  qed (use that data_okD(3) [OF ok] len in \<open>simp add: accounted_def u_def\<close>)
  have unseen: "?retained < q + line_bytes p" if "delimiter_at u ?b q" for q
  proof (rule ccontr)
    assume "\<not> ?retained < q + line_bytes p"
    then have "delimiter_at (ip_buffer p) ?b q"
      using that delimiter_at_append [of q ?b "ip_buffer p" "take n source"] by (simp add: u_def)
    then show False
      using none unfolding find_delimiter_None by blast
  qed
  have search: "find_delimiter u ?b (?retained - ?carry) = find_delimiter u ?b 0"
    by (rule find_delimiter_from) (use unseen carry in force)
  define line_end where "line_end = (case find_delimiter u ?b 0 of None \<Rightarrow> ?retained + n | Some pos \<Rightarrow> pos + line_bytes p)"
  have line_end: "?retained \<le> line_end" "line_end \<le> ?retained + n"
    using unseen find_delimiter_fits [of u ?b 0] len(1)
    by (fastforce simp: line_end_def split: option.splits)+
  define kept where "kept = line_end - ?retained"
  define q where "q = p\<lparr>ip_budget := g\<lparr>bb_reserved := bb_reserved g - (n - kept)\<rparr>, ip_buffer := take line_end u\<rparr>"
  have kept: "kept \<le> n" "?retained + kept = line_end" "length (take line_end u) = line_end"
    using line_end len(1) by (simp_all add: kept_def)
  have found: "find_delimiter (take line_end u) ?b 0 = find_delimiter u ?b 0"
    using find_delimiter_take [of u ?b] len(1)
    by (simp add: line_end_def add.assoc split: option.split)
  have run: "fill_to_delimiter ?carry (p, source) = (Inr (find_delimiter u ?b 0), q, drop kept source)"
  proof -
    have "\<not> 2 ^ 64 \<le> max_chunk_bytes ?l + ?carry"
      using bounds(6) carry by simp
    moreover have "(case find_delimiter u ?b 0 of
          None \<Rightarrow> ?retained + min (max_chunk_bytes ?l + ?carry - ?retained) (length source)
        | Some pos \<Rightarrow> pos + delimiter_line_bytes (p\<lparr>ip_budget := g, ip_buffer := u\<rparr>)) = line_end"
      by (simp add: line_end_def n_def delimiter_line_bytes_def add.commute split: option.split)
    moreover have "n - kept \<le> bb_reserved g"
      using g(3) len(1) by simp
    ultimately show ?thesis
      using g(1) search line_end kept
      by (simp add: fill_to_delimiter_def Let_def n_def [symmetric] and_then_def kept_def [symmetric]
          release_delivered_def budget_release_def q_def)
  qed
  have at: "ip_scanned p < t + line_bytes p \<and> line_end \<le> t + line_bytes p + max_header_bytes_per_field ?l"
    if "delimiter_at (take line_end u) ?b t" for t
  proof -
    have "delimiter_at u ?b t"
      using that delimiter_at_fits [OF that] delimiter_at_append [of t ?b "take line_end u" "drop line_end u"]
      by simp
    then have "?retained < t + line_bytes p" "\<exists>d. find_delimiter u ?b 0 = Some d \<and> d \<le> t"
      using unseen find_delimiter_Some [of u ?b] find_delimiter_None [of u ?b]
      by (blast, metis linorder_not_less not_None_eq)
    then show ?thesis
      using data_okD(4) [OF ok] by (auto simp: line_end_def intro: trans_le_add1)
  qed
  have "data_ok q"
    using data_okD(1,2,4,8) [OF ok] at g(2,3) kept line_end room len(1)
    by (auto simp: q_def data_ok_def parser_ok_def state_ok_def accounted_def built_def)
  moreover have "ip_buffer p @ source = ip_buffer q @ drop kept source"
    using kept by (simp add: q_def u_def flip: kept(2))
  moreover have "drop kept source = [] \<or> max_chunk_bytes (ip_limits q) + length (ip_boundary q) + 5 \<le> length (ip_buffer q)"
    if "find_delimiter (ip_buffer q) (ip_boundary q) 0 = None"
  proof -
    have "line_end = ?retained + n"
      using that found by (simp add: q_def line_end_def)
    then show ?thesis
      using kept(2,3) carry by (auto simp: q_def n_def min_def split: if_splits)
  qed
  moreover have "denote q cur r = denote p cur r" for r cur
    by (cases "ip_state p") (simp_all add: q_def denote_def split: option.split)
  ultimately show ?thesis
    using that [of q "drop kept source"] run found by (simp add: q_def)
qed

lemma step_data_sound:
  assumes ok: "parser_ok p 0" and st: "ip_state p = Data" and co: "coherent p cur"
  shows "sound_step p source future cur (step_data (p, source))"
proof -
  let ?carry = "delimiter_carry_over (length (ip_boundary p))"
  let ?decide = "\<lambda>delimiter. case delimiter of
      None \<Rightarrow> yield_before_carry ?carry
    | Some pos \<Rightarrow> if pos = 0 then close_field else yield_chunk pos"
  have data: "data_ok p"
    using ok st by (simp add: data_ok_def)
  have search: "find_delimiter (ip_buffer p) (ip_boundary p) (ip_scanned p - ?carry)
      = find_delimiter (ip_buffer p) (ip_boundary p) 0"
  proof (rule find_delimiter_from)
    fix q
    assume "delimiter_at (ip_buffer p) (ip_boundary p) q"
    then have "ip_scanned p < q + line_bytes p"
      by (rule data_okD(6) [OF data])
    then show "ip_scanned p - ?carry \<le> q"
      by (simp add: delimiter_carry_over_def)
  qed
  show ?thesis
  proof (cases "find_delimiter (ip_buffer p) (ip_boundary p) 0")
    case (Some d)
    have "step_data (p, source) = ?decide (find_delimiter (ip_buffer p) (ip_boundary p) 0) (p, source)"
      using Some search by (simp add: step_data_def Let_def and_then_def)
    then show ?thesis
      using data_decision_sound [OF data co, of source future] Some by simp
  next
    case None
    obtain q rest where q: "fill_to_delimiter ?carry (p, source)
          = (Inr (find_delimiter (ip_buffer q) (ip_boundary q) 0), q, rest)"
        "data_ok q" "ip_buffer p @ source = ip_buffer q @ rest"
        "find_delimiter (ip_buffer q) (ip_boundary q) 0 = None \<Longrightarrow> rest = []
           \<or> max_chunk_bytes (ip_limits q) + length (ip_boundary q) + 5 \<le> length (ip_buffer q)"
        "\<And>r cur. denote q cur r = denote p cur r" "ip_boundary q = ip_boundary p" "ip_limits q = ip_limits p"
      using fill_to_delimiter_ok [OF data None, of source] by blast
    have run: "step_data (p, source) = ?decide (find_delimiter (ip_buffer q) (ip_boundary q) 0) (q, rest)"
      using None search q(1) by (simp add: step_data_def Let_def and_then_def)
    have "coherent q cur"
      using co data_okD(1) [OF q(2)] st by (simp add: coherent_def)
    then have "sound_step q rest future cur (?decide (find_delimiter (ip_buffer q) (ip_boundary q) 0) (q, rest))"
      using data_decision_sound [OF q(2) _ q(4), of cur future] unfolding q(6) by simp
    moreover have "ip_buffer p @ source @ future = ip_buffer q @ rest @ future"
      using arg_cong [OF q(3), of "\<lambda>s. s @ future"] by simp
    then have "sound_step p source future cur r \<longleftrightarrow> sound_step q rest future cur r" for r
      by (intro sound_step_transfer) (simp_all only: q(5,7))
    ultimately show ?thesis
      unfolding run by blast
  qed
qed

lemma epilogue_prefix:
  assumes "epilogue_closes u = Inl e"
  shows "ref_epilogue (u @ v) = Some (Refuses e)"
  using assms by (auto simp: epilogue_closes_def ref_epilogue_def Cons_eq_append_conv append_eq_Cons_conv
      split: if_splits)

lemma finish_epilogue:
  assumes "parser_ok q 0" "ip_state q = Epilogue"
  shows "refusal (fst (finish (q, []))) = (if epilogue_closes (ip_buffer q) = Inr True then None else Some truncated)"
proof -
  obtain b where "consume (length (ip_buffer q)) (q, []) = (Inr (), q\<lparr>ip_budget := b,
      ip_buffer := drop (length (ip_buffer q)) (ip_buffer q), ip_scanned := ip_scanned q - length (ip_buffer q)\<rparr>, [])"
    using consume_ok [of q 0 "length (ip_buffer q)"] assms(1) unfolding parser_ok_def by blast
  then show ?thesis
    using assms(2) by (simp add: finish_def close_session_def and_then_def refusal_def)
qed

lemma step_epilogue_sound:
  assumes ok: "parser_ok p 0" and st: "ip_state p = Epilogue" and co: "coherent p cur"
  shows "sound_step p source future cur (step_epilogue (p, source))"
proof -
  let ?l = "ip_limits p"
  let ?n = "3 - length (ip_buffer p)"
  note bounds = built_bounds [of p]
  have len: "length (ip_buffer p) \<le> max (max_header_bytes_per_field ?l) 3" and acc: "accounted p 0"
      and bp: "built p"
    using ok st by (simp_all add: parser_ok_def state_ok_def)
  have room: "length (ip_buffer p) + min ?n (length source) \<le> max (max_header_bytes_per_field ?l) 3"
    using len by linarith
  obtain g where g: "fill ?n (p, source)
      = (Inr (), p\<lparr>ip_budget := g, ip_buffer := ip_buffer p @ take ?n source\<rparr>, drop ?n source)"
      "accounted (p\<lparr>ip_budget := g, ip_buffer := ip_buffer p @ take ?n source\<rparr>) 0"
    by (rule fill_ok [OF acc, of ?n source]) (use room bounds(2-6) [OF bp] in linarith)+
  define q where "q = p\<lparr>ip_budget := g, ip_buffer := ip_buffer p @ take ?n source\<rparr>"
  define rest where "rest = drop ?n source"
  have body: "ip_buffer p @ source @ future = ip_buffer q @ rest @ future"
    by (simp add: q_def rest_def)
  have "parser_ok q 0" "ip_state q = Epilogue"
    using ok st g(2) room by (auto simp: q_def parser_ok_def state_ok_def built_def)
  show ?thesis
  proof (cases "epilogue_closes (ip_buffer q)")
    case (Inl e)
    have run: "step_epilogue (p, source) = (Inl (Refuses e), q, rest)"
      using g(1) [folded q_def rest_def] Inl by (simp add: step_epilogue_def and_then_def)
    show ?thesis
      unfolding run sound_step.simps body using epilogue_prefix [OF Inl] st by (simp add: denote_def)
  next
    case (Inr closes)
    have run: "step_epilogue (p, source) = (Inr NeedMore, q, rest)"
      using g(1) [folded q_def rest_def] Inr by (simp add: step_epilogue_def and_then_def)
    have "length (ip_buffer q) < 3"
      using Inr by (auto simp: epilogue_closes_def split: if_splits)
    then have "rest = []"
      by (simp add: q_def rest_def)
    moreover have "denote q cur (ip_buffer q) = ([], refusal (fst (finish (q, []))))"
      using finish_epilogue [OF \<open>parser_ok q 0\<close> \<open>ip_state q = Epilogue\<close>] Inr \<open>ip_state q = Epilogue\<close>
      by (auto simp: denote_def ref_epilogue_def epilogue_closes_def split: if_splits)
    ultimately show ?thesis
      unfolding run sound_step.simps body
      using \<open>parser_ok q 0\<close> \<open>ip_state q = Epilogue\<close> st co q_def by (simp add: coherent_def denote_def)
  qed
qed

section \<open>Advances\<close>

lemma step_sound:
  assumes "parser_ok p 0" "coherent p cur"
  shows "sound_step p source future cur (step (p, source))"
proof (cases "ip_state p")
  case Complete
  with assms show ?thesis
    by (cases cur) (simp_all add: step_def coherent_def denote_def)
qed (use assms step_opening_sound step_headers_sound step_data_sound step_epilogue_sound in
      \<open>simp_all add: step_def\<close>)

abbreviation advanced :: "parser_event option \<Rightarrow> parser_step" where
  "advanced \<equiv> case_option NeedMore Event"

lemma advance_sound:
  assumes "parser_ok p 0" "coherent p cur"
  shows "sound_step p source future cur (map_prod (map_sum id advanced) id (advance (p, source)))"
  using assms
proof (induction "(p, source)" arbitrary: p source rule: advance.induct)
  case (1 p source)
  note sound = step_sound [OF "1.prems", of source future]
  obtain r q rest where run: "step (p, source) = (r, q, rest)"
    by (metis prod_cases3)
  show ?case
  proof (cases r)
    case (Inl e)
    then show ?thesis
      using run sound by (simp add: advance.simps [of p source])
  next
    case (Inr s)
    show ?thesis
    proof (cases s)
      case Continue
      then have q: "advance (p, source) = advance (q, rest)" "parser_ok q 0" "coherent q cur"
          "denote q cur (ip_buffer q @ rest @ future) = denote p cur (ip_buffer p @ source @ future)"
          "ip_limits q = ip_limits p"
        using run Inr sound by (simp_all add: advance.simps [of p source])
      show ?thesis
        unfolding q(1) sound_step_transfer [OF q(4,5)]
        by (rule "1.hyps" [OF run [symmetric] Inr Continue q(2,3)])
    qed (use run Inr sound in \<open>simp_all add: advance.simps [of p source]\<close>)
  qed
qed

section \<open>Progress\<close>

abbreviation bytes_held :: "incremental_parser \<times> string \<Rightarrow> nat" where
  "bytes_held s \<equiv> length (ip_buffer (fst s)) + length (snd s)"

lemma retain_bytes: "retain u s = (Inr (), t) \<Longrightarrow> bytes_held t = bytes_held s + length u \<and> snd t = snd s"
  by (auto simp: retain_def split: prod.splits sum.splits)

lemma release_bytes:
  "release_delivered n s = (Inr (), t) \<Longrightarrow> ip_buffer (fst t) = ip_buffer (fst s) \<and> snd t = snd s"
  by (auto simp: release_delivered_def split: prod.splits option.splits)

lemma fill_bytes:
  "fill w s = (Inr (), t) \<Longrightarrow> bytes_held t = bytes_held s"
  by (auto simp: fill_def Let_def and_then_Inr split: prod.splits if_splits dest!: retain_bytes)

lemma consume_bytes:
  "consume n s = (Inr (), t) \<Longrightarrow> bytes_held t + n = bytes_held s"
  by (auto simp: consume_def and_then_Inr split: prod.splits if_splits dest!: release_bytes)

lemma suffix_bytes: "delimiter_suffix at s = (Inr r, t) \<Longrightarrow> t = s"
  using delimiter_suffix_state by blast

lemma metadata_progress:
  "read_field_metadata n s = (Inr m, t) \<Longrightarrow> bytes_held t = bytes_held s"
  by (auto simp: read_field_metadata_def Let_def and_then_Inr split: prod.splits if_splits sum.splits
      dest!: release_bytes)

lemma yield_bytes:
  assumes "yield_chunk n (q, rest) = (Inr r, t)" "0 < n" "0 < max_chunk_bytes (ip_limits q)"
  shows "bytes_held t < length (ip_buffer q) + length rest"
  using assms by (auto simp: yield_chunk_def Let_def split: if_splits)

lemma decision_bytes:
  assumes "(case d of
      None \<Rightarrow> yield_before_carry c
    | Some pos \<Rightarrow> if pos = 0 then close_field else yield_chunk pos) (q, rest) = (Inr r, t)"
    and "0 < max_chunk_bytes (ip_limits q)"
  shows "bytes_held t + (if r = NeedMore then 0 else 1) \<le> length (ip_buffer q) + length rest"
proof (cases d)
  case None
  then show ?thesis
    using assms yield_bytes [of "length (ip_buffer q) - c" "q\<lparr>ip_scanned := length (ip_buffer q)\<rparr>" rest]
    by (auto simp: yield_before_carry_def Let_def split: if_splits)
next
  case (Some pos)
  show ?thesis
  proof (cases pos)
    case 0
    then show ?thesis
      using assms(1) Some
      by (auto simp: close_field_def and_then_Inr delimiter_line_bytes_def dest!: suffix_bytes consume_bytes)
  next
    case Suc
    then show ?thesis
      using assms Some yield_bytes [of pos q rest r t] by auto
  qed
qed

lemma step_data_bytes:
  assumes "parser_ok p 0" "ip_state p = Data" "step_data (p, source) = (Inr r, t)"
  shows "bytes_held t + (if r = NeedMore then 0 else 1) \<le> length (ip_buffer p) + length source"
proof -
  let ?c = "delimiter_carry_over (length (ip_boundary p))"
  have data: "data_ok p"
    using assms by (simp add: data_ok_def)
  have chunk: "0 < max_chunk_bytes (ip_limits p)"
    using built_bounds(1) [OF data_okD(2) [OF data]] .
  show ?thesis
  proof (cases "find_delimiter (ip_buffer p) (ip_boundary p) (ip_scanned p - ?c)")
    case (Some d)
    then show ?thesis
      using assms(3) chunk decision_bytes [where d = "Some d" and c = ?c and q = p and rest = source and r = r and t = t]
      by (simp add: step_data_def Let_def and_then_def)
  next
    case None
    then have "find_delimiter (ip_buffer p) (ip_boundary p) 0 = None"
      using find_delimiter_from [of "ip_buffer p" "ip_boundary p" "ip_scanned p - ?c"] data_okD(6) [OF data]
      by (force simp: delimiter_carry_over_def)
    then obtain d q rest where q: "fill_to_delimiter ?c (p, source) = (Inr d, q, rest)"
        "ip_buffer p @ source = ip_buffer q @ rest" "data_ok q"
      using fill_to_delimiter_ok [OF data, of source] by metis
    have "length (ip_buffer p) + length source = length (ip_buffer q) + length rest"
      using arg_cong [OF q(2), of length] by simp
    moreover have "0 < max_chunk_bytes (ip_limits q)"
      using built_bounds(1) [OF data_okD(2) [OF q(3)]] .
    ultimately show ?thesis
      using assms(3) None q(1) decision_bytes [where d = d and c = ?c and q = q and rest = rest and r = r and t = t]
      by (simp add: step_data_def Let_def and_then_def)
  qed
qed

lemma step_progress:
  assumes "parser_ok p 0" "step (p, source) = (Inr r, t)"
  shows "bytes_held t + (if r \<in> {NeedMore, Event End} then 0 else 1) \<le> length (ip_buffer p) + length source"
proof (cases "ip_state p")
  case Opening
  then show ?thesis
    using assms(2)
    by (auto simp: step_def step_opening_eq and_then_Inr split: if_splits
        dest!: fill_bytes suffix_bytes consume_bytes)
next
  case Headers
  then show ?thesis
    using assms(2)
    by (auto simp: step_def step_headers_eq and_then_Inr await_header_terminator_def Let_def
        split: if_splits option.splits dest!: fill_bytes metadata_progress consume_bytes)
next
  case Data
  then show ?thesis
    using assms step_data_bytes [of p source r t] by (auto simp: step_def split: if_splits)
next
  case Epilogue
  then show ?thesis
    using assms(2)
    by (auto simp: step_def step_epilogue_def and_then_Inr split: sum.splits dest!: fill_bytes)
      (metis sum.exhaust)+
qed (use assms in \<open>auto simp: step_def\<close>)

lemma advance_progress:
  assumes "parser_ok p 0" "coherent p cur" "advance (p, source) = (Inr r, t)"
  shows "bytes_held t + (if r \<in> {None, Some End} then 0 else 1) \<le> length (ip_buffer p) + length source"
  using assms
proof (induction "(p, source)" arbitrary: p source rule: advance.induct)
  case (1 p source)
  obtain s q rest where run: "step (p, source) = (Inr s, q, rest)"
    using "1.prems"(3) by (auto simp: advance.simps [of p source] split: sum.splits prod.splits)
  show ?case
  proof (cases s)
    case Continue
    then have "parser_ok q 0" "coherent q cur"
      using run step_sound [OF "1.prems"(1,2), of source] by simp_all
    then show ?thesis
      using "1.hyps" [OF run [symmetric] refl Continue] "1.prems" step_progress [OF "1.prems"(1) run] run Continue
      by (auto simp: advance.simps [of p source] split: if_splits)
  qed (use run "1.prems"(3) step_progress [OF "1.prems"(1) run] in
        \<open>auto simp: advance.simps [of p source] split: if_splits\<close>)
qed


section \<open>Sessions\<close>

lemma finish_End: "finish s = (Inr ev, t) \<Longrightarrow> ev = End"
  by (auto simp: finish_def close_session_def and_then_Inr split: prod.splits if_splits)

fun sound_event ::
  "body_outcome \<Rightarrow> nat \<Rightarrow> multipart_limits \<Rightarrow> open_field
     \<Rightarrow> (fault + parser_event) \<times> (incremental_parser \<times> string) \<times> string list \<Rightarrow> bool"
where
  "sound_event meaning n l cur (Inl e, _, _) \<longleftrightarrow> meaning = ([], Some e)"
| "sound_event meaning n l cur (Inr event, (q, rest), frames) \<longleftrightarrow>
     (if event = End then meaning = ([], None)
      else parser_ok q (event_reservation event) \<and> coherent q (after_event event cur)
        \<and> ip_limits q = l \<and> proper l cur event
        \<and> meaning = apfst (append (completed event cur))
            (denote q (after_event event cur) (ip_buffer q @ rest @ concat frames))
        \<and> length (ip_buffer q @ rest @ concat frames) < n)"

lemma sound_event_le: "sound_event meaning n l cur r \<Longrightarrow> n \<le> n' \<Longrightarrow> sound_event meaning n' l cur r"
  by (cases "(meaning, n, l, cur, r)" rule: sound_event.cases) (auto split: if_splits)

lemma next_event_sound:
  assumes "parser_ok p 0" "coherent p cur"
  shows "sound_event (denote p cur (ip_buffer p @ source @ concat frames))
     (length (ip_buffer p @ source @ concat frames)) (ip_limits p) cur (next_event frames (p, source))"
  using assms
proof (induction frames arbitrary: p source)
  case Nil
  note sound = advance_sound [OF Nil, of source "[]"]
  obtain r q rest where run: "advance (p, source) = (r, q, rest)"
    by (metis prod_cases3)
  show ?case
  proof (cases r)
    case (Inl e)
    then show ?thesis
      using run sound by (simp add: next_event.simps [of "[]"])
  next
    case (Inr answer)
    show ?thesis
    proof (cases answer)
      case None
      obtain f t where f: "finish (q, []) = (f, t)"
        by (rule prod.exhaust)
      show ?thesis
        using run Inr None sound f finish_End [of "(q, [])" _ t]
        by (cases f; cases t) (auto simp: next_event.simps [of "[]"] refusal_def)
    next
      case (Some ev)
      then show ?thesis
        using run Inr sound advance_progress [OF Nil, of source]
        by (auto simp: next_event.simps [of "[]"] denote_def)
    qed
  qed
next
  case (Cons frame frames)
  note sound = advance_sound [OF Cons.prems, of source "concat (frame # frames)"]
  obtain r q rest where run: "advance (p, source) = (r, q, rest)"
    by (metis prod_cases3)
  show ?case
  proof (cases r)
    case (Inl e)
    then show ?thesis
      using run sound by (simp add: next_event.simps [of "_ # _"])
  next
    case (Inr answer)
    show ?thesis
    proof (cases answer)
      case None
      then have q: "parser_ok q 0" "coherent q cur" "rest = []"
          "denote p cur (ip_buffer p @ source @ concat (frame # frames))
             = denote q cur (ip_buffer q @ frame @ concat frames)"
          "length (ip_buffer q) \<le> length (ip_buffer p) + length source" "ip_limits q = ip_limits p"
        using run Inr sound advance_progress [OF Cons.prems, of source] by simp_all
      have "next_event (frame # frames) (p, source) = next_event frames (q, frame)"
        using run Inr None q(3) by (simp add: next_event.simps [of "_ # _"])
      then show ?thesis
        using sound_event_le [OF Cons.IH [OF q(1,2), of frame]] q(5) unfolding q(4,6) by simp
    next
      case (Some ev)
      then show ?thesis
        using run Inr sound advance_progress [OF Cons.prems, of source]
        by (auto simp: next_event.simps [of "_ # _"] denote_def)
    qed
  qed
qed

lemma state_ok_budget: "state_ok (q\<lparr>ip_budget := b\<rparr>) \<longleftrightarrow> state_ok q"
  by (cases "ip_state q") (simp_all add: state_ok_def)

lemma release_sound:
  assumes "parser_ok q n"
  obtains b where "release_delivered n (q, rest) = (Inr (), q\<lparr>ip_budget := b\<rparr>, rest)"
    and "parser_ok (q\<lparr>ip_budget := b\<rparr>) 0"
proof (rule that)
  let ?b = "(ip_budget q)\<lparr>bb_reserved := bb_reserved (ip_budget q) - n\<rparr>"
  show "release_delivered n (q, rest) = (Inr (), q\<lparr>ip_budget := ?b\<rparr>, rest)"
    using assms by (simp add: release_delivered_def budget_release_def parser_ok_def accounted_def)
  show "parser_ok (q\<lparr>ip_budget := ?b\<rparr>) 0"
    using assms by (simp add: parser_ok_def accounted_def state_ok_budget built_def)
qed

lemma denote_budget: "denote (q\<lparr>ip_budget := b\<rparr>) cur r = denote q cur r"
  by (cases "ip_state q") (simp_all add: denote_def split: option.split)

text \<open>The sizes of what a reply carries.\<close>

fun reply_within :: "multipart_limits \<Rightarrow> parser_event \<Rightarrow> bool" where
  "reply_within l (Field m) \<longleftrightarrow> fm_bytes m \<le> max_header_bytes_per_field l"
| "reply_within l (Chunk c) \<longleftrightarrow> c \<noteq> [] \<and> length c \<le> max_chunk_bytes l"
| "reply_within l FieldEnd \<longleftrightarrow> True"
| "reply_within l End \<longleftrightarrow> True"

lemma proper_replies:
  assumes "proper l cur event"
  shows "reply_for (if cur \<noteq> None then NextChunk else NextField) event = Some event"
    "reply_within l event" "event \<noteq> End \<Longrightarrow> (after_event event cur \<noteq> None) = (event \<noteq> FieldEnd)"
  using assms by (cases event; auto)+

lemma pump_once:
  assumes "next_event frames s = (Inr event, (q, rest), frames')" "parser_ok q (event_reservation event)"
    and "reply_for kind event = Some event"
  obtains b where "pump kind frames s = Some (Inr event, (q\<lparr>ip_budget := b\<rparr>, rest), frames')"
    and "parser_ok (q\<lparr>ip_budget := b\<rparr>) 0"
proof (rule release_sound [OF assms(2), of rest])
  fix b
  assume "release_delivered (event_reservation event) (q, rest) = (Inr (), q\<lparr>ip_budget := b\<rparr>, rest)"
    "parser_ok (q\<lparr>ip_budget := b\<rparr>) 0"
  then show thesis
    using assms(1,3) that [of b] by (simp add: pump.simps [of kind frames])
qed

lemma read_all_sound:
  assumes "parser_ok p 0" "coherent p cur"
  shows "\<exists>replies r. read_all (cur \<noteq> None) frames (p, source) = Some (replies, r)
     \<and> denote p cur (ip_buffer p @ source @ concat frames) = (gather cur replies, r)
     \<and> length replies \<le> length (ip_buffer p @ source @ concat frames) + 1
     \<and> (r = None \<longrightarrow> replies \<noteq> [] \<and> last replies = End)
     \<and> list_all (reply_within (ip_limits p)) replies"
  using assms
proof (induction "length (ip_buffer p @ source @ concat frames)" arbitrary: p source frames cur
    rule: less_induct)
  case less
  note sound = next_event_sound [OF less.prems, of source frames]
  let ?kind = "if cur \<noteq> None then NextChunk else NextField"
  obtain answer q rest frames' where run: "next_event frames (p, source) = (answer, (q, rest), frames')"
    by (metis surj_pair)
  show ?case
  proof (cases answer)
    case (Inl e)
    then have "read_all (cur \<noteq> None) frames (p, source) = Some ([], Some e)"
      using run by (simp add: read_all.simps [of _ frames] pump.simps [of _ frames])
    then show ?thesis
      using sound run Inl by simp
  next
    case (Inr event)
    show ?thesis
    proof (cases "event = End")
      case True
      have "release_delivered 0 (q, rest) = (Inr (), q, rest)"
        by (simp add: release_delivered_def budget_release_def)
      then have "read_all (cur \<noteq> None) frames (p, source) = Some ([End], None)"
        using run Inr True by (simp add: read_all.simps [of _ frames] pump.simps [of _ frames])
      then show ?thesis
        using sound run Inr True by simp
    next
      case False
      let ?cur = "after_event event cur"
      have q: "parser_ok q (event_reservation event)" "coherent q ?cur" "ip_limits q = ip_limits p"
          "proper (ip_limits p) cur event"
          "denote p cur (ip_buffer p @ source @ concat frames)
             = apfst (append (completed event cur)) (denote q ?cur (ip_buffer q @ rest @ concat frames'))"
          "length (ip_buffer q @ rest @ concat frames') < length (ip_buffer p @ source @ concat frames)"
        using sound run Inr False by simp_all
      note replies = proper_replies [OF q(4)]
      obtain b where b: "pump ?kind frames (p, source) = Some (Inr event, (q\<lparr>ip_budget := b\<rparr>, rest), frames')"
          "parser_ok (q\<lparr>ip_budget := b\<rparr>) 0"
        by (rule pump_once [OF run [unfolded Inr] q(1) replies(1)])
      have "coherent (q\<lparr>ip_budget := b\<rparr>) ?cur"
        using q(2) by (simp add: coherent_def)
      then obtain events r where ih: "read_all (?cur \<noteq> None) frames' (q\<lparr>ip_budget := b\<rparr>, rest) = Some (events, r)"
          "denote q ?cur (ip_buffer q @ rest @ concat frames') = (gather ?cur events, r)"
          "length events \<le> length (ip_buffer q @ rest @ concat frames') + 1"
          "r = None \<longrightarrow> events \<noteq> [] \<and> last events = End" "list_all (reply_within (ip_limits p)) events"
        using less.hyps [of "q\<lparr>ip_budget := b\<rparr>" rest frames' ?cur] q(3,6) b(2) by (auto simp: denote_budget)
      have "read_all (cur \<noteq> None) frames (p, source) = Some (event # events, r)"
        using False b(1) ih(1) replies(3) by (simp add: read_all.simps [of _ frames])
      then show ?thesis
        using q(5,6) ih(2-5) replies(2) by simp
    qed
  qed
qed

section \<open>The session against the reference\<close>

lemma parser_new_ok:
  assumes "build_limits l = Inr l" "max_field_bytes l < 2 ^ 64" "length b \<le> max_boundary_bytes l"
  shows "parser_ok (parser_new b l) 0" "coherent (parser_new b l) None"
    "denote (parser_new b l) None body = ref_opening b l body" "ip_buffer (parser_new b l) = []"
  using assms
  by (simp_all add: parser_ok_def built_def accounted_def state_ok_def coherent_def denote_def
      parser_new_def )

text \<open>C19: However a body is cut into frames, and whatever sizes of chunk and buffer its limits
  choose, the incremental parser under built limits delivers exactly the fields that the reference
  reads in the whole body, and ends without a refusal or with the same one. In particular its
  assertions hold and its buffer is never exhausted, neither of which the reference knows.\<close>

theorem incremental_reads_reference:
  assumes "build_limits l = Inr l" "max_field_bytes l < 2 ^ 64" "length b \<le> max_boundary_bytes l"
  shows "\<exists>replies r. read_all False frames (parser_new b l, []) = Some (replies, r)
     \<and> (gather None replies, r) = ref_opening b l (concat frames)"
  using read_all_sound [OF parser_new_ok(1,2) [OF assms], of frames "[]"] parser_new_ok(3,4) [OF assms]
  by auto

lemma incremental_reads_reference_witness:
  "\<exists>events. read_all False sample_frames (parser_new ''b'' sample_limits, []) = Some (events, None)
     \<and> gather None events
         = [(\<lparr>fm_name = ''a'', fm_filename = None, fm_content_type = None, fm_bytes = 1\<rparr>, ''data'')]"
  using incremental_reads_reference [OF sample_limits_build sample_limits_fit, of sample_frames]
  unfolding sample_meaning by auto

text \<open>C22: A session ends. A handler that reads a body to its end gets a fault or the end after at most
  one reply more than the body has bytes, and unless there was a fault the last reply is the end.\<close>

theorem multipart_session_ends:
  assumes "build_limits l = Inr l" "max_field_bytes l < 2 ^ 64" "length b \<le> max_boundary_bytes l"
  shows "\<exists>replies r. read_all False frames (parser_new b l, []) = Some (replies, r)
     \<and> length replies \<le> length (concat frames) + 1
     \<and> (r = None \<longrightarrow> replies \<noteq> [] \<and> last replies = End)"
  using read_all_sound [OF parser_new_ok(1,2) [OF assms], of frames "[]"] parser_new_ok(4) [OF assms]
  by auto

lemma multipart_session_ends_witness:
  "\<exists>replies r. read_all False [[], ''--'', ''b'', []] (parser_new ''b'' sample_limits, []) = Some (replies, r)
     \<and> length replies \<le> 4 \<and> (r = None \<longrightarrow> replies \<noteq> [] \<and> last replies = End)"
  using multipart_session_ends [OF sample_limits_build sample_limits_fit, of "[[], ''--'', ''b'', []]"]
  by auto

text \<open>C23: No reply of a session is larger than documented: a chunk is never empty and at most the
  configured chunk, the metadata of a field is at most the header bound it was read under, and the
  payload of a reply is at most \<open>max_reply_bytes\<close>.\<close>

theorem multipart_replies_bounded:
  assumes "build_limits l = Inr l" "max_field_bytes l < 2 ^ 64" "length b \<le> max_boundary_bytes l"
    and "read_all False frames (parser_new b l, []) = Some (replies, r)"
  shows "list_all (\<lambda>reply. reply_within l reply \<and> event_reservation reply \<le> max_reply_bytes l) replies"
proof -
  have "list_all (reply_within l) replies"
    using read_all_sound [OF parser_new_ok(1,2) [OF assms(1-3)], of frames "[]"] assms(4)
    by (simp add: parser_new_def)
  moreover have "event_reservation reply \<le> max_reply_bytes l" if "reply_within l reply" for reply
    using that by (cases reply) (auto simp: max_reply_bytes_def)
  ultimately show ?thesis
    by (auto simp: list_all_iff)
qed

lemma multipart_replies_bounded_witness:
  "\<exists>replies r. read_all False sample_frames (parser_new ''b'' sample_limits, []) = Some (replies, r)
     \<and> list_all (\<lambda>reply. reply_within sample_limits reply
          \<and> event_reservation reply \<le> max_reply_bytes sample_limits) replies"
proof -
  obtain replies r where "read_all False sample_frames (parser_new ''b'' sample_limits, []) = Some (replies, r)"
    using read_all_sound [OF parser_new_ok(1,2) [OF sample_limits_build sample_limits_fit], of sample_frames "[]"]
    by auto
  with multipart_replies_bounded [OF sample_limits_build sample_limits_fit] show ?thesis
    by blast
qed

end
