(* ===== verification/Multipart_Buffered.thy ===== *)
theory Multipart_Buffered
  imports Multipart_Refinement "HOL-Library.Sublist"
begin

text \<open>
  The parser of bodies that are already in memory, from \<open>http/multipart/buffered.rs\<close>, and how it
  and the incremental parser agree: on every body it accepts the incremental parser delivers the
  same parts up to a limit it enforces; the converse does not hold.
\<close>

section \<open>The buffered parser\<close>

record part =
  part_name :: string
  part_filename :: "string option"
  part_content_type :: "string option"
  part_data :: string

definition parse_part :: "string \<Rightarrow> string \<Rightarrow> nat \<Rightarrow> runtime_error + part" where
  "parse_part raw full_body offset =
     (case find_bytes raw header_terminator 0 of
        None \<Rightarrow> Inl (malformed ''invalid multipart part framing'')
      | Some header_end \<Rightarrow>
          (case parse_header_block (take header_end raw) of
             Inl e \<Rightarrow> Inl e
           | Inr headers \<Rightarrow>
               let data_start = header_end + length header_terminator;
                   data_offset = offset + data_start
               in (case pt_name headers of
                     None \<Rightarrow> Inl (malformed invalid_content_disposition)
                   | Some name \<Rightarrow>
                       Inr \<lparr>part_name = name, part_filename = pt_filename headers,
                            part_content_type = pt_content_type headers,
                            part_data = take (length raw - data_start) (drop data_offset full_body)\<rparr>)))"

definition parse_closing_delimiter :: "string \<Rightarrow> nat \<Rightarrow> runtime_error + nat option" where
  "parse_closing_delimiter body tail_start =
     (if length body < tail_start then Inl (malformed invalid_delimiter_framing)
      else (case epilogue_closes (drop tail_start body) of
              Inl e \<Rightarrow> Inl e
            | Inr closes \<Rightarrow> if closes then Inr None else Inl (malformed invalid_delimiter_framing)))"

definition parse_delimiter_suffix :: "string \<Rightarrow> nat \<Rightarrow> runtime_error + nat option" where
  "parse_delimiter_suffix body pos =
     (case delimiter_closes_at body pos of
        Inl e \<Rightarrow> Inl e
      | Inr closes \<Rightarrow> if closes then parse_closing_delimiter body (pos + 2) else Inr (Some (pos + 2)))"

lemma delimiter_suffix_next:
  "parse_delimiter_suffix body pos = Inr (Some n) \<longleftrightarrow>
     delimiter_closes_at body pos = Inr False \<and> n = pos + 2"
  by (auto simp: parse_delimiter_suffix_def parse_closing_delimiter_def split: sum.splits if_splits)

function parse_parts :: "string \<Rightarrow> string \<Rightarrow> nat \<Rightarrow> runtime_error + part list" where
  "parse_parts body boundary pos =
     (case find_delimiter body boundary pos of
        None \<Rightarrow> Inl (malformed invalid_delimiter_framing)
      | Some next_delim \<Rightarrow>
          (case parse_part (take (next_delim - pos) (drop pos body)) body pos of
             Inl e \<Rightarrow> Inl e
           | Inr p \<Rightarrow>
               (case parse_delimiter_suffix body (next_delim + length delimiter_prefix + length boundary) of
                  Inl e \<Rightarrow> Inl e
                | Inr None \<Rightarrow> Inr [p]
                | Inr (Some next_pos) \<Rightarrow>
                    (case parse_parts body boundary next_pos of
                       Inl e \<Rightarrow> Inl e
                     | Inr ps \<Rightarrow> Inr (p # ps)))))"
  by pat_completeness auto
termination
proof (relation "measure (\<lambda>(body, _, pos). length body - pos)", goal_cases)
  case (2 body boundary pos d p r n)
  then have "pos \<le> d" "d < length body"
    unfolding find_delimiter_first find_upt_Some by auto
  then show ?case
    using 2 by (simp add: delimiter_suffix_next)
qed simp

declare parse_parts.simps [simp del]

definition parse_multipart :: "string \<Rightarrow> string \<Rightarrow> runtime_error + part list" where
  "parse_multipart content_type body =
     (case extract_boundary_within content_type protocol_max_boundary_bytes of
        Inl e \<Rightarrow> Inl e
      | Inr boundary \<Rightarrow>
          if \<not> opens_body body boundary then Inl (malformed invalid_delimiter_framing)
          else
            (case parse_delimiter_suffix body (length body_prefix + length boundary) of
               Inl e \<Rightarrow> Inl e
             | Inr None \<Rightarrow> Inr []
             | Inr (Some pos) \<Rightarrow> parse_parts body boundary pos))"

section \<open>What the two parsers agree on\<close>

definition part_of :: "field_metadata \<times> string \<Rightarrow> part" where
  "part_of f = \<lparr>part_name = fm_name (fst f), part_filename = fm_filename (fst f),
     part_content_type = fm_content_type (fst f), part_data = snd f\<rparr>"

text \<open>The refusals the incremental parser has and the buffered one has not.\<close>

definition streaming_refusals :: "multipart_limits \<Rightarrow> fault set" where
  "streaming_refusals l =
     {Refuses (malformed ''multipart field header block exceeds its configured maximum''),
      Refuses (malformed ''multipart field declares more headers than the configured maximum''),
      Refuses (malformed ''multipart body declares more fields than the configured maximum''),
      Refuses (malformed ''nested multipart parts are not parsed''),
      field_too_large l}"

definition agrees :: "multipart_limits \<Rightarrow> body_outcome \<Rightarrow> part list \<Rightarrow> bool" where
  "agrees l out ps \<longleftrightarrow>
     (case snd out of
        None \<Rightarrow> map part_of (fst out) = ps
      | Some e \<Rightarrow> e \<in> streaming_refusals l \<and> prefix (map part_of (fst out)) ps)"

lemma epilogue_agrees: "epilogue_closes s = Inr True \<longleftrightarrow> ref_epilogue s = None"
  by (auto simp: epilogue_closes_def ref_epilogue_def)

lemma agrees_refusal: "e \<in> streaming_refusals l \<Longrightarrow> agrees l ([], Some e) ps"
  by (simp add: agrees_def)

lemma agrees_part:
  assumes "agrees l out ps"
  shows "agrees l (apfst (Cons (m, d)) out) (part_of (m, d) # ps)"
  using assms by (auto simp: agrees_def split: option.splits)

lemma find_delimiter_suffix:
  assumes "find_delimiter body b pos = Some d"
  shows "find_delimiter (drop pos body) b 0 = Some (d - pos)" "pos \<le> d"
proof -
  have "pos \<le> d" "delimiter_at body b d" "\<forall>q. pos \<le> q \<and> q < d \<longrightarrow> \<not> delimiter_at body b q"
    using assms unfolding find_delimiter_first find_upt_Some by auto
  then show "find_delimiter (drop pos body) b 0 = Some (d - pos)" "pos \<le> d"
    unfolding find_delimiter_Some by (auto simp: delimiter_at_drop)
qed

text \<open>A part that the buffered parser reads, in the rest of the body that starts with it.\<close>

lemma parse_part_reads:
  assumes "parse_part (take d s) (drop 0 (u @ s)) (length u) = Inr p" "d \<le> length s"
  obtains h hs name where "find_bytes (take d s) header_terminator 0 = Some h" "h + 4 \<le> d"
    "parse_header_block (take h s) = Inr hs" "pt_name hs = Some name"
    "p = \<lparr>part_name = name, part_filename = pt_filename hs, part_content_type = pt_content_type hs,
          part_data = take (d - (h + 4)) (drop (h + 4) s)\<rparr>"
proof -
  obtain h where h: "find_bytes (take d s) header_terminator 0 = Some h"
    using assms(1) by (auto simp: parse_part_def split: option.splits)
  have fits: "h + 4 \<le> d"
    using find_terminator_append(2) [OF h] assms(2) by simp
  have four: "length header_terminator = 4"
    by simp
  obtain hs name where hs: "parse_header_block (take h s) = Inr hs" "pt_name hs = Some name"
      "p = \<lparr>part_name = name, part_filename = pt_filename hs, part_content_type = pt_content_type hs,
          part_data = take (d - (h + 4)) (drop (h + 4) s)\<rparr>"
    using assms h fits unfolding parse_part_def four
    by (auto simp: min_def Let_def split: sum.splits option.splits)
  show ?thesis
    using that h fits hs by blast
qed

lemma ref_block_agrees:
  assumes "parse_header_block block = Inr hs" "pt_name hs = Some name"
  shows "(\<exists>e. ref_block l n block = Inl e \<and> Refuses e \<in> streaming_refusals l)
     \<or> (\<exists>m. ref_block l n block = Inr m \<and> fm_name m = name \<and> fm_filename m = pt_filename hs
          \<and> fm_content_type m = pt_content_type hs)"
  using assms by (auto simp: ref_block_def into_metadata_def streaming_refusals_def)

text \<open>One part of the rest of a body, when what follows it agrees.\<close>

lemma ref_headers_part:
  assumes part: "parse_part (take d s) (u @ s) (length u) = Inr p"
    and delim: "find_delimiter s b 0 = Some d"
    and close: "delimiter_closes_at s (d + length b + 4) = Inr True
      \<Longrightarrow> ref_epilogue (drop (d + length b + 6) s) = None \<and> ps = []"
    and more: "delimiter_closes_at s (d + length b + 4) \<noteq> Inr True
      \<Longrightarrow> agrees l (ref_headers b l (n + 1) (drop (d + length b + 6) s)) ps"
  shows "agrees l (ref_headers b l n s) (p # ps)"
proof -
  have d: "d \<le> length s"
    using find_delimiter_fits(2) [OF delim] by simp
  obtain h hs name where h: "find_bytes (take d s) header_terminator 0 = Some h" "h + 4 \<le> d"
      and hs: "parse_header_block (take h s) = Inr hs" "pt_name hs = Some name"
      and p: "p = \<lparr>part_name = name, part_filename = pt_filename hs, part_content_type = pt_content_type hs,
          part_data = take (d - (h + 4)) (drop (h + 4) s)\<rparr>"
    using parse_part_reads [OF _ d] part by (metis drop0)
  let ?H = "max_header_bytes_per_field l"
  show ?thesis
  proof (cases "find_bytes (take ?H s) header_terminator 0")
    case None
    have "?H \<le> length s"
    proof (rule ccontr)
      assume "\<not> ?H \<le> length s"
      then have "take ?H s = take d s @ drop d s"
        by simp
      then show False
        using None find_terminator_append(1) [OF h(1), of "drop d s"] by simp
    qed
    then show ?thesis
      using None by (simp add: ref_headers.simps [of b l n s] agrees_refusal streaming_refusals_def)
  next
    case (Some h')
    have "find_bytes s header_terminator 0 = Some h" "find_bytes s header_terminator 0 = Some h'"
      using find_terminator_append(1) [OF h(1), of "drop d s"]
        find_terminator_append(1) [OF Some, of "drop ?H s"] by simp_all
    then have found: "find_bytes (take ?H s) header_terminator 0 = Some h"
      using Some by simp
    consider (refused) e where "ref_block l n (take h s) = Inl e" "Refuses e \<in> streaming_refusals l"
      | (read) m where "ref_block l n (take h s) = Inr m" "fm_name m = name"
          "fm_filename m = pt_filename hs" "fm_content_type m = pt_content_type hs"
      using ref_block_agrees [OF hs] by blast
    then show ?thesis
    proof cases
      case refused
      then show ?thesis
        using found by (simp add: ref_headers.simps [of b l n s] agrees_refusal)
    next
      case read
      let ?rest = "drop (d + length b + 6) s" and ?k = "h + 4"
      have "ref_headers b l n s = ref_data b l (ref_headers b l (n + 1)) 0 m [] (drop ?k s)"
        using found read(1) by (simp add: ref_headers.simps [of b l n s])
      also have "\<dots> = (if max_field_bytes l < d - ?k then ([], Some (field_too_large l))
          else apfst (Cons (m, take (d - ?k) (drop ?k s)))
            (if delimiter_closes_at s (d + length b + 4) = Inr True then ([], ref_epilogue ?rest)
             else ref_headers b l (n + 1) ?rest))"
        using find_delimiter_drop [OF delim h(2)] delimiter_closes_drop [of ?k s "d - ?k + length b + 4"] h(2) d
        by (simp add: ref_data_def Let_def ac_simps)
      finally have meaning: "ref_headers b l n s = \<dots>" .
      have p': "part_of (m, take (d - ?k) (drop ?k s)) = p"
        using p read(2-4) by (simp add: part_of_def)
      have rest: "agrees l (if delimiter_closes_at s (d + length b + 4) = Inr True
          then ([], ref_epilogue ?rest) else ref_headers b l (n + 1) ?rest) ps"
      proof (cases "delimiter_closes_at s (d + length b + 4) = Inr True")
        case True
        with close show ?thesis
          by (simp add: agrees_def)
      qed (use more in simp)
      show ?thesis
      proof (cases "max_field_bytes l < d - ?k")
        case True
        then show ?thesis
          unfolding meaning by (simp add: agrees_refusal streaming_refusals_def)
      next
        case False
        then show ?thesis
          unfolding meaning if_not_P [OF False] using agrees_part [OF rest] p' by metis
      qed
    qed
  qed
qed

lemma parse_parts_agrees:
  "parse_parts body b pos = Inr ps \<Longrightarrow> pos \<le> length body \<Longrightarrow> agrees l (ref_headers b l n (drop pos body)) ps"
proof (induction body b pos arbitrary: ps n rule: parse_parts.induct)
  case (1 body b pos)
  let ?s = "drop pos body"
  obtain d p where d: "find_delimiter body b pos = Some d"
      and p: "parse_part (take (d - pos) ?s) body pos = Inr p"
    using "1.prems"(1) by (auto simp: parse_parts.simps [of body b pos] split: option.splits sum.splits)
  have at: "x + length delimiter_prefix + length b = x + length b + 4" for x
    by simp
  note suffix = find_delimiter_suffix [OF d]
  have closes: "delimiter_closes_at ?s (d - pos + length b + 4) = delimiter_closes_at body (d + length b + 4)"
    using delimiter_closes_drop [OF "1.prems"(2), of "d - pos + length b + 4"] suffix(2) by simp
  have rest: "drop (d - pos + length b + 6) ?s = drop (d + length b + 6) body"
    using suffix(2) by (simp add: ac_simps)
  have next_fits: "d + length b + 6 \<le> length body"
    using find_delimiter_fits(2) [OF d] .
  have part: "parse_part (take (d - pos) ?s) (take pos body @ ?s) (length (take pos body)) = Inr p"
    using p "1.prems"(2) by simp
  have steps: "parse_parts body b pos =
      (case parse_delimiter_suffix body (d + length b + 4) of
         Inl e \<Rightarrow> Inl e
       | Inr None \<Rightarrow> Inr [p]
       | Inr (Some q) \<Rightarrow> (case parse_parts body b q of Inl e \<Rightarrow> Inl e | Inr qs \<Rightarrow> Inr (p # qs)))"
    unfolding parse_parts.simps [of body b pos] at using d p by simp
  consider (close) "parse_delimiter_suffix body (d + length b + 4) = Inr None" "ps = [p]"
    | (more) q where "parse_delimiter_suffix body (d + length b + 4) = Inr (Some q)"
        "\<exists>qs. parse_parts body b q = Inr qs \<and> ps = p # qs"
    using "1.prems"(1) unfolding steps
    by (cases "parse_delimiter_suffix body (d + length b + 4)") (auto split: sum.splits option.splits)
  then show ?case
  proof cases
    case close
    then have "delimiter_closes_at body (d + length b + 4) = Inr True"
        "ref_epilogue (drop (d + length b + 6) body) = None"
      by (auto simp: parse_delimiter_suffix_def parse_closing_delimiter_def epilogue_agrees [symmetric]
          ac_simps split: sum.splits if_splits)
    note ended = this
    show ?thesis
      unfolding close(2)
      by (rule ref_headers_part [OF part suffix(1)]) (unfold closes rest, use ended in simp_all)
  next
    case (more q)
    then have q: "delimiter_closes_at body (d + length b + 4) = Inr False" "q = d + length b + 6"
      by (simp_all add: delimiter_suffix_next)
    obtain qs where qs: "parse_parts body b q = Inr qs" "ps = p # qs"
      using more(2) by blast
    have later: "agrees l (ref_headers b l (n + 1) (drop q body)) qs"
      using "1.IH" [OF d p, unfolded at, OF more(1) refl qs(1)] next_fits q(2) by simp
    show ?thesis
      unfolding qs(2)
      by (rule ref_headers_part [OF part suffix(1)]) (unfold closes rest q(1), use later q(2) in simp_all)
  qed
qed

lemma parse_multipart_agrees:
  assumes "parse_multipart content_type body = Inr ps"
    and "extract_boundary_within content_type protocol_max_boundary_bytes = Inr b"
  shows "agrees l (ref_opening b l body) ps"
proof -
  have at: "length body_prefix + n = n + 2" for n
    by simp
  obtain closes where closes: "delimiter_closes_at body (length b + 2) = Inr closes" and opens: "opens_body body b"
    using assms unfolding parse_multipart_def parse_delimiter_suffix_def at
    by (auto split: sum.splits if_splits)
  then have fits: "length b + 4 \<le> length body"
    by (auto simp: delimiter_closes_at_def delimiter_suffix_closes_def get_range_def split: if_splits)
  have four: "n + 2 + 2 = n + 4" for n :: nat
    by simp
  show ?thesis
  proof (cases closes)
    case True
    then have "ps = []" "ref_epilogue (drop (length b + 4) body) = None"
      using assms closes opens fits
      unfolding epilogue_agrees [symmetric] parse_multipart_def parse_delimiter_suffix_def parse_closing_delimiter_def at four
      by (auto split: sum.splits if_splits)
    then show ?thesis
      using closes True opens fits by (simp add: ref_opening_def agrees_def)
  next
    case False
    then have "parse_parts body b (length b + 4) = Inr ps"
      using assms closes opens unfolding parse_multipart_def parse_delimiter_suffix_def at four by simp
    then show ?thesis
      using parse_parts_agrees fits closes False opens by (simp add: ref_opening_def)
  qed
qed

section \<open>The two parsers\<close>

text \<open>C20: A body that the buffered parser accepts is read the same way by a streaming session, under
  every built limits and for every cut into frames: the session delivers the same parts, or it
  stops with one of the refusals that only streaming has (a limit, or a nested multipart part)
  after delivering the first of those parts.\<close>

theorem buffered_body_streams:
  assumes "parse_multipart content_type (concat frames) = Inr ps"
    and "extract_boundary_within content_type protocol_max_boundary_bytes = Inr b"
    and "build_limits l = Inr l" "max_field_bytes l < 2 ^ 64" "length b \<le> max_boundary_bytes l"
  shows "\<exists>replies r. read_all False frames (parser_new b l, []) = Some (replies, r)
     \<and> (case r of
          None \<Rightarrow> map part_of (gather None replies) = ps
        | Some e \<Rightarrow> e \<in> streaming_refusals l \<and> prefix (map part_of (gather None replies)) ps)"
proof -
  note ok = parser_new_ok [OF assms(3-5)]
  obtain replies r where "read_all False frames (parser_new b l, []) = Some (replies, r)"
      "ref_opening b l (concat frames) = (gather None replies, r)"
    using read_all_sound [OF ok(1,2), of frames "[]"] ok(3,4) by auto
  then show ?thesis
    using parse_multipart_agrees [OF assms(1,2), of l] by (auto simp: agrees_def split: option.splits)
qed

lemma sample_boundary:
  "extract_boundary_within ''multipart/form-data; boundary=b'' protocol_max_boundary_bytes = Inr ''b''"
  by code_simp

lemma sample_parts:
  "parse_multipart ''multipart/form-data; boundary=b'' (concat sample_frames)
     = Inr [\<lparr>part_name = ''a'', part_filename = None, part_content_type = None, part_data = ''data''\<rparr>]"
  by code_simp

lemma buffered_body_streams_witness:
  "\<exists>replies r. read_all False sample_frames (parser_new ''b'' sample_limits, []) = Some (replies, r)
     \<and> (case r of
          None \<Rightarrow> map part_of (gather None replies)
            = [\<lparr>part_name = ''a'', part_filename = None, part_content_type = None, part_data = ''data''\<rparr>]
        | Some e \<Rightarrow> e \<in> streaming_refusals sample_limits
            \<and> prefix (map part_of (gather None replies))
                [\<lparr>part_name = ''a'', part_filename = None, part_content_type = None, part_data = ''data''\<rparr>])"
  by (rule buffered_body_streams [OF sample_parts sample_boundary sample_limits_build sample_limits_fit])

text \<open>A body whose first part has an empty header line right before a delimiter line.\<close>

definition divergent_body :: string where
  "divergent_body =
     ''--b'' @ [CR, LF] @ ''Content-Disposition: form-data; name=a'' @ [CR, LF]
     @ [CR, LF] @ ''--b'' @ [CR, LF] @ ''x'' @ [CR, LF] @ ''--b--''"

lemma divergent_meaning:
  "ref_opening ''b'' sample_limits divergent_body
     = ([(\<lparr>fm_name = ''a'', fm_filename = None, fm_content_type = None, fm_bytes = 1\<rparr>,
          ''--b'' @ [CR, LF] @ ''x'')], None)"
  by code_simp

lemma divergent_buffered:
  "parse_multipart ''multipart/form-data; boundary=b'' divergent_body
     = Inl (malformed ''invalid multipart part framing'')"
  by code_simp

text \<open>The converse of the last property does not hold. The line break that ends a header block
  may be the one a delimiter line starts with; the buffered parser then reads the delimiter line
  and refuses the part, the incremental parser reads the end of the headers and delivers the
  delimiter line as data. One body is accepted by one parser and refused by the other.\<close>

lemma parsers_diverge:
  "parse_multipart ''multipart/form-data; boundary=b'' divergent_body
     = Inl (malformed ''invalid multipart part framing'')
   \<and> (\<exists>replies. read_all False [divergent_body] (parser_new ''b'' sample_limits, []) = Some (replies, None)
        \<and> gather None replies
            = [(\<lparr>fm_name = ''a'', fm_filename = None, fm_content_type = None, fm_bytes = 1\<rparr>,
                ''--b'' @ [CR, LF] @ ''x'')])"
  using divergent_buffered divergent_meaning
    read_all_sound [OF parser_new_ok(1,2) [OF sample_limits_build sample_limits_fit], of "[divergent_body]" "[]"]
    parser_new_ok(3,4) [OF sample_limits_build sample_limits_fit]
  by auto

end
