(* ===== verification/Multipart_Slot.thy ===== *)
theory Multipart_Slot
  imports Multipart_Parser "HOL-Library.Sublist"
begin

text \<open>
  The command slot of a streaming multipart session, from \<open>http/multipart/session.rs\<close>: a
  rendezvous of the operation a handler runs, the driver that owns the body, and the coordinator
  that may revoke the handler's access at any time. Every access to the slot is under one lock,
  so a session is an interleaving of those accesses. The stream lends itself to one operation at
  a time; the future of an operation may be dropped at any moment it waits. A reply is any value;
  which replies the driver can find to a command, if any, and which are failures, are parameters. Wakers
  and metrics do not change the slot and are left out, and so is the metadata it accounts for.
\<close>

section \<open>The slot\<close>

datatype 'r slot_phase = Idle | Issued command_kind | Accepted | Published 'r | Lost

datatype acceptance = AcceptedCommand command_kind | Pending | Closed

record 'r slot =
  sl_admitting :: bool
  sl_attached :: bool
  sl_terminated :: bool
  sl_abandoned :: bool
  sl_phase :: "'r slot_phase"

definition slot_new :: "'r slot" where
  "slot_new = \<lparr>sl_admitting = True, sl_attached = True, sl_terminated = False,
     sl_abandoned = False, sl_phase = Idle\<rparr>"

definition slot_open :: "'r slot \<Rightarrow> bool" where
  "slot_open s \<longleftrightarrow> sl_admitting s \<and> sl_attached s \<and> \<not> sl_abandoned s"

definition try_accept :: "'r slot \<Rightarrow> acceptance \<times> 'r slot" where
  "try_accept s =
     (case (sl_phase s, slot_open s) of
        (Issued kind, True) \<Rightarrow> (AcceptedCommand kind, s\<lparr>sl_phase := Accepted\<rparr>)
      | (Lost, _) \<Rightarrow> (Closed, s)
      | (_, False) \<Rightarrow> (Closed, s)
      | (_, True) \<Rightarrow> (Pending, s))"

definition slot_publish :: "'r \<Rightarrow> 'r slot \<Rightarrow> bool \<times> 'r slot" where
  "slot_publish reply s =
     (case sl_phase s of
        Accepted \<Rightarrow> (True, s\<lparr>sl_phase := Published reply\<rparr>)
      | _ \<Rightarrow> (False, s))"

definition acknowledged :: "'r slot \<Rightarrow> bool option" where
  "acknowledged s =
     (case (sl_phase s, slot_open s) of
        (Idle, _) \<Rightarrow> Some True
      | (Issued _, _) \<Rightarrow> Some True
      | (Lost, _) \<Rightarrow> Some False
      | (_, False) \<Rightarrow> Some False
      | _ \<Rightarrow> None)"

definition take_published :: "'r slot \<Rightarrow> 'r option \<times> 'r slot" where
  "take_published s =
     (case sl_phase s of
        Published reply \<Rightarrow> (Some reply, s\<lparr>sl_phase := Idle\<rparr>)
      | _ \<Rightarrow> (None, s))"

text \<open>The refusal every closed session answers with is the left value.\<close>

definition acknowledge :: "'r slot \<Rightarrow> (unit + 'r option) \<times> 'r slot" where
  "acknowledge s =
     (let (published, s') = take_published s
      in case (published, slot_open s') of
           (Some reply, True) \<Rightarrow> (Inr (Some reply), s')
         | (_, False) \<Rightarrow> (Inl (), s')
         | (None, True) \<Rightarrow>
             (case sl_phase s' of
                Lost \<Rightarrow> (Inl (), s')
              | _ \<Rightarrow> if sl_terminated s' then (Inl (), s') else (Inr None, s')))"

definition issue :: "command_kind \<Rightarrow> 'r slot \<Rightarrow> (unit + unit) \<times> 'r slot" where
  "issue kind s =
     (if slot_open s \<and> \<not> sl_terminated s \<and> (case sl_phase s of Idle \<Rightarrow> True | _ \<Rightarrow> False)
      then (Inr (), s\<lparr>sl_phase := Issued kind\<rparr>)
      else (Inl (), s))"

definition abandon :: "'r slot \<Rightarrow> 'r slot" where
  "abandon s = s\<lparr>sl_abandoned := True\<rparr>"

definition revoke :: "'r slot \<Rightarrow> 'r slot" where
  "revoke s = s\<lparr>sl_admitting := False\<rparr>"

definition detach :: "'r slot \<Rightarrow> 'r slot" where
  "detach s = s\<lparr>sl_attached := False\<rparr>"

definition terminate :: "'r slot \<Rightarrow> 'r slot" where
  "terminate s = s\<lparr>sl_terminated := True\<rparr>"

text \<open>What dropping the armed guard of an operation does.\<close>

definition guard_drop :: "bool \<Rightarrow> 'r slot \<Rightarrow> 'r slot" where
  "guard_drop terminal_before_acceptance s =
     (let unaccepted = (case sl_phase s of Issued _ \<Rightarrow> True | Idle \<Rightarrow> True | _ \<Rightarrow> False)
      in if unaccepted \<and> \<not> terminal_before_acceptance
         then s\<lparr>sl_phase := Idle\<rparr>
         else s\<lparr>sl_phase := Lost, sl_abandoned := True\<rparr>)"

section \<open>Sessions\<close>

datatype operation = NoOperation | Waiting command_kind | Unwinding command_kind

datatype 'r driver =
    Accepting
  | Serving command_kind
  | Publishing command_kind 'r
  | Delivering bool
  | Reporting bool bool
  | Settling
  | Ended

text \<open>
  Beside the slot and where the two sides are, a session keeps every reply that was published and
  every command that returned a reply, in order.
\<close>

record 'r session =
  ss_slot :: "'r slot"
  ss_operation :: operation
  ss_driver :: "'r driver"
  ss_published :: "'r list"
  ss_returned :: "(command_kind \<times> 'r) list"

abbreviation terminal_kind :: "command_kind \<Rightarrow> bool" where
  "terminal_kind kind \<equiv> kind = Discard"

text \<open>
  The accesses of \<open>run_command\<close>: issuing, polling for the reply, and the drop of its guard, on the
  way out of a refusal or because the future was dropped while it waited.
\<close>

inductive operation_step :: "'r session \<Rightarrow> 'r session \<Rightarrow> bool" where
  op_issued:
    "ss_operation s = NoOperation \<Longrightarrow> issue kind (ss_slot s) = (Inr (), slot) \<Longrightarrow>
     operation_step s (s\<lparr>ss_slot := slot, ss_operation := Waiting kind\<rparr>)"
| op_refused:
    "ss_operation s = NoOperation \<Longrightarrow> issue kind (ss_slot s) = (Inl (), slot) \<Longrightarrow>
     operation_step s (s\<lparr>ss_slot := slot, ss_operation := Unwinding kind\<rparr>)"
| op_returned:
    "ss_operation s = Waiting kind \<Longrightarrow> acknowledge (ss_slot s) = (Inr (Some reply), slot) \<Longrightarrow>
     operation_step s (s\<lparr>ss_slot := slot, ss_operation := NoOperation,
       ss_returned := ss_returned s @ [(kind, reply)]\<rparr>)"
| op_polled:
    "ss_operation s = Waiting kind \<Longrightarrow> acknowledge (ss_slot s) = (Inr None, slot) \<Longrightarrow>
     operation_step s (s\<lparr>ss_slot := slot\<rparr>)"
| op_closed:
    "ss_operation s = Waiting kind \<Longrightarrow> acknowledge (ss_slot s) = (Inl (), slot) \<Longrightarrow>
     operation_step s (s\<lparr>ss_slot := slot, ss_operation := Unwinding kind\<rparr>)"
| op_dropped:
    "ss_operation s \<in> {Waiting kind, Unwinding kind} \<Longrightarrow>
     operation_step s (s\<lparr>ss_slot := guard_drop (terminal_kind kind) (ss_slot s), ss_operation := NoOperation\<rparr>)"

text \<open>
  The accesses of \<open>run\<close>. While it serves a command, each turn looks for a revocation before it lets
  the parser go on, and the parser may be waiting for the transport: a reply to a command is found
  in such a turn, if there is one at all. After a reply has been delivered or lost, a failure closes the session
  before the loop goes on or leaves; leaving, the driver settles the session.
\<close>

inductive driver_step ::
  "(command_kind \<Rightarrow> 'r \<Rightarrow> bool) \<Rightarrow> ('r \<Rightarrow> bool) \<Rightarrow> 'r session \<Rightarrow> 'r session \<Rightarrow> bool"
  for answers fails
where
  accepts:
    "ss_driver s = Accepting \<Longrightarrow> try_accept (ss_slot s) = (AcceptedCommand kind, slot) \<Longrightarrow>
     driver_step answers fails s (s\<lparr>ss_slot := slot, ss_driver := Serving kind\<rparr>)"
| closes:
    "ss_driver s = Accepting \<Longrightarrow> try_accept (ss_slot s) = (Closed, slot) \<Longrightarrow>
     driver_step answers fails s (s\<lparr>ss_slot := slot, ss_driver := Settling\<rparr>)"
| revoked:
    "ss_driver s = Serving kind \<Longrightarrow> \<not> sl_admitting (ss_slot s) \<Longrightarrow>
     driver_step answers fails s (s\<lparr>ss_driver := Settling\<rparr>)"
| serves:
    "ss_driver s = Serving kind \<Longrightarrow> sl_admitting (ss_slot s) \<Longrightarrow> answers kind reply \<Longrightarrow>
     driver_step answers fails s (s\<lparr>ss_driver := Publishing kind reply\<rparr>)"
| publishes:
    "ss_driver s = Publishing kind reply \<Longrightarrow> slot_publish reply (ss_slot s) = (True, slot) \<Longrightarrow>
     driver_step answers fails s (s\<lparr>ss_slot := slot, ss_driver := Delivering (fails reply),
       ss_published := ss_published s @ [reply]\<rparr>)"
| unpublished:
    "ss_driver s = Publishing kind reply \<Longrightarrow> slot_publish reply (ss_slot s) = (False, slot) \<Longrightarrow>
     driver_step answers fails s (s\<lparr>ss_slot := slot, ss_driver := Reporting (fails reply) False\<rparr>)"
| delivered:
    "ss_driver s = Delivering failed \<Longrightarrow> acknowledged (ss_slot s) = Some settled \<Longrightarrow>
     driver_step answers fails s (s\<lparr>ss_driver := Reporting failed settled\<rparr>)"
| reported:
    "ss_driver s = Reporting failed settled \<Longrightarrow>
     driver_step answers fails s (s\<lparr>ss_slot := (if failed then abandon (ss_slot s) else ss_slot s),
       ss_driver := (if settled then Accepting else Settling)\<rparr>)"
| settles:
    "ss_driver s = Settling \<Longrightarrow>
     driver_step answers fails s (s\<lparr>ss_slot := terminate (ss_slot s), ss_driver := Ended\<rparr>)"

text \<open>The coordinator revokes; the stream is dropped; a field is dropped before its data ended.\<close>

inductive handle_step :: "'r session \<Rightarrow> 'r session \<Rightarrow> bool" where
  revokes: "handle_step s (s\<lparr>ss_slot := revoke (ss_slot s)\<rparr>)"
| detaches: "ss_operation s = NoOperation \<Longrightarrow> handle_step s (s\<lparr>ss_slot := detach (ss_slot s)\<rparr>)"
| abandons: "ss_operation s = NoOperation \<Longrightarrow> handle_step s (s\<lparr>ss_slot := abandon (ss_slot s)\<rparr>)"

definition session_step ::
  "(command_kind \<Rightarrow> 'r \<Rightarrow> bool) \<Rightarrow> ('r \<Rightarrow> bool) \<Rightarrow> 'r session \<Rightarrow> 'r session \<Rightarrow> bool"
where
  "session_step answers fails s t \<longleftrightarrow>
     operation_step s t \<or> driver_step answers fails s t \<or> handle_step s t"

definition session_start :: "'r session" where
  "session_start = \<lparr>ss_slot = slot_new, ss_operation = NoOperation, ss_driver = Accepting,
     ss_published = [], ss_returned = []\<rparr>"

section \<open>The invariant of a session\<close>

fun is_published :: "'r slot_phase \<Rightarrow> bool" where
  "is_published (Published r) = True"
| "is_published _ = False"

text \<open>Where the operation is, given the phase.\<close>

fun operation_fits :: "(command_kind \<Rightarrow> 'r \<Rightarrow> bool) \<Rightarrow> 'r slot_phase \<Rightarrow> operation \<Rightarrow> bool" where
  "operation_fits answers phase NoOperation \<longleftrightarrow> phase \<in> {Idle, Lost}"
| "operation_fits answers phase (Waiting kind) \<longleftrightarrow>
     phase \<in> {Issued kind, Accepted} \<or> (\<exists>reply. phase = Published reply \<and> answers kind reply)"
| "operation_fits answers phase (Unwinding kind) \<longleftrightarrow> (\<forall>other. phase = Issued other \<longrightarrow> other = kind)"

text \<open>Where the driver is, given the phase and the operation.\<close>

fun driver_fits ::
  "(command_kind \<Rightarrow> 'r \<Rightarrow> bool) \<Rightarrow> 'r slot_phase \<Rightarrow> operation \<Rightarrow> 'r driver \<Rightarrow> bool"
where
  "driver_fits answers phase op Accepting \<longleftrightarrow> phase \<noteq> Accepted \<and> \<not> is_published phase"
| "driver_fits answers phase op (Serving kind) \<longleftrightarrow>
     (phase = Accepted \<and> op \<in> {Waiting kind, Unwinding kind}) \<or> phase = Lost"
| "driver_fits answers phase op (Publishing kind reply) \<longleftrightarrow>
     answers kind reply \<and> ((phase = Accepted \<and> op \<in> {Waiting kind, Unwinding kind}) \<or> phase = Lost)"
| "driver_fits answers phase op (Delivering failed) \<longleftrightarrow> phase \<noteq> Accepted"
| "driver_fits answers phase op (Reporting failed settled) \<longleftrightarrow>
     phase \<noteq> Accepted \<and> (settled \<longrightarrow> \<not> is_published phase)"
| "driver_fits answers phase op Settling \<longleftrightarrow> True"
| "driver_fits answers phase op Ended \<longleftrightarrow> True"

text \<open>The driver has left its loop, or is about to.\<close>

fun driver_left :: "'r driver \<Rightarrow> bool" where
  "driver_left (Reporting failed settled) = (\<not> settled)"
| "driver_left d = (d \<in> {Settling, Ended})"

text \<open>The replies handed over are those published, up to one that is in the slot or lost.\<close>

definition replies_fit :: "'r slot \<Rightarrow> 'r list \<Rightarrow> 'r list \<Rightarrow> bool" where
  "replies_fit slot published handed \<longleftrightarrow>
     (case sl_phase slot of
        Published reply \<Rightarrow> published = handed @ [reply]
      | Issued kind \<Rightarrow> published = handed
      | Accepted \<Rightarrow> published = handed
      | _ \<Rightarrow> published = handed \<or> \<not> slot_open slot \<and> (\<exists>reply. published = handed @ [reply]))"

definition session_ok :: "(command_kind \<Rightarrow> 'r \<Rightarrow> bool) \<Rightarrow> 'r session \<Rightarrow> bool" where
  "session_ok answers s \<longleftrightarrow>
     (let slot = ss_slot s; phase = sl_phase slot
      in operation_fits answers phase (ss_operation s)
         \<and> driver_fits answers phase (ss_operation s) (ss_driver s)
         \<and> (phase = Lost \<or> driver_left (ss_driver s) \<longrightarrow> \<not> slot_open slot)
         \<and> list_all (\<lambda>(kind, reply). answers kind reply) (ss_returned s)
         \<and> replies_fit slot (ss_published s) (map snd (ss_returned s)))"

lemmas slot_defs = slot_open_def issue_def acknowledge_def take_published_def try_accept_def slot_publish_def
  acknowledged_def guard_drop_def replies_fit_def abandon_def revoke_def detach_def terminate_def Let_def

lemma operation_step_ok:
  assumes "operation_step s t" "session_ok answers s"
  shows "session_ok answers t"
  using assms
proof cases
  case (op_issued kind slot)
  then show ?thesis
    using assms(2) by (cases "ss_driver s") (auto simp: session_ok_def slot_defs split: if_splits slot_phase.splits bool.splits)
next
  case (op_refused kind slot)
  then show ?thesis
    using assms(2) by (cases "ss_driver s") (auto simp: session_ok_def slot_defs split: if_splits slot_phase.splits bool.splits)
next
  case (op_returned kind reply slot)
  then show ?thesis
    using assms(2) by (cases "ss_driver s") (auto simp: session_ok_def slot_defs split: if_splits slot_phase.splits bool.splits)
next
  case (op_polled kind slot)
  then have "slot = ss_slot s"
    by (auto simp: slot_defs split: if_splits slot_phase.splits bool.splits)
  then show ?thesis
    using op_polled assms(2) by simp
next
  case (op_closed kind slot)
  then show ?thesis
    using assms(2) by (cases "ss_driver s") (auto simp: session_ok_def slot_defs split: if_splits slot_phase.splits bool.splits)
next
  case (op_dropped kind)
  then show ?thesis
    using assms(2) by (cases "ss_driver s") (auto simp: session_ok_def slot_defs split: if_splits slot_phase.splits bool.splits)
qed

lemma driver_step_ok:
  assumes "driver_step answers fails s t" "session_ok answers s"
  shows "session_ok answers t"
  using assms
proof cases
  case (accepts kind slot)
  then show ?thesis
    using assms(2) by (cases "ss_operation s") (auto simp: session_ok_def slot_defs split: if_splits slot_phase.splits bool.splits)
next
  case (closes slot)
  then show ?thesis
    using assms(2) by (cases "ss_operation s") (auto simp: session_ok_def slot_defs split: if_splits slot_phase.splits bool.splits)
next
  case (revoked kind)
  then show ?thesis
    using assms(2) by (cases "ss_operation s") (auto simp: session_ok_def slot_defs split: if_splits slot_phase.splits bool.splits)
next
  case (serves kind reply)
  then show ?thesis
    using assms(2) by (cases "ss_operation s") (auto simp: session_ok_def slot_defs split: if_splits slot_phase.splits bool.splits)
next
  case (publishes kind reply slot)
  then show ?thesis
    using assms(2) by (cases "ss_operation s") (auto simp: session_ok_def slot_defs split: if_splits slot_phase.splits bool.splits)
next
  case (unpublished kind reply slot)
  then show ?thesis
    using assms(2) by (cases "ss_operation s") (auto simp: session_ok_def slot_defs split: if_splits slot_phase.splits bool.splits)
next
  case (delivered failed settled)
  then show ?thesis
    using assms(2) by (cases "ss_operation s") (auto simp: session_ok_def slot_defs split: if_splits slot_phase.splits bool.splits)
next
  case (reported failed settled)
  then show ?thesis
    using assms(2) by (cases "ss_operation s") (auto simp: session_ok_def slot_defs split: if_splits slot_phase.splits bool.splits)
next
  case (settles)
  then show ?thesis
    using assms(2) by (cases "ss_operation s") (auto simp: session_ok_def slot_defs split: if_splits slot_phase.splits bool.splits)
qed

lemma handle_step_ok:
  assumes "handle_step s t" "session_ok answers s"
  shows "session_ok answers t"
  using assms
  by cases (auto simp: session_ok_def slot_defs split: slot_phase.splits)

abbreviation session_reach :: "(command_kind \<Rightarrow> 'r \<Rightarrow> bool) \<Rightarrow> ('r \<Rightarrow> bool) \<Rightarrow> 'r session \<Rightarrow> bool" where
  "session_reach answers fails \<equiv> (session_step answers fails)\<^sup>*\<^sup>* session_start"

lemma session_reach_ok: "session_reach answers fails s \<Longrightarrow> session_ok answers s"
proof (induction rule: rtranclp_induct)
  case base
  show ?case
    by (simp add: session_start_def slot_new_def session_ok_def replies_fit_def slot_open_def)
next
  case (step s t)
  then show ?case
    using operation_step_ok driver_step_ok handle_step_ok by (auto simp: session_step_def)
qed

lemma session_step_closed:
  assumes "session_step answers fails s t" "\<not> slot_open (ss_slot s)"
  shows "\<not> slot_open (ss_slot t) \<and> ss_returned t = ss_returned s"
proof -
  consider "operation_step s t" | "driver_step answers fails s t" | "handle_step s t"
    using assms(1) unfolding session_step_def by blast
  then show ?thesis
  proof cases
    case 1
    then show ?thesis
      using assms(2) by cases (auto simp: slot_defs split: if_splits slot_phase.splits bool.splits)
  next
    case 2
    then show ?thesis
      using assms(2) by cases (auto simp: slot_defs split: if_splits slot_phase.splits bool.splits)
  next
    case 3
    then show ?thesis
      using assms(2) by cases (auto simp: slot_defs)
  qed
qed

text \<open>A session whose first command has been answered when the coordinator revokes it.\<close>

abbreviation demo_session :: "bool \<Rightarrow> bool slot_phase \<Rightarrow> operation \<Rightarrow> bool driver \<Rightarrow> bool list \<Rightarrow> bool session" where
  "demo_session admitting phase op d published \<equiv>
     \<lparr>ss_slot = \<lparr>sl_admitting = admitting, sl_attached = True, sl_terminated = False, sl_abandoned = False,
        sl_phase = phase\<rparr>, ss_operation = op, ss_driver = d, ss_published = published, ss_returned = []\<rparr>"

abbreviation demo_answers :: "command_kind \<Rightarrow> bool \<Rightarrow> bool" where
  "demo_answers kind reply \<equiv> reply = (kind = Discard)"

lemma demo_session_accepted:
  "session_reach answers fails (demo_session True Accepted (Waiting Discard) (Serving Discard) [])"
proof -
  have 1: "session_step answers fails session_start (demo_session True (Issued Discard) (Waiting Discard) Accepting [])"
    using operation_step.op_issued [of "session_start :: bool session" Discard]
    by (simp add: session_step_def session_start_def slot_new_def slot_defs)
  have 2: "session_step answers fails (demo_session True (Issued Discard) (Waiting Discard) Accepting [])
      (demo_session True Accepted (Waiting Discard) (Serving Discard) [])"
    using driver_step.accepts [of "demo_session True (Issued Discard) (Waiting Discard) Accepting []" Discard]
    by (simp add: session_step_def slot_defs)
  show ?thesis
    using 1 2 by (meson converse_rtranclp_into_rtranclp rtranclp.rtrancl_refl)
qed

lemma demo_session_reached:
  "session_reach demo_answers Not (demo_session False (Published True) (Waiting Discard) (Delivering False) [True])"
proof -
  let ?step = "session_step demo_answers Not"
  have 1: "?step (demo_session True Accepted (Waiting Discard) (Serving Discard) [])
      (demo_session True Accepted (Waiting Discard) (Publishing Discard True) [])"
    using driver_step.serves [of "demo_session True Accepted (Waiting Discard) (Serving Discard) []" Discard
        demo_answers True Not]
    by (simp add: session_step_def)
  have 2: "?step (demo_session True Accepted (Waiting Discard) (Publishing Discard True) [])
      (demo_session True (Published True) (Waiting Discard) (Delivering False) [True])"
    using driver_step.publishes [of "demo_session True Accepted (Waiting Discard) (Publishing Discard True) []"
        Discard True _ demo_answers Not]
    by (simp add: session_step_def slot_defs)
  have 3: "?step (demo_session True (Published True) (Waiting Discard) (Delivering False) [True])
      (demo_session False (Published True) (Waiting Discard) (Delivering False) [True])"
    using handle_step.revokes [of "demo_session True (Published True) (Waiting Discard) (Delivering False) [True]"]
    by (simp add: session_step_def slot_defs)
  show ?thesis
    using demo_session_accepted [of demo_answers Not] 1 2 3 by (meson rtranclp.rtrancl_into_rtrancl)
qed

lemma demo_session_closes:
  "session_step demo_answers Not (demo_session False (Published True) (Waiting Discard) (Delivering False) [True])
     (demo_session False Idle (Unwinding Discard) (Delivering False) [True])"
  using operation_step.op_closed [of "demo_session False (Published True) (Waiting Discard) (Delivering False) [True]"
      Discard]
  by (simp add: session_step_def slot_defs)

section \<open>Replies arrive once, in order, at the command they answer\<close>

text \<open>C24: Whatever the interleaving of a handler's operations, their cancellation, the driver and the
  coordinator: every reply an operation returned was given to a command of its kind, and the
  replies returned are the replies published, in order and without a gap. At most the last one is
  still outstanding, and if it was dropped instead the session is closed. Once a session is closed
  it stays closed and returns nothing more, not even a reply that was already published.\<close>

theorem replies_once_in_order:
  assumes "session_reach answers fails s"
  shows "list_all (\<lambda>(kind, reply). answers kind reply) (ss_returned s)
     \<and> prefix (map snd (ss_returned s)) (ss_published s)
     \<and> length (ss_published s) \<le> length (ss_returned s) + 1
     \<and> (ss_published s \<noteq> map snd (ss_returned s) \<longrightarrow>
          (\<exists>reply. sl_phase (ss_slot s) = Published reply) \<or> \<not> slot_open (ss_slot s))
     \<and> (\<not> slot_open (ss_slot s) \<longrightarrow> (session_step answers fails)\<^sup>*\<^sup>* s t \<longrightarrow>
          \<not> slot_open (ss_slot t) \<and> ss_returned t = ss_returned s)"
proof (intro conjI impI)
  have ok: "session_ok answers s"
    using session_reach_ok [OF assms] .
  then show "list_all (\<lambda>(kind, reply). answers kind reply) (ss_returned s)"
    by (simp add: session_ok_def Let_def)
  have published: "ss_published s = map snd (ss_returned s)
      \<or> (\<exists>reply. ss_published s = map snd (ss_returned s) @ [reply])"
    using ok by (auto simp: session_ok_def replies_fit_def Let_def split: slot_phase.splits)
  then show "prefix (map snd (ss_returned s)) (ss_published s)"
    by auto
  show "length (ss_published s) \<le> length (ss_returned s) + 1"
    using published by auto
  show "(\<exists>reply. sl_phase (ss_slot s) = Published reply) \<or> \<not> slot_open (ss_slot s)"
    if "ss_published s \<noteq> map snd (ss_returned s)"
    using ok that by (auto simp: session_ok_def replies_fit_def Let_def split: slot_phase.splits)
  assume closed: "\<not> slot_open (ss_slot s)" and run: "(session_step answers fails)\<^sup>*\<^sup>* s t"
  from run have "\<not> slot_open (ss_slot t) \<and> ss_returned t = ss_returned s"
  proof (induction rule: rtranclp_induct)
    case (step u v)
    then show ?case
      using session_step_closed [OF step.hyps(2)] by simp
  qed (simp add: closed)
  then show "\<not> slot_open (ss_slot t)" "ss_returned t = ss_returned s"
    by simp_all
qed

theorem replies_once_in_order_witness:
  "let s = demo_session False (Published True) (Waiting Discard) (Delivering False) [True];
       t = demo_session False Idle (Unwinding Discard) (Delivering False) [True]
   in session_reach demo_answers Not s \<and> ss_published s = [True] \<and> ss_returned t = []
      \<and> \<not> slot_open (ss_slot t) \<and> ss_returned t = ss_returned s"
  using replies_once_in_order [OF demo_session_reached] demo_session_reached demo_session_closes
  by (simp add: slot_open_def)

section \<open>No side waits for ever\<close>

lemma driver_moves:
  assumes going: "ss_driver s \<noteq> Ended"
    and served: "\<And>kind. ss_driver s = Serving kind \<Longrightarrow> \<not> sl_admitting (ss_slot s) \<or> (\<exists>reply. answers kind reply)"
    and found: "ss_driver s = Accepting \<Longrightarrow> fst (try_accept (ss_slot s)) \<noteq> Pending"
    and settled: "\<And>failed. ss_driver s = Delivering failed \<Longrightarrow> acknowledged (ss_slot s) \<noteq> None"
  shows "\<exists>t. driver_step answers fails s t"
proof (cases "ss_driver s")
  case Accepting
  then show ?thesis
    using found driver_step.accepts [OF Accepting] driver_step.closes [OF Accepting]
    by (metis acceptance.exhaust prod.collapse)
next
  case (Serving kind)
  then show ?thesis
    using served driver_step.revoked [OF Serving] driver_step.serves [where answers = answers, OF Serving] by blast
next
  case (Publishing kind reply)
  then show ?thesis
    using driver_step.publishes [OF Publishing] driver_step.unpublished [OF Publishing]
    by (metis (full_types) prod.collapse)
next
  case (Delivering failed)
  then show ?thesis
    using settled driver_step.delivered [OF Delivering] by blast
next
  case (Reporting failed settled)
  then show ?thesis
    using driver_step.reported by blast
next
  case Settling
  then show ?thesis
    using driver_step.settles by blast
qed (use going in simp)

lemma waiting_moves:
  assumes ok: "session_ok answers s" and waits: "ss_operation s = Waiting kind"
    and pending: "fst (acknowledge (ss_slot s)) = Inr None"
  shows "ss_driver s \<noteq> Ended" "ss_driver s = Accepting \<Longrightarrow> fst (try_accept (ss_slot s)) \<noteq> Pending"
    "ss_driver s = Delivering failed \<Longrightarrow> acknowledged (ss_slot s) \<noteq> None"
    "ss_driver s = Serving other \<Longrightarrow> other = kind"
proof -
  have phase: "sl_phase (ss_slot s) \<in> {Issued kind, Accepted}" and here: "slot_open (ss_slot s)"
    using ok waits pending
    by (auto simp: session_ok_def acknowledge_def take_published_def slot_open_def Let_def
        split: slot_phase.splits bool.splits if_splits)
  show "ss_driver s \<noteq> Ended"
    using ok here by (auto simp: session_ok_def Let_def)
  show "fst (try_accept (ss_slot s)) \<noteq> Pending" if "ss_driver s = Accepting"
    using ok phase here that by (auto simp: session_ok_def try_accept_def Let_def)
  show "acknowledged (ss_slot s) \<noteq> None" if "ss_driver s = Delivering failed"
    using ok phase that by (auto simp: session_ok_def acknowledged_def Let_def)
  show "other = kind" if "ss_driver s = Serving other"
    using ok phase waits that by (auto simp: session_ok_def Let_def)
qed

lemma closed_moves:
  assumes "\<not> slot_open slot"
  shows "fst (try_accept slot) = Closed" "acknowledged slot \<noteq> None"
  using assms by (auto simp: try_accept_def acknowledged_def split: slot_phase.splits)

text \<open>How many steps of its own a driver is at most from its end once the session is closed.\<close>

fun driver_rank :: "'r driver \<Rightarrow> nat" where
  "driver_rank (Serving kind) = 6"
| "driver_rank (Publishing kind reply) = 5"
| "driver_rank (Delivering failed) = 4"
| "driver_rank (Reporting failed settled) = 3"
| "driver_rank Accepting = 2"
| "driver_rank Settling = 1"
| "driver_rank Ended = 0"

lemma closed_driver_falls:
  assumes "driver_step answers fails s t" "\<not> slot_open (ss_slot s)"
  shows "driver_rank (ss_driver t) < driver_rank (ss_driver s)"
  using assms closed_moves(1) [OF assms(2)] by cases simp_all

lemma revoked_stays:
  assumes "session_step answers fails s t" "\<not> sl_admitting (ss_slot s)"
  shows "\<not> sl_admitting (ss_slot t)"
proof -
  consider "operation_step s t" | "driver_step answers fails s t" | "handle_step s t"
    using assms(1) unfolding session_step_def by blast
  then show ?thesis
  proof cases
    case 1
    then show ?thesis
      using assms(2) by cases (auto simp: slot_defs split: if_splits slot_phase.splits bool.splits)
  next
    case 2
    then show ?thesis
      using assms(2) by cases (auto simp: slot_defs split: if_splits slot_phase.splits bool.splits)
  next
    case 3
    then show ?thesis
      using assms(2) by cases (auto simp: slot_defs)
  qed
qed

lemma others_keep_driver:
  "operation_step s t \<Longrightarrow> ss_driver t = ss_driver s"
  "handle_step s t \<Longrightarrow> ss_driver t = ss_driver s"
  by (auto elim!: operation_step.cases handle_step.cases)

lemma revoked_run:
  assumes "(session_step answers fails)\<^sup>*\<^sup>* s t" "\<not> sl_admitting (ss_slot s)"
  shows "\<not> sl_admitting (ss_slot t) \<and> driver_rank (ss_driver t) \<le> driver_rank (ss_driver s)"
  using assms(1)
proof (induction rule: rtranclp_induct)
  case (step u v)
  then have "\<not> slot_open (ss_slot u)"
    by (simp add: slot_open_def)
  then have "driver_rank (ss_driver v) < driver_rank (ss_driver u)" if "driver_step answers fails u v"
    using closed_driver_falls [OF that] by blast
  then have "driver_rank (ss_driver v) \<le> driver_rank (ss_driver u)"
    using step.hyps(2) others_keep_driver [of u v] unfolding session_step_def by auto
  then show ?case
    using step revoked_stays [OF step.hyps(2)] by simp
qed (use assms(2) in simp)

text \<open>C25: A session is never stuck, however much of the body has not arrived. While an operation waits,
  its next poll returns, with a reply or because the session closed, or else the driver can move,
  unless the driver serves this very command and the transport has given it no reply yet. Once the
  coordinator has revoked the session the driver needs no reply: whatever the other side does, as
  long as the driver has not ended it can move, also in the middle of a command, and each step it
  takes brings it nearer to its end, which is at most six of its steps away. A route that revoked a
  session is not held up by a peer that stopped sending.\<close>

theorem session_never_stuck:
  assumes reached: "session_reach answers fails s"
  shows "(ss_operation s = Waiting kind \<longrightarrow>
            fst (acknowledge (ss_slot s)) \<noteq> Inr None \<or> (\<exists>t. driver_step answers fails s t)
            \<or> ss_driver s = Serving kind \<and> (\<forall>reply. \<not> answers kind reply))
     \<and> (\<not> sl_admitting (ss_slot s) \<longrightarrow> (session_step answers fails)\<^sup>*\<^sup>* s t \<longrightarrow>
          (ss_driver t \<noteq> Ended \<longrightarrow> (\<exists>u. driver_step answers fails t u))
          \<and> driver_rank (ss_driver t) \<le> driver_rank (ss_driver s)
          \<and> (\<forall>u. driver_step answers fails t u \<longrightarrow>
               driver_rank (ss_driver u) < driver_rank (ss_driver t)))"
proof (intro conjI impI allI)
  have ok: "session_ok answers s"
    using session_reach_ok [OF reached] .
  show "fst (acknowledge (ss_slot s)) \<noteq> Inr None \<or> (\<exists>t. driver_step answers fails s t)
      \<or> ss_driver s = Serving kind \<and> (\<forall>reply. \<not> answers kind reply)" if "ss_operation s = Waiting kind"
    using driver_moves [of s answers fails] waiting_moves [OF ok that] by metis
  assume revoked: "\<not> sl_admitting (ss_slot s)" and run: "(session_step answers fails)\<^sup>*\<^sup>* s t"
  note later = revoked_run [OF run revoked]
  then have closed: "\<not> slot_open (ss_slot t)"
    by (simp add: slot_open_def)
  show "\<exists>u. driver_step answers fails t u" if "ss_driver t \<noteq> Ended"
    using driver_moves [OF that] later closed_moves [OF closed] by simp
  show "driver_rank (ss_driver t) \<le> driver_rank (ss_driver s)"
    using later by simp
  show "driver_rank (ss_driver u) < driver_rank (ss_driver t)" if "driver_step answers fails t u" for u
    using closed_driver_falls [OF that closed] .
qed

text \<open>A transport that never answers, and a coordinator that revokes while the driver waits for it.\<close>

theorem session_never_stuck_witness:
  "let s = demo_session False Accepted (Waiting Discard) (Serving Discard) []
   in session_reach (\<lambda>_ _. False) Not s \<and> \<not> sl_admitting (ss_slot s)
      \<and> (\<exists>u. driver_step (\<lambda>_ _. False) Not s u \<and> driver_rank (ss_driver u) < 6)"
proof -
  let ?s = "demo_session False Accepted (Waiting Discard) (Serving Discard) []"
  have "session_step (\<lambda>_ _. False) Not (demo_session True Accepted (Waiting Discard) (Serving Discard) []) ?s"
    using handle_step.revokes [of "demo_session True Accepted (Waiting Discard) (Serving Discard) []"]
    by (simp add: session_step_def slot_defs)
  then have reached: "session_reach (\<lambda>_ _. False) Not ?s"
    using demo_session_accepted by (meson rtranclp.rtrancl_into_rtrancl)
  have "(\<exists>u. driver_step (\<lambda>_ _. False) Not ?s u)
      \<and> (\<forall>u. driver_step (\<lambda>_ _. False) Not ?s u \<longrightarrow> driver_rank (ss_driver u) < 6)"
    using session_never_stuck [OF reached, of Discard ?s] by simp
  with reached show ?thesis
    by (simp add: Let_def) blast
qed

end
