(* ===== verification/Proxy_Forwarding.thy ===== *)
theory Proxy_Forwarding
  imports Rejection Request_Text Multipart_Grammar Http_Method
begin

text \<open>
  What the proxy sends to a backend and what it hands back, from \<open>http/async_proxy.rs\<close>: the target
  is the backend and the path of the peer without the prefix of the route, unless the path climbs;
  the headers are those of the peer that may cross a hop, then what the proxy itself knows about
  the peer. The request builder of the client library is the record of the calls made on it. What
  that library accepts as a method, and whether a client could be built, are arguments; the
  address of a peer is its text.
\<close>

section \<open>Headers\<close>

abbreviation named :: "string \<Rightarrow> string \<Rightarrow> bool" where
  "named name reserved \<equiv> eq_ignore_ascii_case name reserved"

definition is_hop_by_hop :: "string \<Rightarrow> bool" where
  "is_hop_by_hop name \<longleftrightarrow>
     named name ''connection'' \<or> named name ''keep-alive'' \<or> named name ''proxy-authenticate''
     \<or> named name ''proxy-authorization'' \<or> named name ''proxy-connection'' \<or> named name ''te''
     \<or> named name ''trailer'' \<or> named name ''transfer-encoding'' \<or> named name ''upgrade''
     \<or> named name ''host''"

datatype header_value_ref = HeaderText string | HeaderBytes string

abbreviation value_as_bytes :: "header_value_ref \<Rightarrow> string" where
  "value_as_bytes val \<equiv> (case val of HeaderText text \<Rightarrow> text | HeaderBytes bytes \<Rightarrow> bytes)"

fun value_as_str :: "header_value_ref \<Rightarrow> string" where
  "value_as_str (HeaderText text) = text"
| "value_as_str (HeaderBytes bytes) = (if utf8_valid bytes then bytes else [])"

type_synonym forwarded_header = "string \<times> header_value_ref"

text \<open>\<open><[u8]>::trim_ascii\<close>.\<close>

definition ascii_space :: "char \<Rightarrow> bool" where
  "ascii_space c \<longleftrightarrow> c \<in> {CHR '' '', CHR 0x09, CHR 0x0A, CHR 0x0C, CHR 0x0D}"

definition trim_ascii :: "string \<Rightarrow> string" where
  "trim_ascii s = rev (dropWhile ascii_space (rev (dropWhile ascii_space s)))"

definition connection_tokens :: "(string \<times> string) list \<Rightarrow> string list" where
  "connection_tokens headers =
     filter is_token (map trim_ascii
       (concat (map (\<lambda>(name, val). str_split (CHR '','') val)
          (filter (\<lambda>(name, val). named name ''connection'') headers))))"

definition is_connection_named :: "string \<Rightarrow> string list \<Rightarrow> bool" where
  "is_connection_named name tokens \<longleftrightarrow> list_ex (\<lambda>token. eq_ignore_ascii_case token name) tokens"

abbreviation forwarded_prefix :: string where
  "forwarded_prefix \<equiv> ''x-forwarded-''"

text \<open>
  The slice exists when it ends at a character; where it does not, its last byte is not ASCII and
  it equals no prefix.
\<close>

abbreviation has_name_prefix :: "string \<Rightarrow> string \<Rightarrow> bool" where
  "has_name_prefix name pre \<equiv>
     length pre \<le> length name \<and> eq_ignore_ascii_case (take (length pre) name) pre"

definition is_forwarded_metadata :: "string \<Rightarrow> bool" where
  "is_forwarded_metadata name \<longleftrightarrow>
     has_name_prefix name forwarded_prefix \<or> named name ''x-real-ip'' \<or> named name ''forwarded''"

section \<open>Targets\<close>

datatype cow = Borrowed string | Owned string

fun cow_str :: "cow \<Rightarrow> string" where
  "cow_str (Borrowed s) = s"
| "cow_str (Owned s) = s"

text \<open>The UTF-8 form of a byte read as a character.\<close>

definition push_byte :: "char \<Rightarrow> string" where
  "push_byte c =
     (let n = of_char c :: nat in if n < 128 then [c] else [char_of (192 + n div 64), char_of (128 + n mod 64)])"

function decode_escapes :: "string \<Rightarrow> string" where
  "decode_escapes bytes =
     (if bytes = [] then []
      else case (if hd bytes = CHR ''%'' \<and> 2 < length bytes
                 then decode_hex_pair (bytes ! 1) (bytes ! 2) else None) of
             Some ch \<Rightarrow> push_byte ch @ decode_escapes (drop 3 bytes)
           | None \<Rightarrow> push_byte (hd bytes) @ decode_escapes (drop 1 bytes))"
  by pat_completeness auto
termination
  by (relation "measure length") auto

declare decode_escapes.simps [simp del]

definition percent_decode_once :: "string \<Rightarrow> cow" where
  "percent_decode_once input =
     (if CHR ''%'' \<in> set input then Owned (decode_escapes input) else Borrowed input)"

definition percent_decode_segment :: "string \<Rightarrow> cow" where
  "percent_decode_segment input =
     (case percent_decode_once input of
        Borrowed s \<Rightarrow> Borrowed s
      | Owned s \<Rightarrow> Owned (cow_str (percent_decode_once s)))"

definition is_dot_dot :: "string \<Rightarrow> bool" where
  "is_dot_dot segment \<longleftrightarrow> cow_str (percent_decode_segment segment) = ''..''"

definition strip_route_prefix :: "string \<Rightarrow> string \<Rightarrow> string option" where
  "strip_route_prefix path_and_query pre =
     (let (path, query) = (case split_once (CHR ''?'') path_and_query of
            Some (p, q) \<Rightarrow> (p, Some q)
          | None \<Rightarrow> (path_and_query, None));
          remainder = (case strip_prefix pre path of
            Some [] \<Rightarrow> ''/''
          | Some rest \<Rightarrow> rest
          | None \<Rightarrow> path);
          has_traversal = list_ex is_dot_dot (str_split (CHR ''/'') remainder)
      in case (has_traversal, query) of
           (True, _) \<Rightarrow> None
         | (False, Some q) \<Rightarrow> Some (remainder @ ''?'' @ q)
         | (False, None) \<Rightarrow> Some remainder)"

abbreviation traversal_segment :: string where
  "traversal_segment \<equiv> ''the request path contains a traversal segment''"

definition target_url :: "string \<Rightarrow> string \<Rightarrow> string \<Rightarrow> proxy_failure + string" where
  "target_url backend pre path_and_query =
     (case strip_route_prefix path_and_query pre of
        Some remainder \<Rightarrow> Inr (backend @ remainder)
      | None \<Rightarrow> Inl (UnbuildableTarget traversal_segment))"

section \<open>Requests to the backend\<close>

record 'b outbound =
  ob_method :: string
  ob_url :: string
  ob_headers :: "(string \<times> string) list"
  ob_body :: "'b option"

abbreviation outbound_header :: "string \<Rightarrow> string \<Rightarrow> 'b outbound \<Rightarrow> 'b outbound" where
  "outbound_header name val builder \<equiv> builder\<lparr>ob_headers := ob_headers builder @ [(name, val)]\<rparr>"

record proxy_request =
  pr_method :: request_method
  pr_path :: string
  pr_headers :: "(string \<times> string) list"
  pr_body :: string
  pr_remote_addr :: "string option"
  pr_scheme :: string

record incoming_proxy_parts =
  pp_method :: http_method
  pp_path_and_query :: string
  pp_headers :: "(string \<times> string) list"
  pp_remote_addr :: "string option"
  pp_scheme :: string

text \<open>Whether the client of the upstream could be built, or why not.\<close>

record proxy_target =
  pt_backend :: string
  pt_prefix :: string
  pt_client :: "string option"

abbreviation collected_headers :: "proxy_request \<Rightarrow> forwarded_header list" where
  "collected_headers req \<equiv> map (\<lambda>(name, val). (name, HeaderText val)) (pr_headers req)"

abbreviation mapped_headers :: "(string \<times> string) list \<Rightarrow> forwarded_header list" where
  "mapped_headers headers \<equiv> map (\<lambda>(name, val). (name, HeaderBytes val)) headers"

abbreviation connection_header_tokens :: "forwarded_header list \<Rightarrow> string list" where
  "connection_header_tokens headers \<equiv> connection_tokens (map (\<lambda>(name, val). (name, value_as_bytes val)) headers)"

definition to_reqwest_method :: "(string \<Rightarrow> string + string) \<Rightarrow> request_method \<Rightarrow> runtime_error + string" where
  "to_reqwest_method from_bytes verb =
     (case verb of
        Known known \<Rightarrow> Inr (method_as_str known)
      | Unnameable text \<Rightarrow>
          (case from_bytes text of
             Inr parsed \<Rightarrow> Inr parsed
           | Inl error \<Rightarrow> Inl (Http (''unforwardable method: '' @ error))))"

fun filter_request_headers ::
  "'b outbound \<Rightarrow> string option \<Rightarrow> forwarded_header list \<Rightarrow> string list \<Rightarrow> 'b outbound \<times> string option"
where
  "filter_request_headers builder original_host [] tokens = (builder, original_host)"
| "filter_request_headers builder original_host ((name, ref) # headers) tokens =
     (if named name ''host'' then filter_request_headers builder (Some (value_as_str ref)) headers tokens
      else if is_hop_by_hop name \<or> is_forwarded_metadata name \<or> is_connection_named name tokens
      then filter_request_headers builder original_host headers tokens
      else filter_request_headers (outbound_header name (value_as_str ref) builder) original_host headers tokens)"

abbreviation max_ip_text_len :: nat where
  "max_ip_text_len \<equiv> 45"

definition attach_peer_address :: "string \<Rightarrow> 'b outbound \<Rightarrow> 'b outbound" where
  "attach_peer_address addr builder =
     (if length addr \<le> max_ip_text_len
      then outbound_header ''x-real-ip'' addr (outbound_header ''x-forwarded-for'' addr builder)
      else builder)"

definition attach_forwarding_metadata ::
  "string option \<Rightarrow> string option \<Rightarrow> string \<Rightarrow> 'b outbound \<Rightarrow> 'b outbound"
where
  "attach_forwarding_metadata original_host remote_addr scheme builder =
     (let hosted = (case original_host of
            Some host \<Rightarrow> outbound_header ''x-forwarded-host'' host builder
          | None \<Rightarrow> builder);
          schemed = outbound_header ''x-forwarded-proto'' scheme hosted
      in case remote_addr of
           Some addr \<Rightarrow> attach_peer_address addr schemed
         | None \<Rightarrow> schemed)"

definition forward_headers ::
  "'b outbound \<Rightarrow> forwarded_header list \<Rightarrow> string option \<Rightarrow> string \<Rightarrow> 'b outbound"
where
  "forward_headers builder headers remote_addr scheme =
     (let tokens = connection_header_tokens headers;
          (filtered, original_host) = filter_request_headers builder None headers tokens
      in attach_forwarding_metadata original_host remote_addr scheme filtered)"

definition upstream_builder :: "string \<Rightarrow> string \<Rightarrow> proxy_target \<Rightarrow> proxy_failure + 'b outbound" where
  "upstream_builder verb path_and_query target =
     (case target_url (pt_backend target) (pt_prefix target) path_and_query of
        Inl failure \<Rightarrow> Inl failure
      | Inr url \<Rightarrow>
          (case pt_client target of
             Some error \<Rightarrow> Inl (Unsendable (ErrorDiagnostic (Http error)))
           | None \<Rightarrow> Inr \<lparr>ob_method = verb, ob_url = url, ob_headers = [], ob_body = None\<rparr>))"

definition build_upstream_request ::
  "(string \<Rightarrow> string + string) \<Rightarrow> proxy_request \<Rightarrow> proxy_target \<Rightarrow> proxy_failure + string outbound"
where
  "build_upstream_request from_bytes req target =
     (case to_reqwest_method from_bytes (pr_method req) of
        Inl error \<Rightarrow> Inl (Unsendable (ErrorDiagnostic error))
      | Inr verb \<Rightarrow>
          (case upstream_builder verb (pr_path req) target of
             Inl failure \<Rightarrow> Inl failure
           | Inr builder \<Rightarrow>
               Inr ((forward_headers builder (collected_headers req) (pr_remote_addr req) (pr_scheme req))
                 \<lparr>ob_body := Some (pr_body req)\<rparr>)))"

definition build_upstream_request_streaming ::
  "incoming_proxy_parts \<Rightarrow> 'b \<Rightarrow> proxy_target \<Rightarrow> proxy_failure + 'b outbound"
where
  "build_upstream_request_streaming parts upload target =
     (case upstream_builder (method_as_str (pp_method parts)) (pp_path_and_query parts) target of
        Inl failure \<Rightarrow> Inl failure
      | Inr builder \<Rightarrow>
          Inr ((forward_headers builder (mapped_headers (pp_headers parts)) (pp_remote_addr parts) (pp_scheme parts))
            \<lparr>ob_body := Some upload\<rparr>))"

definition collect_response_headers :: "(string \<times> string) list \<Rightarrow> (string \<times> string) list" where
  "collect_response_headers headers =
     (let tokens = connection_header_tokens (mapped_headers headers)
      in map (\<lambda>(name, ref). (name, value_as_str ref))
           (filter (\<lambda>(name, ref). \<not> is_hop_by_hop name \<and> \<not> is_connection_named name tokens)
             (mapped_headers headers)))"

section \<open>Every reading of a dot-dot segment is refused\<close>

lemma is_dot_dot_iff:
  "is_dot_dot segment \<longleftrightarrow>
     (let once = cow_str (percent_decode_once segment); twice = cow_str (percent_decode_once once)
      in ''..'' \<in> {segment, once, twice})"
proof (cases "CHR ''%'' \<in> set segment")
  case True
  then have "segment \<noteq> ''..''"
    by auto
  moreover have "cow_str (percent_decode_once ''..'') = ''..''"
    by (simp add: percent_decode_once_def)
  ultimately show ?thesis
    using True unfolding is_dot_dot_def percent_decode_segment_def Let_def
    by (auto simp: percent_decode_once_def [of segment])
qed (auto simp: is_dot_dot_def percent_decode_segment_def percent_decode_once_def)

text \<open>The path and the query of a request target, the query with its question mark.\<close>

definition target_path :: "string \<Rightarrow> string" where
  "target_path target = takeWhile (\<lambda>c. c \<noteq> CHR ''?'') target"

definition target_query :: "string \<Rightarrow> string" where
  "target_query target = dropWhile (\<lambda>c. c \<noteq> CHR ''?'') target"

text \<open>The path a route with this prefix forwards.\<close>

definition forwarded_path :: "string \<Rightarrow> string \<Rightarrow> string" where
  "forwarded_path pre target =
     (if target_path target = pre then ''/''
      else if take (length pre) (target_path target) = pre then drop (length pre) (target_path target)
      else target_path target)"

lemma split_once_target:
  "(case split_once (CHR ''?'') target of Some (p, q) \<Rightarrow> (p, Some q) | None \<Rightarrow> (target, None))
     = (target_path target, case target_query target of [] \<Rightarrow> None | c # q \<Rightarrow> Some q)"
  by (induction target) (auto simp: target_path_def target_query_def split: option.splits prod.splits if_splits)

lemma strip_prefix_forwarded:
  "(case strip_prefix pre (target_path target) of Some [] \<Rightarrow> ''/'' | Some rest \<Rightarrow> rest | None \<Rightarrow> target_path target)
     = forwarded_path pre target"
proof (cases "strip_prefix pre (target_path target)")
  case None
  then have "target_path target \<noteq> pre @ r" for r
    using strip_prefix_Some [of pre "target_path target" r] by auto
  then have "take (length pre) (target_path target) \<noteq> pre"
    by (metis append_take_drop_id)
  with None show ?thesis
    by (auto simp: forwarded_path_def)
next
  case (Some r)
  then have "target_path target = pre @ r"
    by (simp add: strip_prefix_Some)
  with Some show ?thesis
    by (auto simp: forwarded_path_def split: list.split)
qed

lemma query_question: "target_query target = [] \<or> (\<exists>q. target_query target = CHR ''?'' # q)"
  unfolding target_query_def by (induction target) auto

lemma strip_route_prefix_eq:
  "strip_route_prefix target pre =
     (if list_ex is_dot_dot (str_split (CHR ''/'') (forwarded_path pre target)) then None
      else Some (forwarded_path pre target @ target_query target))"
  unfolding strip_route_prefix_def split_once_target
  using query_question [of target]
  by (auto simp: Let_def strip_prefix_forwarded split: bool.splits)

section \<open>What crosses the hop\<close>

text \<open>A name that a Connection header of the set delegates to this hop.\<close>

definition delegated :: "string \<Rightarrow> forwarded_header list \<Rightarrow> bool" where
  "delegated name headers \<longleftrightarrow>
     (\<exists>(field, val) \<in> set headers. eq_ignore_ascii_case field ''connection'' \<and>
        (\<exists>item \<in> set (str_split (CHR '','') (value_as_bytes val)).
           is_token (trim_ascii item) \<and> eq_ignore_ascii_case (trim_ascii item) name))"

lemma connection_named_iff: "is_connection_named name (connection_header_tokens headers) \<longleftrightarrow> delegated name headers"
  by (force simp: is_connection_named_def connection_tokens_def delegated_def list_ex_iff)

abbreviation crosses :: "string \<Rightarrow> forwarded_header list \<Rightarrow> bool" where
  "crosses name headers \<equiv>
     \<not> is_hop_by_hop name \<and> \<not> is_forwarded_metadata name \<and> \<not> delegated name headers"

abbreviation header_texts :: "forwarded_header list \<Rightarrow> (string \<times> string) list" where
  "header_texts headers \<equiv> map (\<lambda>(name, ref). (name, value_as_str ref)) headers"

definition last_host :: "forwarded_header list \<Rightarrow> string option" where
  "last_host headers =
     (case rev (filter (\<lambda>(name, ref). eq_ignore_ascii_case name ''host'') headers) of
        [] \<Rightarrow> None
      | (name, ref) # _ \<Rightarrow> Some (value_as_str ref))"

text \<open>What the proxy says about the peer.\<close>

definition own_metadata :: "string option \<Rightarrow> string option \<Rightarrow> string \<Rightarrow> (string \<times> string) list" where
  "own_metadata host remote_addr scheme =
     (case host of Some h \<Rightarrow> [(''x-forwarded-host'', h)] | None \<Rightarrow> [])
     @ [(''x-forwarded-proto'', scheme)]
     @ (case remote_addr of
          Some addr \<Rightarrow> if length addr \<le> max_ip_text_len
            then [(''x-forwarded-for'', addr), (''x-real-ip'', addr)] else []
        | None \<Rightarrow> [])"

lemma attach_forwarding_eq:
  "attach_forwarding_metadata host remote_addr scheme builder
     = builder\<lparr>ob_headers := ob_headers builder @ own_metadata host remote_addr scheme\<rparr>"
  by (auto simp: attach_forwarding_metadata_def attach_peer_address_def own_metadata_def split: option.split)

lemma filter_request_headers_eq:
  "filter_request_headers builder host headers tokens =
     (builder\<lparr>ob_headers := ob_headers builder @ header_texts (filter (\<lambda>(name, ref). \<not> is_hop_by_hop name
        \<and> \<not> is_forwarded_metadata name \<and> \<not> is_connection_named name tokens) headers)\<rparr>,
      case last_host headers of None \<Rightarrow> host | found \<Rightarrow> found)"
proof (induction builder host headers tokens rule: filter_request_headers.induct)
  case (2 builder host name ref headers tokens)
  then show ?case
    by (auto simp: last_host_def is_hop_by_hop_def split: list.splits)
qed (simp add: last_host_def)

lemma forward_headers_eq:
  "forward_headers builder headers remote_addr scheme =
     builder\<lparr>ob_headers := ob_headers builder @ header_texts (filter (\<lambda>(name, ref). crosses name headers) headers)
       @ own_metadata (last_host headers) remote_addr scheme\<rparr>"
  by (simp add: forward_headers_def filter_request_headers_eq attach_forwarding_eq connection_named_iff split: option.split)

text \<open>A path some segment of which is dot-dot as it is spelled, decoded, or decoded twice.\<close>

definition climbs :: "string \<Rightarrow> bool" where
  "climbs path \<longleftrightarrow>
     list_ex (\<lambda>segment. let once = cow_str (percent_decode_once segment); twice = cow_str (percent_decode_once once)
        in ''..'' \<in> {segment, once, twice}) (str_split (CHR ''/'') path)"

text \<open>The spellings the code names are all refused; a path with an encoded slash has one segment.\<close>

lemma climbs_spellings:
  "list_all climbs [''/..'', ''/a/%2e%2e/b'', ''/%2e.'', ''/.%2E'', ''/%252e%252e'']"
  "\<not> climbs ''/..%2f..''"
  by code_simp+

lemma target_url_eq:
  "target_url backend pre target =
     (if climbs (forwarded_path pre target) then Inl (UnbuildableTarget traversal_segment)
      else Inr (backend @ forwarded_path pre target @ target_query target))"
  unfolding target_url_def strip_route_prefix_eq climbs_def is_dot_dot_iff [symmetric] by simp

text \<open>
  What may be sent for a request: a target below the backend, and headers none of which is for one
  hop only; what they say about the peer, and any name a Connection header delegates, is the
  proxy's own.
\<close>

definition outbound_safe ::
  "proxy_target \<Rightarrow> string \<Rightarrow> forwarded_header list \<Rightarrow> string option \<Rightarrow> string \<Rightarrow> 'b outbound \<Rightarrow> bool"
where
  "outbound_safe target path_and_query headers remote_addr scheme sent \<longleftrightarrow>
     (let path = forwarded_path (pt_prefix target) path_and_query;
          own = own_metadata (last_host headers) remote_addr scheme
      in ob_url sent = pt_backend target @ path @ target_query path_and_query
         \<and> \<not> climbs path
         \<and> list_all (\<lambda>(name, val). \<not> is_hop_by_hop name
              \<and> (is_forwarded_metadata name \<or> delegated name headers \<longrightarrow> (name, val) \<in> set own)) (ob_headers sent)
         \<and> ob_headers sent = header_texts (filter (\<lambda>(name, ref). crosses name headers) headers) @ own)"

lemma own_not_hop_by_hop: "(name, val) \<in> set (own_metadata host remote_addr scheme) \<Longrightarrow> \<not> is_hop_by_hop name"
proof -
  have "\<not> is_hop_by_hop ''x-forwarded-host''" "\<not> is_hop_by_hop ''x-forwarded-proto''"
    "\<not> is_hop_by_hop ''x-forwarded-for''" "\<not> is_hop_by_hop ''x-real-ip''"
    by code_simp+
  then show "(name, val) \<in> set (own_metadata host remote_addr scheme) \<Longrightarrow> \<not> is_hop_by_hop name"
    by (auto simp: own_metadata_def split: option.splits if_splits)
qed

lemma upstream_builder_safe:
  "case upstream_builder verb path_and_query target of
     Inr builder \<Rightarrow> outbound_safe target path_and_query headers remote_addr scheme
       ((forward_headers builder headers remote_addr scheme)\<lparr>ob_body := body\<rparr>)
   | Inl failure \<Rightarrow> climbs (forwarded_path (pt_prefix target) path_and_query)
         \<and> failure = UnbuildableTarget traversal_segment
       \<or> (\<exists>reason. failure = Unsendable reason)"
  by (auto simp: upstream_builder_def target_url_eq outbound_safe_def forward_headers_eq Let_def list_all_iff
      dest: own_not_hop_by_hop split: option.split)

text \<open>C26: What the proxy sends, with a buffered or a streaming body, is safe. The URL is the backend, the
  path of the peer without the prefix of the route, and its query; no segment of that path is
  dot-dot, neither as spelled nor percent-decoded once or twice, and a path with such a segment is
  refused before anything is sent. No header of one hop is sent, in any spelling, and none that a
  Connection header of the peer names. Whatever the peer sent as forwarding metadata stays behind:
  all such headers are the proxy's own. Every other header is sent, in its order.\<close>

theorem proxied_request_safe:
  "(case build_upstream_request from_bytes req target of
      Inr sent \<Rightarrow> outbound_safe target (pr_path req) (collected_headers req) (pr_remote_addr req) (pr_scheme req) sent
    | Inl failure \<Rightarrow> climbs (forwarded_path (pt_prefix target) (pr_path req))
          \<and> failure = UnbuildableTarget traversal_segment
        \<or> (\<exists>reason. failure = Unsendable reason))
   \<and> (case build_upstream_request_streaming parts upload target of
      Inr sent \<Rightarrow> outbound_safe target (pp_path_and_query parts) (mapped_headers (pp_headers parts))
        (pp_remote_addr parts) (pp_scheme parts) sent
    | Inl failure \<Rightarrow> climbs (forwarded_path (pt_prefix target) (pp_path_and_query parts))
          \<and> failure = UnbuildableTarget traversal_segment
        \<or> (\<exists>reason. failure = Unsendable reason))"
proof
  let ?built = "\<lambda>verb. upstream_builder verb (pr_path req) target :: proxy_failure + string outbound"
  show "case build_upstream_request from_bytes req target of
      Inr sent \<Rightarrow> outbound_safe target (pr_path req) (collected_headers req) (pr_remote_addr req) (pr_scheme req) sent
    | Inl failure \<Rightarrow> climbs (forwarded_path (pt_prefix target) (pr_path req))
          \<and> failure = UnbuildableTarget traversal_segment
        \<or> (\<exists>reason. failure = Unsendable reason)"
  proof (cases "to_reqwest_method from_bytes (pr_method req)")
    case (Inr verb)
    then show ?thesis
      using upstream_builder_safe [of target "pr_path req" "collected_headers req" "pr_remote_addr req"
          "pr_scheme req" "Some (pr_body req)" verb]
      by (cases "?built verb") (simp_all add: build_upstream_request_def)
  qed (simp add: build_upstream_request_def)
next
  let ?built = "upstream_builder (method_as_str (pp_method parts)) (pp_path_and_query parts) target
    :: proxy_failure + 'a outbound"
  show "case build_upstream_request_streaming parts upload target of
      Inr sent \<Rightarrow> outbound_safe target (pp_path_and_query parts) (mapped_headers (pp_headers parts))
        (pp_remote_addr parts) (pp_scheme parts) sent
    | Inl failure \<Rightarrow> climbs (forwarded_path (pt_prefix target) (pp_path_and_query parts))
          \<and> failure = UnbuildableTarget traversal_segment
        \<or> (\<exists>reason. failure = Unsendable reason)"
    using upstream_builder_safe [of target "pp_path_and_query parts" "mapped_headers (pp_headers parts)"
        "pp_remote_addr parts" "pp_scheme parts" "Some upload" "method_as_str (pp_method parts)"]
    by (cases ?built) (simp_all add: build_upstream_request_streaming_def)
qed

text \<open>
  The answer of the backend crosses the hop the same way, except that what it says about
  forwarding is its own.
\<close>

lemma response_headers_cross:
  "collect_response_headers headers = header_texts (filter (\<lambda>(name, ref). \<not> is_hop_by_hop name
     \<and> \<not> delegated name (mapped_headers headers)) (mapped_headers headers))"
  unfolding collect_response_headers_def Let_def connection_named_iff ..

end
