(* ===== verification/Rejection_Scope.thy ===== *)
theory Rejection_Scope
  imports Http_Response
begin

text \<open>
  How a request's rejection scope answers, from \<open>http/rejection.rs\<close>: the identity a request
  accumulates, the application's mapper, the protocol obligations a mapped response must meet,
  and the finalisation that puts a response on the wire. A mapper is a function that returns a
  response, returns an error, or panics. Everything the code logs is returned as a list of
  events, so that \<open>every refusal is reported exactly once\<close> is a statement about values.
\<close>

section \<open>Identity\<close>

datatype http_version = HTTP_09 | HTTP_10 | HTTP_11 | HTTP_2 | HTTP_3

record request_identity =
  ri_request_id :: string
  ri_method :: request_method
  ri_path :: string
  ri_remote_addr :: "ip_addr option"
  ri_version :: http_version
  ri_route :: "string option"
  ri_protocol :: "rejection_protocol option"
  ri_content_type :: "string option"
  ri_subprotocol :: "string option"

definition identity_admitted ::
  "string \<Rightarrow> request_method \<Rightarrow> string \<Rightarrow> ip_addr option \<Rightarrow> http_version \<Rightarrow> request_identity"
where
  "identity_admitted rid meth path addr version =
     \<lparr>ri_request_id = rid, ri_method = meth, ri_path = path, ri_remote_addr = addr,
      ri_version = version, ri_route = None, ri_protocol = None, ri_content_type = None,
      ri_subprotocol = None\<rparr>"

abbreviation identity_protocol_label :: "request_identity \<Rightarrow> string" where
  "identity_protocol_label i \<equiv>
     (case ri_protocol i of Some p \<Rightarrow> protocol_label p | None \<Rightarrow> unclassified_protocol)"

abbreviation method_is_head :: "http_method \<Rightarrow> bool" where
  "method_is_head m \<equiv> m = Head"

abbreviation identity_is_head :: "request_identity \<Rightarrow> bool" where
  "identity_is_head i \<equiv>
     (case routable (ri_method i) of None \<Rightarrow> False | Some m \<Rightarrow> method_is_head m)"

definition identity_negotiated :: "request_identity \<Rightarrow> rejection_protocol \<Rightarrow> negotiated_metadata" where
  "identity_negotiated i protocol =
     (negotiated_new protocol)\<lparr>nm_content_type := ri_content_type i, nm_subprotocol := ri_subprotocol i\<rparr>"

definition materialize :: "request_identity \<Rightarrow> rejection_context" where
  "materialize i =
     (context_new (ri_request_id i) (request_method_as_str (ri_method i)) (ri_path i))
       \<lparr>rc_remote_addr := ri_remote_addr i, rc_route := ri_route i,
        rc_negotiated := map_option (identity_negotiated i) (ri_protocol i)\<rparr>"

section \<open>Scopes\<close>

datatype mapper_outcome =
    MapperResponse response
  | MapperError runtime_error
  | MapperPanic "string option"

type_synonym rejection_mapper = "rejection \<Rightarrow> rejection_context \<Rightarrow> mapper_outcome"

record rejection_scope =
  sc_mapper :: "rejection_mapper option"
  sc_identity :: request_identity

definition scope_new :: "rejection_mapper option \<Rightarrow> request_identity \<Rightarrow> rejection_scope" where
  "scope_new mapper identity = \<lparr>sc_mapper = mapper, sc_identity = identity\<rparr>"

definition scope_transitioned ::
  "(request_identity \<Rightarrow> request_identity) \<Rightarrow> rejection_scope \<Rightarrow> rejection_scope"
where
  "scope_transitioned f sc = sc\<lparr>sc_identity := f (sc_identity sc)\<rparr>"

definition scope_established :: "string \<Rightarrow> rejection_protocol \<Rightarrow> rejection_scope \<Rightarrow> rejection_scope" where
  "scope_established route protocol sc =
     scope_transitioned (\<lambda>i. i\<lparr>ri_route := Some route, ri_protocol := Some protocol\<rparr>) sc"

definition scope_reclassified :: "rejection_protocol \<Rightarrow> rejection_scope \<Rightarrow> rejection_scope" where
  "scope_reclassified protocol sc = scope_transitioned (\<lambda>i. i\<lparr>ri_protocol := Some protocol\<rparr>) sc"

abbreviation scope_negotiated_subprotocol :: "string \<Rightarrow> rejection_scope \<Rightarrow> rejection_scope" where
  "scope_negotiated_subprotocol subprotocol sc \<equiv>
     scope_transitioned (\<lambda>i. i\<lparr>ri_subprotocol := Some subprotocol\<rparr>) sc"

definition scope_after_head :: "string option \<Rightarrow> rejection_scope \<Rightarrow> rejection_scope" where
  "scope_after_head content_type sc =
     (case content_type of
        Some ct \<Rightarrow> scope_transitioned (\<lambda>i. i\<lparr>ri_content_type := Some ct\<rparr>) sc
      | None \<Rightarrow> sc)"

section \<open>What is logged\<close>

datatype delivery = Sent u16 | Discarded

fun sent_status :: "delivery \<Rightarrow> u16 option" where
  "sent_status (Sent status) = Some status"
| "sent_status Discarded = None"

fun unsent_status :: "delivery \<Rightarrow> u16 \<Rightarrow> u16 option" where
  "unsent_status (Sent _) _ = None"
| "unsent_status Discarded mapped = Some mapped"

fun delivery_condition :: "delivery \<Rightarrow> string" where
  "delivery_condition (Sent _) = ''request rejected''"
| "delivery_condition Discarded = ''rejection response was not sent''"

record emission =
  em_context :: rejection_context
  em_kind :: rejection_kind
  em_status :: "u16 option"
  em_mapped_status :: "u16 option"
  em_default_status :: u16
  em_cause :: diagnostic
  em_condition :: string

datatype rejection_event =
    Emitted emission
  | MapperFailed string rejection_kind runtime_error
  | MapperPanicked string rejection_kind "string option"
  | InformationalStatus string rejection_kind u16
  | MappedUnrepresentable string rejection_kind u16 u16
  | FallbackUnrepresentable string string

abbreviation refusal_kind :: "mapped_refusal \<Rightarrow> rejection_kind" where
  "refusal_kind m \<equiv> rj_kind (rd_rejection (mr_rejected m))"

definition refusal_emit :: "delivery \<Rightarrow> mapped_refusal \<Rightarrow> rejection_event" where
  "refusal_emit delivery m =
     Emitted
       \<lparr>em_context = mr_context m, em_kind = refusal_kind m, em_status = sent_status delivery,
        em_mapped_status = unsent_status delivery (mr_mapped_status m),
        em_default_status = rj_status (rd_rejection (mr_rejected m)),
        em_cause = rd_diagnostic (mr_rejected m), em_condition = delivery_condition delivery\<rparr>"

definition refusal_record :: "u16 \<Rightarrow> mapped_refusal \<Rightarrow> mapped_refusal \<times> rejection_event list" where
  "refusal_record status m = (m\<lparr>mr_recorded := True\<rparr>, [refusal_emit (Sent status) m])"

text \<open>Dropping a refusal that was never recorded reports that it was not sent.\<close>

definition refusal_drop :: "mapped_refusal \<Rightarrow> rejection_event list" where
  "refusal_drop m = (if mr_recorded m then [] else [refusal_emit Discarded m])"

definition provenance_drop :: "response_provenance \<Rightarrow> rejection_event list" where
  "provenance_drop p = (case into_refusal p of Some m \<Rightarrow> refusal_drop m | None \<Rightarrow> [])"

section \<open>Mapping a refusal to a response\<close>

abbreviation request_id_header :: string where "request_id_header \<equiv> ''X-Request-Id''"
abbreviation connection_header :: string where "connection_header \<equiv> ''Connection''"
abbreviation close_disposition :: string where "close_disposition \<equiv> ''close''"

abbreviation close_header :: header_pair where
  "close_header \<equiv> (connection_header, close_disposition)"

definition connection_specific_headers :: "string list" where
  "connection_specific_headers =
     [connection_header, ''Keep-Alive'', ''Proxy-Connection'', ''Transfer-Encoding'', ''Upgrade'']"

definition fallback_status :: u16 where "fallback_status = 500"

abbreviation with_request_id :: "string \<Rightarrow> response \<Rightarrow> response" where
  "with_request_id rid r \<equiv> with_pair request_id_header rid r"

definition fallback_response :: "string \<Rightarrow> response" where
  "fallback_response rid = with_request_id rid (build_text fallback_status internal_error_body)"

definition built_in_response :: "rejection \<Rightarrow> rejection_context \<Rightarrow> response" where
  "built_in_response rejection context =
     with_request_id (rc_request_id context)
       (fold (\<lambda>(name, val) r. with_pair name val r) (rj_headers rejection)
          (build_text (rj_status rejection) (rj_message rejection)))"

definition catch_mapper ::
  "rejection_mapper \<Rightarrow> rejection \<Rightarrow> rejection_context \<Rightarrow> response option \<times> rejection_event list"
where
  "catch_mapper mapper rejection context =
     (case mapper rejection context of
        MapperResponse r \<Rightarrow> (Some r, [])
      | MapperError e \<Rightarrow> (None, [MapperFailed (rc_request_id context) (rj_kind rejection) e])
      | MapperPanic p \<Rightarrow> (None, [MapperPanicked (rc_request_id context) (rj_kind rejection) p]))"

definition scope_invoke ::
  "rejection_scope \<Rightarrow> rejection \<Rightarrow> rejection_context \<Rightarrow> response option \<times> rejection_event list"
where
  "scope_invoke sc rejection context =
     (case sc_mapper sc of
        Some mapper \<Rightarrow> catch_mapper mapper rejection context
      | None \<Rightarrow> (Some (built_in_response rejection context), []))"

text \<open>An informational answer is discarded, and with it whatever refusal it carried.\<close>

definition without_informational_status ::
  "response \<Rightarrow> rejection \<Rightarrow> rejection_context \<Rightarrow> response option \<times> rejection_event list"
where
  "without_informational_status r rejection context =
     (if rs_status r < 200
      then (None, InformationalStatus (rc_request_id context) (rj_kind rejection) (rs_status r)
                    # provenance_drop (rs_provenance r))
      else (Some r, []))"

abbreviation closes_transport :: "rejection_scope \<Rightarrow> bool" where
  "closes_transport sc \<equiv> ri_version (sc_identity sc) \<noteq> HTTP_2"

definition enforce_disposition :: "rejection_scope \<Rightarrow> response \<Rightarrow> disposition \<Rightarrow> response" where
  "enforce_disposition sc r disposition =
     (if \<not> closes_transport sc then without_headers connection_specific_headers r
      else case disposition of
             CloseTransport \<Rightarrow> with_replaced_header connection_header close_disposition r
           | Reusable \<Rightarrow> r)"

definition enforce_protocol ::
  "rejection_scope \<Rightarrow> response \<Rightarrow> protected_header option \<Rightarrow> disposition \<Rightarrow> response"
where
  "enforce_protocol sc r protected disposition =
     enforce_disposition sc
       (case protected of
          Some header \<Rightarrow>
            if ph_status header = rs_status r
            then with_replaced_header (ph_name header) (ph_value header) r else r
        | None \<Rightarrow> r)
       disposition"

abbreviation scope_closing :: "rejection_scope \<Rightarrow> response \<Rightarrow> response" where
  "scope_closing sc r \<equiv> enforce_disposition sc r CloseTransport"

definition mapped_refusal_new :: "rejected \<Rightarrow> rejection_context \<Rightarrow> u16 \<Rightarrow> mapped_refusal" where
  "mapped_refusal_new rejected context status =
     \<lparr>mr_rejected = rejected, mr_context = context, mr_mapped_status = status, mr_recorded = False\<rparr>"

definition scope_answer ::
  "rejection_scope \<Rightarrow> rejection \<Rightarrow> rejection_context \<Rightarrow> response \<times> rejection_event list"
where
  "scope_answer sc rejection context =
     (case scope_invoke sc rejection context of
        (None, ev) \<Rightarrow> (fallback_response (rc_request_id context), ev)
      | (Some r, ev) \<Rightarrow>
          (case without_informational_status r rejection context of
             (Some r', ev') \<Rightarrow> (r', ev @ ev')
           | (None, ev') \<Rightarrow> (fallback_response (rc_request_id context), ev @ ev')))"

definition scope_map :: "rejection_scope \<Rightarrow> rejected \<Rightarrow> response \<times> rejection_event list" where
  "scope_map sc rejected =
     (let context = materialize (sc_identity sc);
          (answered, ev) = scope_answer sc (rd_rejection rejected) context;
          final = enforce_protocol sc answered (rd_protected rejected) (rd_disposition rejected);
          refusal = mapped_refusal_new (rejected\<lparr>rd_protected := None\<rparr>) context (rs_status final)
      in (mark_mapped refusal final, ev @ provenance_drop (rs_provenance final)))"

definition scope_resolve ::
  "rejection_scope \<Rightarrow> runtime_error + response \<Rightarrow> producer_kinds \<Rightarrow> response \<times> rejection_event list"
where
  "scope_resolve sc outcome kinds =
     (case outcome of Inr r \<Rightarrow> (r, []) | Inl e \<Rightarrow> scope_map sc (classify e kinds))"

section \<open>Finalising a response\<close>

record finalized =
  fz_response :: wire_response
  fz_refused :: "rejection_kind option"

definition unnamed_fallback :: wire_response where
  "unnamed_fallback =
     \<lparr>wr_status = fallback_status, wr_headers = [], wr_body = internal_error_body\<rparr>"

definition fallback_hyper :: "http_lib \<Rightarrow> string \<Rightarrow> wire_response \<times> rejection_event list" where
  "fallback_hyper lib rid =
     (case snd (into_wire lib (fallback_response rid)) of
        Inr wire \<Rightarrow> (wire, [])
      | Inl refused \<Rightarrow> (unnamed_fallback, [FallbackUnrepresentable rid (ur_error refused)]))"

text \<open>The refusal is recorded, then dropped; a recorded one is silent when dropped.\<close>

definition sent_finalized ::
  "wire_response \<Rightarrow> response_provenance \<Rightarrow> finalized \<times> rejection_event list"
where
  "sent_finalized wire provenance =
     (case into_refusal provenance of
        None \<Rightarrow> (\<lparr>fz_response = wire, fz_refused = None\<rparr>, [])
      | Some m \<Rightarrow>
          let (m', ev) = refusal_record (wr_status wire) m
          in (\<lparr>fz_response = wire, fz_refused = Some (refusal_kind m')\<rparr>, ev @ refusal_drop m'))"

definition displace_mapped ::
  "http_lib \<Rightarrow> rejection_scope \<Rightarrow> mapped_refusal \<Rightarrow> finalized \<times> rejection_event list"
where
  "displace_mapped lib sc m =
     (let (m', ev) = refusal_record fallback_status m;
          rid = ri_request_id (sc_identity sc);
          (wire, ev') = fallback_hyper lib rid
      in (\<lparr>fz_response = wire, fz_refused = Some (refusal_kind m')\<rparr>,
          ev @ [MappedUnrepresentable rid (refusal_kind m') (mr_mapped_status m') fallback_status]
             @ ev' @ refusal_drop m'))"

definition scope_convert ::
  "http_lib \<Rightarrow> rejection_scope \<Rightarrow> response
   \<Rightarrow> response_provenance \<times> (unrepresentable_response + wire_response)"
where
  "scope_convert lib sc r =
     into_wire lib (if identity_is_head (sc_identity sc) then strip_body r else r)"

lemma scope_map_mapped [simp]: "is_mapped (rs_provenance (fst (scope_map sc rejected)))"
  by (simp add: scope_map_def Let_def split_def mark_mapped_def)

function scope_finalize ::
  "http_lib \<Rightarrow> rejection_scope \<Rightarrow> response \<Rightarrow> finalized \<times> rejection_event list"
where
  "scope_finalize lib sc r =
     (case scope_convert lib sc r of
        (provenance, Inr wire) \<Rightarrow> sent_finalized wire provenance
      | (provenance, Inl refused) \<Rightarrow>
          (case provenance of
             ProvMapped m \<Rightarrow> displace_mapped lib sc m
           | _ \<Rightarrow>
               let sc' = scope_after_head (ur_content_type refused) sc;
                   (mapped, ev) = scope_map sc' (rejected_unrepresentable (ur_error refused));
                   (fz, ev') = scope_finalize lib sc' mapped
               in (fz, ev @ ev')))"
  by pat_completeness auto
termination
proof (relation "measure (\<lambda>(lib, sc, r). if is_mapped (rs_provenance r) then 0 else 1)",
    goal_cases)
  case 1
  then show ?case by simp
qed (auto simp: scope_convert_def into_wire_def strip_body_def split: if_splits prod.splits
      dest!: arg_cong [where f = fst] simp flip: fst_conv,
    (metis fst_conv scope_map_mapped is_mapped.simps zero_less_one strip_body_def)+)

declare scope_finalize.simps [simp del]

section \<open>What a mapped response guarantees\<close>

lemma fallback_response_status [simp]: "rs_status (fallback_response rid) = 500"
  by (simp add: fallback_response_def build_text_def fallback_status_def)

lemma enforce_disposition_status [simp]: "rs_status (enforce_disposition sc r d) = rs_status r"
  by (cases d) (simp_all add: enforce_disposition_def)

lemma enforce_protocol_status [simp]: "rs_status (enforce_protocol sc r p d) = rs_status r"
  by (auto simp: enforce_protocol_def split: option.splits)

lemma scope_answer_status: "200 \<le> rs_status (fst (scope_answer sc rejection context))"
  by (auto simp: scope_answer_def without_informational_status_def split: option.splits prod.splits
      if_splits)

lemma scope_map_status: "200 \<le> rs_status (fst (scope_map sc rejected))"
  using scope_answer_status by (simp add: scope_map_def Let_def split_def)

text \<open>Replacing one header leaves the values under every other name as they were.\<close>

lemma header_values_replaced_other:
  "\<not> eq_ignore_ascii_case key name \<Longrightarrow>
     header_values name (with_replaced_header key val r) = header_values name r"
  by (auto simp: with_replaced_header_def with_pair_def without_header_def header_values_def
      eq_ignore_ascii_case_def intro!: arg_cong [where f = "map snd"] filter_cong)

lemma header_values_without_headers_other:
  "\<not> list_ex (eq_ignore_ascii_case name) names \<Longrightarrow>
     header_values name (without_headers names r) = header_values name r"
  by (auto simp: without_headers_def header_values_def list_ex_iff eq_ignore_ascii_case_def
      intro!: arg_cong [where f = "map snd"] filter_cong)

text \<open>A name that HTTP/2 forbids, or that the close disposition owns, is no response's obligation.\<close>

definition connection_specific :: "string \<Rightarrow> bool" where
  "connection_specific name \<longleftrightarrow> list_ex (eq_ignore_ascii_case name) connection_specific_headers"

lemma enforce_disposition_other:
  "\<not> connection_specific name \<Longrightarrow> header_values name (enforce_disposition sc r d) = header_values name r"
  by (auto simp: enforce_disposition_def connection_specific_def connection_specific_headers_def
      header_values_replaced_other header_values_without_headers_other eq_ignore_sym
      split: disposition.split)

lemma enforce_disposition_connection:
  "(\<not> closes_transport sc \<and> name \<in> set connection_specific_headers \<longrightarrow>
      header_values name (enforce_disposition sc r d) = []) \<and>
   (closes_transport sc \<longrightarrow>
      header_values connection_header (enforce_disposition sc r CloseTransport) = [close_disposition])"
  by (simp add: enforce_disposition_def)

lemma mark_mapped_headers [simp]: "header_values name (mark_mapped m r) = header_values name r"
  by (simp add: header_values_def mark_mapped_def)

text \<open>C16: Whatever the application's mapper does, be it returning an error, panicking or
  answering an informational status, a refusal is answered with a final status; over HTTP/2 the
  answer carries no connection-specific header; over other versions a refusal that must close the
  transport says so exactly once; and a header the status obliges, such as the frozen Allow set of
  a 405, is present exactly once with its value whenever the status is kept.\<close>

theorem mapped_response_obligations:
  "200 \<le> rs_status (fst (scope_map sc rejected))
   \<and> (\<not> closes_transport sc \<longrightarrow>
        (\<forall>name \<in> set connection_specific_headers. header_values name (fst (scope_map sc rejected)) = []))
   \<and> (closes_transport sc \<and> rd_disposition rejected = CloseTransport \<longrightarrow>
        header_values connection_header (fst (scope_map sc rejected)) = [close_disposition])
   \<and> (\<forall>h. rd_protected rejected = Some h \<and> ph_status h = rs_status (fst (scope_map sc rejected))
           \<and> \<not> connection_specific (ph_name h) \<longrightarrow>
        header_values (ph_name h) (fst (scope_map sc rejected)) = [ph_value h])"
proof (intro conjI)
  obtain answered ev where ans:
    "scope_answer sc (rd_rejection rejected) (materialize (sc_identity sc)) = (answered, ev)"
    by fastforce
  let ?enforced = "enforce_protocol sc answered (rd_protected rejected) (rd_disposition rejected)"
  have headers: "header_values name (fst (scope_map sc rejected)) = header_values name ?enforced" for name
    by (simp add: scope_map_def Let_def ans)
  have status: "rs_status (fst (scope_map sc rejected)) = rs_status answered"
    by (simp add: scope_map_def Let_def ans)
  show "200 \<le> rs_status (fst (scope_map sc rejected))"
    by (rule scope_map_status)
  show "\<not> closes_transport sc \<longrightarrow>
      (\<forall>name \<in> set connection_specific_headers. header_values name (fst (scope_map sc rejected)) = [])"
    unfolding headers enforce_protocol_def using enforce_disposition_connection by blast
  show "closes_transport sc \<and> rd_disposition rejected = CloseTransport \<longrightarrow>
      header_values connection_header (fst (scope_map sc rejected)) = [close_disposition]"
    unfolding headers enforce_protocol_def using enforce_disposition_connection by fastforce
  show "\<forall>h. rd_protected rejected = Some h \<and> ph_status h = rs_status (fst (scope_map sc rejected))
           \<and> \<not> connection_specific (ph_name h) \<longrightarrow>
        header_values (ph_name h) (fst (scope_map sc rejected)) = [ph_value h]"
    unfolding headers status enforce_protocol_def by (simp add: enforce_disposition_other)
qed

theorem mapped_response_obligations_witness:
  "header_values allow_header
     (fst (scope_map
        (scope_new (Some (\<lambda>_ _. MapperResponse (with_pair allow_header ''PUT'' (build_text 405 []))))
           (identity_admitted ''id'' (Known Put) ''/a'' None HTTP_2))
        (method_not_allowed ''PUT'' ''GET, HEAD''))) = [''GET, HEAD'']"
proof -
  let ?sc = "scope_new (Some (\<lambda>_ _. MapperResponse (with_pair allow_header ''PUT'' (build_text 405 []))))
               (identity_admitted ''id'' (Known Put) ''/a'' None HTTP_2)"
  have status: "rs_status (fst (scope_map ?sc (method_not_allowed ''PUT'' ''GET, HEAD''))) = 405"
    by (simp add: scope_map_def Let_def split_def scope_answer_def scope_invoke_def scope_new_def
        catch_mapper_def without_informational_status_def build_text_def)
  have "\<not> connection_specific allow_header"
    by code_simp
  with status show ?thesis
    using mapped_response_obligations [of ?sc "method_not_allowed ''PUT'' ''GET, HEAD''"]
    by (simp add: method_not_allowed_def protecting_def rejected_decided_def rejected_plain_def
        rejection_raw_def)
qed

section \<open>Every refusal is reported exactly once\<close>

definition emissions :: "rejection_event list \<Rightarrow> emission list" where
  "emissions evs = List.map_filter (\<lambda>ev. case ev of Emitted e \<Rightarrow> Some e | _ \<Rightarrow> None) evs"

lemma emissions_simps [simp]:
  "emissions [] = []"
  "emissions (Emitted e # evs) = e # emissions evs"
  "emissions (MapperFailed i k x # evs) = emissions evs"
  "emissions (MapperPanicked i k p # evs) = emissions evs"
  "emissions (InformationalStatus i k s # evs) = emissions evs"
  "emissions (MappedUnrepresentable i k m s # evs) = emissions evs"
  "emissions (FallbackUnrepresentable i t # evs) = emissions evs"
  "emissions (xs @ ys) = emissions xs @ emissions ys"
  by (simp_all add: emissions_def List.map_filter_def)

text \<open>
  A mapper sees a rejection and its context, so the response it returns is one it built: an
  application's, which carries no refusal of its own.
\<close>

definition mapper_builds :: "rejection_scope \<Rightarrow> bool" where
  "mapper_builds sc \<longleftrightarrow>
     (\<forall>mapper rejection context r. sc_mapper sc = Some mapper \<longrightarrow>
        mapper rejection context = MapperResponse r \<longrightarrow> rs_provenance r = ProvApplication)"

lemma provenance_frame [simp]:
  "rs_provenance (with_pair k v r) = rs_provenance r"
  "rs_provenance (without_header k r) = rs_provenance r"
  "rs_provenance (without_headers ks r) = rs_provenance r"
  "rs_provenance (with_replaced_header k v r) = rs_provenance r"
  by (simp_all add: with_pair_def without_header_def without_headers_def with_replaced_header_def)

lemma enforce_protocol_provenance [simp]:
  "rs_provenance (enforce_protocol sc r p d) = rs_provenance r"
  by (cases d) (auto simp: enforce_protocol_def enforce_disposition_def split: option.splits)

lemma built_in_response_provenance [simp]:
  "rs_provenance (built_in_response rejection context) = ProvApplication"
proof -
  have "rs_provenance (fold (\<lambda>(name, val) r. with_pair name val r) hs r) = rs_provenance r" for hs r
    by (induction hs arbitrary: r) auto
  then show ?thesis
    by (simp add: built_in_response_def build_text_def)
qed

lemma fallback_response_provenance [simp]:
  "rs_provenance (fallback_response rid) = ProvApplication"
  by (simp add: fallback_response_def build_text_def)

text \<open>The records of refusals as sent. One that is dropped is recorded without a sent status.\<close>

definition sent_reports :: "rejection_event list \<Rightarrow> emission list" where
  "sent_reports evs = filter (\<lambda>e. em_status e \<noteq> None) (emissions evs)"

lemma sent_reports_append [simp]: "sent_reports (xs @ ys) = sent_reports xs @ sent_reports ys"
  by (simp add: sent_reports_def)

lemma provenance_drop_unsent [simp]: "sent_reports (provenance_drop p) = []"
  by (cases p) (auto simp: provenance_drop_def refusal_drop_def refusal_emit_def sent_reports_def)

lemma scope_answer_unsent: "sent_reports (snd (scope_answer sc rejection context)) = []"
  by (auto simp: scope_answer_def scope_invoke_def catch_mapper_def without_informational_status_def
      sent_reports_def refusal_drop_def refusal_emit_def provenance_drop_def
      split: option.splits mapper_outcome.splits prod.splits if_splits)

lemma scope_answer_silent:
  assumes "mapper_builds sc"
  shows "emissions (snd (scope_answer sc rejection context)) = []
       \<and> rs_provenance (fst (scope_answer sc rejection context)) = ProvApplication"
  using assms
  by (auto simp: scope_answer_def scope_invoke_def catch_mapper_def without_informational_status_def
      mapper_builds_def provenance_drop_def split: option.splits mapper_outcome.splits prod.splits if_splits)

lemma scope_map_unsent: "sent_reports (snd (scope_map sc rejected)) = []"
  using scope_answer_unsent [of sc "rd_rejection rejected" "materialize (sc_identity sc)"]
  by (simp add: scope_map_def Let_def split_def)

lemma scope_map_silent: "mapper_builds sc \<Longrightarrow> emissions (snd (scope_map sc rejected)) = []"
  using scope_answer_silent [of sc "rd_rejection rejected" "materialize (sc_identity sc)"]
  by (simp add: scope_map_def Let_def split_def provenance_drop_def)

text \<open>
  What a record says of a refusal, and the refusal a response stands for: the one it was mapped
  from, or, where the library cannot represent an answer of the application, that failure.
\<close>

type_synonym refusal_account = "rejection_kind \<times> diagnostic \<times> rejection_context"

definition rejected_account :: "rejected \<Rightarrow> rejection_context \<Rightarrow> refusal_account" where
  "rejected_account rejected context = (rj_kind (rd_rejection rejected), rd_diagnostic rejected, context)"

definition response_refusal :: "http_lib \<Rightarrow> rejection_scope \<Rightarrow> response \<Rightarrow> refusal_account option" where
  "response_refusal lib sc r =
     (case rs_provenance r of
        ProvMapped m \<Rightarrow> Some (rejected_account (mr_rejected m) (mr_context m))
      | _ \<Rightarrow>
          (case hl_refuses lib (rs_status r) (rs_headers r) of
             None \<Rightarrow> None
           | Some e \<Rightarrow>
               let content_type = representable_content_type lib (rs_headers r)
               in Some (KindInvalidHeader, LibraryDiagnostic e,
                    materialize (sc_identity (scope_after_head content_type sc)))))"

text \<open>A refusal is counted and recorded once, as sent under the status on the wire; else nothing is.\<close>

definition reports_as :: "refusal_account option \<Rightarrow> finalized \<times> rejection_event list \<Rightarrow> bool" where
  "reports_as refusal result =
     (case refusal of
        None \<Rightarrow> fz_refused (fst result) = None \<and> emissions (snd result) = []
      | Some (kind, cause, context) \<Rightarrow>
          fz_refused (fst result) = Some kind
          \<and> (\<exists>e. sent_reports (snd result) = [e] \<and> em_kind e = kind \<and> em_cause e = cause
               \<and> em_context e = context \<and> em_status e = Some (wr_status (fz_response (fst result)))
               \<and> em_condition e = ''request rejected''))"

lemma scope_map_refusal:
  obtains m where "rs_provenance (fst (scope_map sc rejected)) = ProvMapped m"
    "rejected_account (mr_rejected m) (mr_context m) = rejected_account rejected (materialize (sc_identity sc))"
  by (simp add: scope_map_def Let_def split_def mark_mapped_def mapped_refusal_new_def rejected_account_def)

lemmas reporting_defs =
  reports_as_def rejected_account_def sent_reports_def refusal_record_def refusal_drop_def refusal_emit_def

lemma fallback_hyper_spec:
  "wr_status (fst (fallback_hyper lib rid)) = fallback_status
   \<and> emissions (snd (fallback_hyper lib rid)) = []"
  by (auto simp: fallback_hyper_def into_wire_def unnamed_fallback_def fallback_status_def
      split: option.splits sum.splits)

lemma displace_mapped_reported:
  "reports_as (Some (rejected_account (mr_rejected m) (mr_context m))) (displace_mapped lib sc m)"
  "emissions (snd (displace_mapped lib sc m)) = sent_reports (snd (displace_mapped lib sc m))"
  using fallback_hyper_spec [of lib "ri_request_id (sc_identity sc)"]
  by (auto simp: reporting_defs displace_mapped_def Let_def split_def)

lemma scope_convert_eq:
  "scope_convert lib sc r =
     (rs_provenance r,
      case hl_refuses lib (rs_status r) (rs_headers r) of
        None \<Rightarrow> Inr \<lparr>wr_status = rs_status r, wr_headers = rs_headers r,
          wr_body = (if identity_is_head (sc_identity sc) then [] else wire_bytes (rs_body r))\<rparr>
      | Some e \<Rightarrow> Inl \<lparr>ur_error = e, ur_content_type = representable_content_type lib (rs_headers r)\<rparr>)"
  by (simp add: scope_convert_def into_wire_def strip_body_def split: option.split)

lemma scope_finalize_mapped:
  assumes "rs_provenance r = ProvMapped m"
  shows "reports_as (Some (rejected_account (mr_rejected m) (mr_context m))) (scope_finalize lib sc r)
    \<and> emissions (snd (scope_finalize lib sc r)) = sent_reports (snd (scope_finalize lib sc r))"
proof (cases "hl_refuses lib (rs_status r) (rs_headers r)")
  case None
  then show ?thesis
    by (simp add: scope_finalize.simps [of lib sc r] scope_convert_eq assms sent_finalized_def reporting_defs)
next
  case (Some e)
  then have "scope_finalize lib sc r = displace_mapped lib sc m"
    by (simp add: scope_finalize.simps [of lib sc r] scope_convert_eq assms)
  then show ?thesis
    using displace_mapped_reported by simp
qed

lemma scope_finalize_representable:
  assumes "hl_refuses lib (rs_status r) (rs_headers r) = None"
  shows "wr_status (fz_response (fst (scope_finalize lib sc r))) = rs_status r"
    and "wr_headers (fz_response (fst (scope_finalize lib sc r))) = rs_headers r"
  by (cases "rs_provenance r";
      simp add: scope_finalize.simps [of lib sc r] scope_convert_eq assms sent_finalized_def split_def Let_def)+

text \<open>An answer of the application that cannot be represented is refused and finalised again.\<close>

lemma scope_finalize_unrepresentable:
  assumes "\<not> is_mapped (rs_provenance r)" and "hl_refuses lib (rs_status r) (rs_headers r) = Some e"
    and "sc' = scope_after_head (representable_content_type lib (rs_headers r)) sc"
    and "scope_map sc' (rejected_unrepresentable e) = (mapped, ev)"
  shows "scope_finalize lib sc r =
     (fst (scope_finalize lib sc' mapped), ev @ snd (scope_finalize lib sc' mapped))"
  using assms unfolding scope_finalize.simps [of lib sc r] scope_convert_eq
  by (cases "rs_provenance r") (simp_all add: split_def Let_def)

lemma reports_as_after:
  "reports_as (Some refusal) result \<Longrightarrow> sent_reports ev = [] \<Longrightarrow>
     reports_as (Some refusal) (fst result, ev @ snd result)"
  by (auto simp: reports_as_def split: prod.splits)

text \<open>C17: Putting a response on the wire reports exactly what it stands for, whatever the mapper of
  the application does. A response mapped from a refusal is recorded once as sent, with the kind,
  the cause and the context of that refusal and the status that is on the wire, also when it
  cannot be represented and the fixed fallback replaces it. An answer of the application that
  cannot be represented is recorded once as the refusal it becomes. Any other answer is recorded
  not at all. A response that can be represented is sent with its own status and headers. And
  when the mapper only returns responses it built, nothing else is recorded.\<close>

theorem refusal_reported_once:
  "reports_as (response_refusal lib sc r) (scope_finalize lib sc r)
   \<and> (hl_refuses lib (rs_status r) (rs_headers r) = None \<longrightarrow>
        wr_status (fz_response (fst (scope_finalize lib sc r))) = rs_status r
        \<and> wr_headers (fz_response (fst (scope_finalize lib sc r))) = rs_headers r)
   \<and> (mapper_builds sc \<longrightarrow>
        emissions (snd (scope_finalize lib sc r)) = sent_reports (snd (scope_finalize lib sc r)))"
proof (cases "hl_refuses lib (rs_status r) (rs_headers r)")
  case None
  then show ?thesis
    by (cases "rs_provenance r")
      (simp_all add: scope_finalize.simps [of lib sc r] scope_convert_eq sent_finalized_def reporting_defs
        response_refusal_def)
next
  case (Some e)
  show ?thesis
  proof (cases "is_mapped (rs_provenance r)")
    case True
    then show ?thesis
      using Some scope_finalize_mapped [of r _ lib sc]
      by (cases "rs_provenance r") (simp_all add: response_refusal_def)
  next
    case False
    define sc' where "sc' = scope_after_head (representable_content_type lib (rs_headers r)) sc"
    obtain mapped ev where map: "scope_map sc' (rejected_unrepresentable e) = (mapped, ev)"
      by fastforce
    obtain m where m: "rs_provenance mapped = ProvMapped m"
      "rejected_account (mr_rejected m) (mr_context m)
         = rejected_account (rejected_unrepresentable e) (materialize (sc_identity sc'))"
      using scope_map_refusal [of sc' "rejected_unrepresentable e"] unfolding map fst_conv .
    have account: "response_refusal lib sc r = Some (rejected_account (mr_rejected m) (mr_context m))"
      unfolding m(2) using False Some
      by (cases "rs_provenance r")
        (simp_all add: response_refusal_def sc'_def rejected_account_def rejected_faulted_def
          rejected_plain_def redacted_fault_def rejection_raw_def)
    have "sent_reports ev = []"
      using scope_map_unsent [of sc' "rejected_unrepresentable e"] unfolding map by simp
    moreover have "emissions ev = []" if "mapper_builds sc"
    proof -
      have "mapper_builds sc'"
        using that by (simp add: sc'_def mapper_builds_def scope_after_head_def scope_transitioned_def
            split: option.split)
      then show ?thesis
        using scope_map_silent [of sc' "rejected_unrepresentable e"] unfolding map by simp
    qed
    ultimately show ?thesis
      using Some scope_finalize_mapped [OF m(1), of lib sc'] reports_as_after
      unfolding scope_finalize_unrepresentable [OF False Some sc'_def map] account by simp
  qed
qed

theorem refusal_reported_once_witness:
  "\<exists>sc lib e. sc = scope_new (Some (\<lambda>_ _. MapperResponse (build_text 200 ''hidden'')))
        (identity_admitted ''id'' (Known Get) ''/a'' None HTTP_11)
     \<and> lib = \<lparr>hl_refuses = (\<lambda>_ hs. if hs = [] then Some ''bad'' else None), hl_value_ok = (\<lambda>_. True)\<rparr>
     \<and> emissions (snd (scope_finalize lib sc (build_empty 204))) = [e]
     \<and> em_kind e = KindInvalidHeader \<and> em_cause e = LibraryDiagnostic ''bad''"
proof -
  let ?sc = "scope_new (Some (\<lambda>_ _. MapperResponse (build_text 200 ''hidden'')))
        (identity_admitted ''id'' (Known Get) ''/a'' None HTTP_11)"
  let ?lib = "\<lparr>hl_refuses = (\<lambda>_ hs. if hs = [] then Some ''bad'' else None), hl_value_ok = (\<lambda>_. True)\<rparr>"
  have "mapper_builds ?sc"
    by (simp add: mapper_builds_def scope_new_def build_text_def)
  then show ?thesis
    using refusal_reported_once [of ?lib ?sc "build_empty 204"]
    by (auto simp: reports_as_def response_refusal_def build_empty_def)
qed

section \<open>Undeclared errors are not disclosed\<close>

text \<open>The status and the body that the reference documentation promises for each error.\<close>

fun documented_answer :: "runtime_error \<Rightarrow> u16 \<times> string" where
  "documented_answer (BadRequest message) = (400, message)"
| "documented_answer (MalformedBody _) = (400, ''malformed request body'')"
| "documented_answer (MultipartInvalid _) = (400, ''invalid multipart body'')"
| "documented_answer (RequestBodyLimitExceeded _) = (413, ''request body too large'')"
| "documented_answer (RequestBodyUnreadable _) = (400, ''request body could not be read'')"
| "documented_answer ScopeClosed = (503, ''service unavailable'')"
| "documented_answer (Turn _) = (503, ''service unavailable'')"
| "documented_answer _ = (500, ''internal server error'')"

text \<open>What the operator's record keeps of an error: all of it, up to an integration's own account.\<close>

fun operator_cause :: "runtime_error \<Rightarrow> diagnostic" where
  "operator_cause (BadRequest message) =
     DetailDiagnostic (''the producer declared this message client-safe: '' @ message)"
| "operator_cause (Integration failure) = IntegrationDiagnostic failure"
| "operator_cause e = ErrorDiagnostic e"

lemmas classify_defs =
  classify_def rejected_declared_def rejected_decided_def rejected_plain_def rejection_raw_def
  rejected_unavailable_def rejected_unparseable_def body_limit_crossed_def
  rejected_faulted_def redacted_fault_def

lemma classify_documented:
  "rj_status (rd_rejection (classify e kinds)) = fst (documented_answer e)"
  "rj_message (rd_rejection (classify e kinds)) = snd (documented_answer e)"
  "rj_headers (rd_rejection (classify e kinds)) = []"
  "rd_diagnostic (classify e kinds) = operator_cause e"
  "rd_protected (classify e kinds) = None"
  by (cases e; simp add: classify_defs)+

lemma built_in_answer:
  assumes "sc_mapper sc = None" and "200 \<le> rj_status rejection" and "rj_headers rejection = []"
  shows "scope_answer sc rejection context =
    (\<lparr>rs_status = rj_status rejection, rs_body = TextBody (rj_message rejection),
      rs_headers = [(content_type_header, ''text/plain''), (request_id_header, rc_request_id context)],
      rs_provenance = ProvApplication\<rparr>, [])"
  using assms
  by (simp add: scope_answer_def scope_invoke_def built_in_response_def with_pair_def
      build_text_def without_informational_status_def not_less)

lemma materialize_id [simp]: "rc_request_id (materialize i) = ri_request_id i"
  by (simp add: materialize_def context_new_def)

lemma enforce_protocol_frame:
  "rs_body (enforce_protocol sc r None d) = rs_body r"
  "set (rs_headers (enforce_protocol sc r None d)) \<subseteq> insert close_header (set (rs_headers r))"
  by (cases d; auto simp: enforce_protocol_def enforce_disposition_def without_headers_def
      with_replaced_header_def with_pair_def without_header_def)+

text \<open>C18: An error a producer returns is answered as the reference documentation says, and tells the
  peer nothing else. The refusal that the built-in policy or a mapper of the application gets to
  see has the documented status, the documented fixed text, which is the message of the error only
  where the producer declared that safe, and no header. Under the built-in policy the peer
  receives that status and that text, with no header but the content type, the request id and a
  close. The operator's record keeps the error.\<close>

theorem classify_discloses_only_declared:
  "rj_status (rd_rejection (classify e kinds)) = fst (documented_answer e)
   \<and> rj_message (rd_rejection (classify e kinds)) = snd (documented_answer e)
   \<and> rj_headers (rd_rejection (classify e kinds)) = []
   \<and> rd_diagnostic (classify e kinds) = operator_cause e
   \<and> (let answered = fst (scope_resolve (sc\<lparr>sc_mapper := None\<rparr>) (Inl e) kinds)
      in rs_status answered = fst (documented_answer e)
         \<and> rs_body answered = TextBody (snd (documented_answer e))
         \<and> set (rs_headers answered) \<subseteq> {(content_type_header, ''text/plain''),
              (request_id_header, ri_request_id (sc_identity sc)), close_header})"
proof -
  let ?sc = "sc\<lparr>sc_mapper := None\<rparr>"
  have "200 \<le> rj_status (rd_rejection (classify e kinds))"
    unfolding classify_documented by (cases e) simp_all
  moreover define a where "a = \<lparr>rs_status = fst (documented_answer e), rs_body = TextBody (snd (documented_answer e)),
      rs_headers = [(content_type_header, ''text/plain''), (request_id_header, ri_request_id (sc_identity sc))],
      rs_provenance = ProvApplication\<rparr>"
  ultimately have "fst (scope_answer ?sc (rd_rejection (classify e kinds)) (materialize (sc_identity ?sc))) = a"
    by (simp add: built_in_answer classify_documented)
  moreover have "rs_status a = fst (documented_answer e)" "rs_body a = TextBody (snd (documented_answer e))"
    "set (rs_headers a) = {(content_type_header, ''text/plain''), (request_id_header, ri_request_id (sc_identity sc))}"
    by (simp_all add: a_def)
  ultimately show ?thesis
    using enforce_protocol_frame [of ?sc a "rd_disposition (classify e kinds)"]
    by (simp add: scope_resolve_def scope_map_def split_def Let_def mark_mapped_def classify_documented
        insert_commute)
qed

end
