(* ===== verification/Body_Admission.thy ===== *)
theory Body_Admission
  imports Rejection_Scope Server_Policy Rust_Text
begin

text \<open>
  Admission of request bodies, from \<open>http/body_admission.rs\<close>, over the request head of
  \<open>http/request.rs\<close>: the ceiling a route resolves under its host and the server's hard cap,
  the decision taken on the head alone, and the running account of the body's frames. The header
  map of the \<open>http\<close> crate is the function that gives the first value of a name. A body policy
  is a function that admits, refuses or panics. Its calls and the permits released without a
  grant are returned as events, in order. The pauses of the test observer are left out.
\<close>

section \<open>The request head\<close>

record request_head =
  hd_method :: request_method
  hd_path :: string
  hd_headers :: "string \<Rightarrow> string option"
  hd_request_id :: string

abbreviation header_value_str :: "string \<Rightarrow> string option" where
  "header_value_str bytes \<equiv> (if utf8_valid bytes then Some bytes else None)"

abbreviation header_str :: "(string \<Rightarrow> string option) \<Rightarrow> string \<Rightarrow> string option" where
  "header_str headers name \<equiv> Option.bind (headers name) header_value_str"

definition declared_length :: "request_head \<Rightarrow> nat option" where
  "declared_length head =
     Option.bind (header_str (hd_headers head) ''content-length'')
       (\<lambda>declared. parse_unsigned (2 ^ 64 - 1) (str_trim declared))"

definition undecodable_transfer_coding :: "request_head \<Rightarrow> string option" where
  "undecodable_transfer_coding head =
     Option.bind (header_str (hd_headers head) ''transfer-encoding'')
       (\<lambda>declared.
          if list_all (\<lambda>coding. eq_ignore_ascii_case (str_trim coding) ''chunked'')
               (str_split (CHR '','') declared)
          then None else Some declared)"

section \<open>Ceilings\<close>

abbreviation default_max_body :: usize where
  "default_max_body \<equiv> 8 * 1024 * 1024"

datatype configured_ceiling = CeilingUnset | CeilingSet usize

fun configured_value :: "configured_ceiling \<Rightarrow> usize option" where
  "configured_value CeilingUnset = None"
| "configured_value (CeilingSet bytes) = Some bytes"

definition ceiling_located :: "configured_ceiling \<Rightarrow> policy_layer \<Rightarrow> usize layered" where
  "ceiling_located c layer =
     (let configured = configured_value c
      in layered_at (case configured of Some bytes \<Rightarrow> bytes | None \<Rightarrow> default_max_body) layer
           (configured \<noteq> None))"

fun ceiling_inside :: "configured_ceiling \<Rightarrow> configured_ceiling option \<Rightarrow> usize layered" where
  "ceiling_inside CeilingUnset (Some outer) = ceiling_located outer HostLayer"
| "ceiling_inside (CeilingSet bytes) (Some outer) =
     layered_contained_by (dimension_containment RequestBodyLimit) min
       (ceiling_located (CeilingSet bytes) RouterLayer) (ceiling_located outer HostLayer)"
| "ceiling_inside c None = ceiling_located c RouterLayer"

definition ceiling_resolved ::
  "configured_ceiling \<Rightarrow> configured_ceiling option \<Rightarrow> usize policy_bound \<Rightarrow> usize policy_bound"
where
  "ceiling_resolved c outer cap = bound_narrowed_by (ly_bound (ceiling_inside c outer)) cap"

abbreviation ceiling_resolved_host ::
  "configured_ceiling \<Rightarrow> usize policy_bound \<Rightarrow> usize policy_bound"
where
  "ceiling_resolved_host c cap \<equiv> bound_narrowed_by (ly_bound (ceiling_located c HostLayer)) cap"

section \<open>Admission\<close>

datatype request_body_mode = BufferedMode | StreamingMode

record body_admission_context =
  bc_request_id :: string
  bc_method :: string
  bc_raw_path :: string
  bc_route :: string
  bc_mode :: request_body_mode
  bc_declared_length :: "nat option"
  bc_head :: request_head

definition admission_context_new ::
  "request_head \<Rightarrow> string \<Rightarrow> request_body_mode \<Rightarrow> nat option \<Rightarrow> body_admission_context"
where
  "admission_context_new head route mode declared =
     \<lparr>bc_request_id = hd_request_id head, bc_method = request_method_as_str (hd_method head),
      bc_raw_path = hd_path head, bc_route = route, bc_mode = mode,
      bc_declared_length = declared, bc_head = head\<rparr>"

record 'p body_admission =
  ba_max_bytes :: usize
  ba_permit :: "'p option"

definition body_admission_new :: "usize \<Rightarrow> 'p body_admission" where
  "body_admission_new max_bytes = \<lparr>ba_max_bytes = max_bytes, ba_permit = None\<rparr>"

definition body_admission_with_permit :: "usize \<Rightarrow> 'p \<Rightarrow> 'p body_admission" where
  "body_admission_with_permit max_bytes permit =
     \<lparr>ba_max_bytes = max_bytes, ba_permit = Some permit\<rparr>"

datatype 'p policy_outcome =
    PolicyAdmits "'p body_admission"
  | PolicyRefuses runtime_error
  | PolicyPanics "string option"

type_synonym 'p body_policy = "body_admission_context \<Rightarrow> 'p policy_outcome"

record 'p resolved_body_plan =
  bp_route :: string
  bp_mode :: request_body_mode
  bp_ceiling :: usize
  bp_policy :: "'p body_policy option"

record 'p body_grant =
  bg_limit :: usize
  bg_permit :: "'p option"

datatype 'p admission_event =
    PolicyRun body_admission_context
  | PermitReleased 'p

definition declared_length_exceeds_limit :: "nat \<Rightarrow> usize \<Rightarrow> bool" where
  "declared_length_exceeds_limit declared limit \<longleftrightarrow> unat limit < declared"

definition declares_over :: "nat option \<Rightarrow> usize \<Rightarrow> bool" where
  "declares_over declared limit \<longleftrightarrow>
     (case declared of None \<Rightarrow> False | Some stated \<Rightarrow> declared_length_exceeds_limit stated limit)"

definition run_policy ::
  "'p body_policy \<Rightarrow> body_admission_context \<Rightarrow> rejected + 'p body_admission"
where
  "run_policy policy context =
     (case policy context of
        PolicyAdmits admission \<Rightarrow> Inr admission
      | PolicyRefuses error \<Rightarrow> Inl (body_admission_refused error)
      | PolicyPanics payload \<Rightarrow> Inl (body_admission_panicked payload))"

definition admit_under_policy ::
  "'p resolved_body_plan \<Rightarrow> request_head \<Rightarrow> nat option
   \<Rightarrow> (rejected + 'p body_grant) \<times> 'p admission_event list"
where
  "admit_under_policy plan head declared =
     (case bp_policy plan of
        None \<Rightarrow> (Inr \<lparr>bg_limit = bp_ceiling plan, bg_permit = None\<rparr>, [])
      | Some policy \<Rightarrow>
          let ctxt = admission_context_new head (bp_route plan) (bp_mode plan) declared
          in case run_policy policy ctxt of
               Inl refusal \<Rightarrow> (Inl refusal, [PolicyRun ctxt])
             | Inr admission \<Rightarrow>
                 let limit = min (ba_max_bytes admission) (bp_ceiling plan);
                     permit = ba_permit admission
                 in if declares_over declared limit
                    then (Inl (body_too_large limit),
                          PolicyRun ctxt # (case permit of None \<Rightarrow> [] | Some p \<Rightarrow> [PermitReleased p]))
                    else (Inr \<lparr>bg_limit = limit, bg_permit = permit\<rparr>, [PolicyRun ctxt]))"

definition admit_declared ::
  "'p resolved_body_plan \<Rightarrow> request_head
   \<Rightarrow> (rejected + 'p body_grant) \<times> 'p admission_event list"
where
  "admit_declared plan head =
     (let declared = declared_length head
      in if declares_over declared (bp_ceiling plan)
         then (Inl (body_too_large (bp_ceiling plan)), [])
         else admit_under_policy plan head declared)"

definition admit ::
  "'p resolved_body_plan \<Rightarrow> request_head
   \<Rightarrow> (rejected + 'p body_grant) \<times> 'p admission_event list"
where
  "admit plan head =
     (case undecodable_transfer_coding head of
        Some coding \<Rightarrow> (Inl (rejected_undecodable_transfer_coding coding), [])
      | None \<Rightarrow> admit_declared plan head)"

section \<open>Frames\<close>

text \<open>\<open>usize::checked_add\<close> answers nothing where the sum does not fit the type.\<close>

definition checked_body_frame_total :: "usize \<Rightarrow> usize \<Rightarrow> usize \<Rightarrow> usize option" where
  "checked_body_frame_total observed frame_len limit =
     (if unat observed + unat frame_len < 2 ^ 64
      then let counted = observed + frame_len in if counted \<le> limit then Some counted else None
      else None)"

record body_budget =
  bb_limit :: usize
  bb_observed :: usize

definition body_budget_new :: "'p body_grant \<Rightarrow> body_budget" where
  "body_budget_new admitted = \<lparr>bb_limit = bg_limit admitted, bb_observed = 0\<rparr>"

definition admit_frame_within :: "usize \<Rightarrow> body_budget \<Rightarrow> (usize + usize) \<times> body_budget" where
  "admit_frame_within frame_len b =
     (case checked_body_frame_total (bb_observed b) frame_len (bb_limit b) of
        Some counted \<Rightarrow> (Inr counted, b\<lparr>bb_observed := counted\<rparr>)
      | None \<Rightarrow> (Inl (bb_limit b), b))"

definition admit_frame :: "usize \<Rightarrow> body_budget \<Rightarrow> (rejected + usize) \<times> body_budget" where
  "admit_frame frame_len b =
     (case admit_frame_within frame_len b of
        (Inr counted, b') \<Rightarrow> (Inr counted, b')
      | (Inl limit, b') \<Rightarrow> (Inl (body_too_large limit), b'))"

text \<open>
  What the readers of a body do with its frames: each is admitted before it is kept, and the first
  refusal ends the read.
\<close>

fun admit_frames :: "usize list \<Rightarrow> body_budget \<Rightarrow> (rejected + usize) \<times> body_budget" where
  "admit_frames [] b = (Inr (bb_observed b), b)"
| "admit_frames (n # ns) b =
     (case admit_frame n b of
        (Inl refusal, b') \<Rightarrow> (Inl refusal, b')
      | (Inr _, b') \<Rightarrow> admit_frames ns b')"

section \<open>Ceilings resolve to the narrowest explicit one\<close>

text \<open>
  The specification of a resolved ceiling: the ceilings that were set explicitly compete, or the
  default where none was, and the smallest of them and the cap wins.
\<close>

definition ceiling_candidates ::
  "configured_ceiling \<Rightarrow> configured_ceiling option \<Rightarrow> (usize \<times> policy_layer \<times> bool) list"
where
  "ceiling_candidates c outer =
     (let explicit =
        (case c of CeilingSet b \<Rightarrow> [(b, RouterLayer, False)] | CeilingUnset \<Rightarrow> [])
        @ (case outer of Some (CeilingSet h) \<Rightarrow> [(h, HostLayer, False)] | _ \<Rightarrow> [])
      in if explicit = []
         then [(default_max_body, if outer = None then RouterLayer else HostLayer, True)]
         else explicit)"

lemmas ceiling_defs =
  ceiling_resolved_def ceiling_located_def ceiling_candidates_def bound_narrowed_by_def
  layered_at_def layered_contained_by_def supplied_sources_def Let_def

text \<open>C30:
  The body ceiling of a router is the smallest of the explicitly configured ceilings of the router
  and its host and of the server's hard cap, the default of 8 MiB counting only where neither set
  one; and the layers reported as its source are exactly those whose bound equals it.
\<close>

theorem ceiling_resolution:
  "pb_value (ceiling_resolved c outer cap)
     = Min (insert (pb_value cap) (fst ` set (ceiling_candidates c outer)))
   \<and> layers_set (pb_sources (ceiling_resolved c outer cap))
     = snd ` set (filter (\<lambda>e. fst e = pb_value (ceiling_resolved c outer cap))
                   (ceiling_candidates c outer))
       \<union> (if pb_value cap = pb_value (ceiling_resolved c outer cap)
          then layers_set (pb_sources cap) else {})"
proof (cases c)
  case c: CeilingUnset
  show ?thesis
  proof (cases outer)
    case None
    with c show ?thesis
      by (auto simp: ceiling_defs min_def)
  next
    case (Some h)
    with c show ?thesis
      by (cases h) (auto simp: ceiling_defs min_def)
  qed
next
  case c: (CeilingSet b)
  show ?thesis
  proof (cases outer)
    case None
    with c show ?thesis
      by (auto simp: ceiling_defs min_def)
  next
    case (Some h)
    with c show ?thesis
      by (cases h) (auto simp: ceiling_defs min_def)
  qed
qed

section \<open>Frames are counted exactly\<close>

lemma usize_less: "unat (w :: usize) < 2 ^ 64"
  using unsigned_less [of w] by simp

lemma checked_total_iff:
  "checked_body_frame_total observed n limit =
     (if unat observed + unat n \<le> unat limit then Some (observed + n) else None)"
proof -
  have "unat limit < 2 ^ 64"
    using usize_less [of limit] by simp
  moreover have "unat (observed + n) = unat observed + unat n"
    if "unat observed + unat n < 2 ^ 64"
    using that by (subst unat_add_lem [THEN iffD1]) simp_all
  ultimately show ?thesis
    by (auto simp: checked_body_frame_total_def Let_def word_le_nat_alt)
qed

lemma checked_total_unat:
  assumes "unat observed + unat n \<le> unat (limit :: usize)"
  shows "unat (observed + n :: usize) = unat observed + unat n"
  using assms usize_less [of limit] by (subst unat_add_lem [THEN iffD1]) simp_all

lemma admit_frames_exact:
  assumes "unat (bb_observed b) \<le> unat (bb_limit b)"
  shows "fst (admit_frames ns b) =
     (if unat (bb_observed b) + sum_list (map unat ns) \<le> unat (bb_limit b)
      then Inr (bb_observed b + sum_list ns) else Inl (body_too_large (bb_limit b)))"
  using assms
proof (induction ns arbitrary: b)
  case (Cons n ns)
  show ?case
  proof (cases "unat (bb_observed b) + unat n \<le> unat (bb_limit b)")
    case True
    with Cons.IH [of "b\<lparr>bb_observed := bb_observed b + n\<rparr>"] checked_total_unat [OF True]
    show ?thesis
      by (simp add: admit_frame_def admit_frame_within_def checked_total_iff add.assoc)
  qed (simp add: admit_frame_def admit_frame_within_def checked_total_iff)
qed simp

text \<open>C29:
  Reading a body under a grant succeeds exactly when the lengths of its frames, added without
  wrap-around, stay within the granted limit, and then answers their total; otherwise it is
  refused as too large for that limit.
\<close>

theorem frames_counted_exactly:
  "fst (admit_frames ns (body_budget_new grant)) =
     (if sum_list (map unat ns) \<le> unat (bg_limit grant)
      then Inr (sum_list ns) else Inl (body_too_large (bg_limit grant)))
   \<and> (sum_list (map unat ns) \<le> unat (bg_limit grant)
      \<longrightarrow> unat (sum_list ns) = sum_list (map unat ns))"
proof -
  have "sum_list (map unat ms) \<le> unat (l :: usize) \<Longrightarrow> unat (sum_list ms) = sum_list (map unat ms)"
    for ms :: "usize list" and l
  proof (induction ms)
    case (Cons m ms)
    then have "unat m + unat (sum_list ms) \<le> unat l"
      by simp
    with Cons checked_total_unat [of m "sum_list ms" l] show ?case
      by simp
  qed simp
  then show ?thesis
    using admit_frames_exact [of "body_budget_new grant" ns] by (simp add: body_budget_new_def)
qed

theorem frames_counted_exactly_witness:
  "fst (admit_frames [3, 4] (body_budget_new \<lparr>bg_limit = 7, bg_permit = None\<rparr>)) = Inr 7
   \<and> unat (sum_list [3, 4 :: usize]) = 7"
  using frames_counted_exactly [of "[3, 4]" "\<lparr>bg_limit = 7, bg_permit = None\<rparr>"] by simp

section \<open>What an admission decides\<close>

definition granted_permits :: "rejected + 'p body_grant \<Rightarrow> 'p list" where
  "granted_permits r = (case r of Inl _ \<Rightarrow> [] | Inr g \<Rightarrow> (case bg_permit g of None \<Rightarrow> [] | Some p \<Rightarrow> [p]))"

definition released_permits :: "'p admission_event list \<Rightarrow> 'p list" where
  "released_permits evs = List.map_filter (\<lambda>e. case e of PermitReleased p \<Rightarrow> Some p | _ \<Rightarrow> None) evs"

definition policy_runs :: "'p admission_event list \<Rightarrow> body_admission_context list" where
  "policy_runs evs = List.map_filter (\<lambda>e. case e of PolicyRun c \<Rightarrow> Some c | _ \<Rightarrow> None) evs"

definition issued_permits :: "'p resolved_body_plan \<Rightarrow> body_admission_context list \<Rightarrow> 'p list" where
  "issued_permits plan runs =
     List.map_filter (\<lambda>c. case bp_policy plan of None \<Rightarrow> None
       | Some policy \<Rightarrow> (case policy c of PolicyAdmits a \<Rightarrow> ba_permit a | _ \<Rightarrow> None)) runs"

lemma declares_over_mono: "l \<le> m \<Longrightarrow> declares_over d m \<Longrightarrow> declares_over d l"
  by (auto simp: declares_over_def declared_length_exceeds_limit_def word_le_nat_alt
      split: option.splits)

lemmas admission_defs =
  admit_def admit_declared_def admit_under_policy_def run_policy_def Let_def
  granted_permits_def released_permits_def policy_runs_def issued_permits_def
  List.map_filter_simps

lemma refusals_close:
  "rd_disposition (body_too_large l) = CloseTransport"
  "rd_disposition (rejected_undecodable_transfer_coding coding) = CloseTransport"
  "rd_disposition (body_admission_refused e) = CloseTransport"
  "rd_disposition (body_admission_panicked payload) = CloseTransport"
  by (simp_all add: body_too_large_def rejected_undecodable_transfer_coding_def
      body_admission_refused_def body_admission_panicked_def 
     )

text \<open>C28:
  Admission decides on the head alone. The policy runs at most once, and not at all when the
  transfer coding cannot be decoded or the declared length is over the ceiling. Every permit the
  policy issued is either in the grant or released, never both and never lost. A grant never
  exceeds the ceiling and never contradicts the declared length. A refusal closes the transport.
\<close>

theorem admission_decides:
  "length (policy_runs (snd (admit plan head))) \<le> 1
   \<and> (undecodable_transfer_coding head \<noteq> None
        \<or> declares_over (declared_length head) (bp_ceiling plan)
      \<longrightarrow> snd (admit plan head) = [] \<and> isl (fst (admit plan head)))
   \<and> granted_permits (fst (admit plan head)) @ released_permits (snd (admit plan head))
      = issued_permits plan (policy_runs (snd (admit plan head)))
   \<and> (case fst (admit plan head) of
        Inr g \<Rightarrow> bg_limit g \<le> bp_ceiling plan \<and> \<not> declares_over (declared_length head) (bg_limit g)
      | Inl r \<Rightarrow> rd_disposition r = CloseTransport)"
  by (simp add: admission_defs refusals_close split: option.splits policy_outcome.splits)

definition permit_plan :: "nat resolved_body_plan" where
  "permit_plan =
     \<lparr>bp_route = ''/upload'', bp_mode = BufferedMode, bp_ceiling = 100,
      bp_policy = Some (\<lambda>_. PolicyAdmits (body_admission_with_permit 10 7))\<rparr>"

definition declared_head :: "string \<Rightarrow> request_head" where
  "declared_head n =
     \<lparr>hd_method = Known Post, hd_path = ''/upload'',
      hd_headers = (\<lambda>name. if name = ''content-length'' then Some n else None),
      hd_request_id = ''id''\<rparr>"

lemma declared_head_trimmed:
  assumes "list_all is_ascii_digit n" "n \<noteq> []"
  shows "declared_length (declared_head n) = parse_unsigned (2 ^ 64 - 1) n"
proof -
  have digit: "byte_in 33 126 c \<and> byte_in 0 127 c" if "c \<in> set n" for c
    using assms that by (auto simp: list_all_iff is_ascii_digit_def byte_in_def less_eq_char_def)
  have "str_trim n = n"
    using assms(2) digit by (intro str_trim_visible) auto
  moreover have "utf8_valid n"
    using digit by (intro utf8_valid_ascii) (auto simp: list_all_iff)
  ultimately show ?thesis
    by (simp add: declared_length_def declared_head_def)
qed

lemmas parse_defs =
  declared_head_trimmed parse_unsigned_def digit_val_def is_ascii_digit_def less_eq_char_def

lemma declared_head_fifty: "declared_length (declared_head ''50'') = Some 50"
  by (simp add: parse_defs)

lemma declared_head_nine: "declared_length (declared_head ''9'') = Some 9"
  by (simp add: parse_defs)

lemma declared_head_uncoded: "undecodable_transfer_coding (declared_head n) = None"
  by (simp add: undecodable_transfer_coding_def declared_head_def)

theorem admission_decides_witness:
  "admit permit_plan (declared_head ''50'') =
     (Inl (body_too_large 10),
      [PolicyRun (admission_context_new (declared_head ''50'') ''/upload'' BufferedMode (Some 50)),
       PermitReleased 7])
   \<and> rd_disposition (body_too_large 10) = CloseTransport"
proof -
  have "admit permit_plan (declared_head ''50'') =
     (Inl (body_too_large 10),
      [PolicyRun (admission_context_new (declared_head ''50'') ''/upload'' BufferedMode (Some 50)),
       PermitReleased 7])"
    by (simp add: admission_defs declared_head_fifty declared_head_uncoded permit_plan_def
        declares_over_def declared_length_exceeds_limit_def body_admission_with_permit_def)
  then show ?thesis
    using admission_decides [of permit_plan "declared_head ''50''"] by simp
qed

section \<open>Limits and totals of what was admitted\<close>

lemma admitted_limit:
  "fst (admit plan head) = Inr g \<Longrightarrow> bg_limit g \<le> bp_ceiling plan"
  by (auto simp: admit_def admit_declared_def admit_under_policy_def run_policy_def Let_def
      split: option.splits if_splits policy_outcome.splits)

lemma admitted_frames_total:
  assumes "fst (admit_frames ns (body_budget_new g)) = Inr n"
  shows "sum_list (map unat ns) \<le> unat (bg_limit g)"
  using assms admit_frames_exact [of "body_budget_new g" ns]
  by (simp add: body_budget_new_def split: if_splits)

lemma default_hard_cap:
  "pb_value (es_request_body_hard_cap (effective_resolve False server_policy_default None))
     = default_request_body_hard_cap"
  by (simp add: es_request_body_hard_cap_def effective_resolve_def sp_located_def
      server_policy_of_def Let_def)

end
