(* ===== verification/Body_Plans.thy ===== *)
theory Body_Plans
  imports Body_Admission Route_Trie
begin

text \<open>
  From the configuration of a router to the body plan of a matched route: the part of
  \<open>Router::freeze\<close> (\<open>http/router.rs\<close>) that resolves the body ceiling, and the classification of a
  matched route (\<open>http/dispatch.rs\<close>), which narrows it by the upload maximum of a proxy. Of a
  frozen router only what body plans read is kept, of a route class only its plan. What the
  handler's payload says of itself, whether its upstream is unhealthy, the upload budget of the
  upstream, and whether an SSE registration reads the body, are arguments.
\<close>

section \<open>Frozen routers\<close>

record 'p frozen_router =
  fr_body_ceiling :: usize
  fr_body_policy :: "'p body_policy option"

definition freeze_router ::
  "configured_ceiling \<Rightarrow> 'p body_policy option \<Rightarrow> configured_ceiling option \<Rightarrow> usize policy_bound
   \<Rightarrow> 'p frozen_router"
where
  "freeze_router body_ceiling body_policy host_ceiling cap =
     \<lparr>fr_body_ceiling = pb_value (ceiling_resolved body_ceiling host_ceiling cap), fr_body_policy = body_policy\<rparr>"

section \<open>Classification of a matched route\<close>

record 'h registration_facts =
  rf_unhealthy :: "'h \<Rightarrow> bool"
  rf_upload :: "'h \<Rightarrow> transfer_budget"
  rf_reads_body :: "'h \<Rightarrow> bool"

definition registration_upload_limit :: "'h registration_facts \<Rightarrow> 'h route_handler \<Rightarrow> usize option" where
  "registration_upload_limit facts handler =
     (case handler of
        Proxy _ _ h \<Rightarrow> tb_max_bytes (rf_upload facts h)
      | ProxyStream _ _ h \<Rightarrow> tb_max_bytes (rf_upload facts h)
      | _ \<Rightarrow> None)"

definition registration_ceiling :: "'h registration_facts \<Rightarrow> 'h route_handler \<Rightarrow> usize \<Rightarrow> usize" where
  "registration_ceiling facts handler ceiling =
     (case registration_upload_limit facts handler of
        None \<Rightarrow> ceiling
      | Some bytes \<Rightarrow> min ceiling bytes)"

datatype 'p route_class =
    ClassBuffered "'p resolved_body_plan"
  | ClassStreamingProxy "'p resolved_body_plan"
  | ClassStreamingMultipart "'p resolved_body_plan"
  | ClassHeadOnly
  | ClassTerminal
  | ClassRefused rejected

definition body_plan ::
  "'p frozen_router \<Rightarrow> string \<Rightarrow> request_body_mode \<Rightarrow> usize \<Rightarrow> 'p resolved_body_plan"
where
  "body_plan router route mode ceiling =
     \<lparr>bp_route = route, bp_mode = mode, bp_ceiling = ceiling, bp_policy = fr_body_policy router\<rparr>"

definition classify_matched ::
  "'p frozen_router \<Rightarrow> 'h registration_facts \<Rightarrow> 'h route_handler \<Rightarrow> string \<Rightarrow> bool \<Rightarrow> 'p route_class"
where
  "classify_matched router facts handler route upgrade =
     (let ceiling = registration_ceiling facts handler (fr_body_ceiling router);
          buffered = ClassBuffered (body_plan router route BufferedMode ceiling);
          proxied = (\<lambda>h other. if rf_unhealthy facts h then ClassRefused no_admissible_backend
            else if upgrade then ClassHeadOnly else other)
      in case handler of
           Proxy _ _ h \<Rightarrow> proxied h buffered
         | ProxyStream _ _ h \<Rightarrow>
             proxied h (ClassStreamingProxy (body_plan router route StreamingMode ceiling))
         | Multipart _ \<Rightarrow> ClassStreamingMultipart (body_plan router route StreamingMode ceiling)
         | Sse h \<Rightarrow> if rf_reads_body facts h then buffered else ClassHeadOnly
         | WebSocket _ \<Rightarrow> ClassHeadOnly
         | Async _ _ \<Rightarrow> buffered
         | Stream _ \<Rightarrow> buffered)"

text \<open>The plan a class reads its body under, where it reads one.\<close>

fun class_plan :: "'p route_class \<Rightarrow> 'p resolved_body_plan option" where
  "class_plan (ClassBuffered plan) = Some plan"
| "class_plan (ClassStreamingProxy plan) = Some plan"
| "class_plan (ClassStreamingMultipart plan) = Some plan"
| "class_plan _ = None"

section \<open>No body exceeds what contains it\<close>

lemma plan_ceiling:
  "class_plan (classify_matched router facts handler route upgrade) = Some plan \<Longrightarrow>
     bp_ceiling plan = registration_ceiling facts handler (fr_body_ceiling router)"
  by (cases handler) (auto simp: classify_matched_def body_plan_def Let_def split: if_splits)

lemma registration_ceiling_le:
  "registration_ceiling facts handler ceiling \<le> ceiling"
  "registration_upload_limit facts handler = Some bytes \<Longrightarrow> registration_ceiling facts handler ceiling \<le> bytes"
  by (simp_all add: registration_ceiling_def split: option.split)

lemma ceiling_resolved_le:
  "pb_value (ceiling_resolved c host cap) \<le> pb_value cap"
  "(bytes, layer, defaulted) \<in> set (ceiling_candidates c host) \<Longrightarrow> pb_value (ceiling_resolved c host cap) \<le> bytes"
proof -
  show "pb_value (ceiling_resolved c host cap) \<le> pb_value cap"
    by (simp add: ceiling_resolved_def bound_narrowed_by_def Let_def)
  show "pb_value (ceiling_resolved c host cap) \<le> bytes"
    if "(bytes, layer, defaulted) \<in> set (ceiling_candidates c host)"
    using that by (cases c; cases host; cases "the host") (auto simp: ceiling_defs min_def split: if_splits)
qed

text \<open>C27:
  From configuration to bytes. Take a router, alone or under a host, each of which set a body
  ceiling or inherits one; any server; any matched route, be it buffered, streaming, multipart or
  proxied; and any body policy. A body that is read to its end under the plan of that route has at
  most as many bytes as the server's effective hard cap, as each ceiling the router and its host
  set, as the default of 8 MiB where neither set one, and as the upload maximum of a proxied route.
\<close>

theorem body_within_hard_cap:
  assumes plan: "class_plan (classify_matched
      (freeze_router c policy host (es_request_body_hard_cap server)) facts handler route upgrade) = Some plan"
    and granted: "fst (admit plan head) = Inr g"
    and read: "fst (admit_frames ns (body_budget_new g)) = Inr n"
  shows "sum_list (map unat ns) \<le> unat (pb_value (es_request_body_hard_cap server))
    \<and> (\<forall>(bytes, layer, defaulted) \<in> set (ceiling_candidates c host). sum_list (map unat ns) \<le> unat bytes)
    \<and> (\<forall>bytes. registration_upload_limit facts handler = Some bytes \<longrightarrow> sum_list (map unat ns) \<le> unat bytes)"
proof -
  let ?resolved = "pb_value (ceiling_resolved c host (es_request_body_hard_cap server))"
  have within: "sum_list (map unat ns) \<le> unat bytes"
    if "registration_ceiling facts handler ?resolved \<le> bytes" for bytes
    using admitted_frames_total [OF read] admitted_limit [OF granted] that
    unfolding plan_ceiling [OF plan] by (simp add: freeze_router_def word_le_nat_alt)
  then have resolved: "sum_list (map unat ns) \<le> unat bytes" if "?resolved \<le> bytes" for bytes
    using registration_ceiling_le(1) that order_trans by blast
  show ?thesis
    using resolved ceiling_resolved_le within registration_ceiling_le(2) by blast
qed

text \<open>A router that sets nothing, alone on a default server, with a proxied route of its own bound.\<close>

theorem body_within_hard_cap_witness:
  "\<exists>plan (g :: nat body_grant). class_plan (classify_matched
        (freeze_router CeilingUnset (Some (\<lambda>_. PolicyAdmits (body_admission_with_permit 10 7))) None
           (es_request_body_hard_cap (effective_resolve False server_policy_default None)))
        \<lparr>rf_unhealthy = (\<lambda>_. False), rf_upload = (\<lambda>h. transfer_of (Some 100) None None), rf_reads_body = (\<lambda>_. False)\<rparr>
        (ProxyStream ''http://backend'' ''/upload'' ()) ''/upload'' False) = Some plan
     \<and> bp_ceiling plan = 100
     \<and> fst (admit plan (declared_head ''9'')) = Inr g
     \<and> fst (admit_frames [4, 5] (body_budget_new g)) = Inr 9
     \<and> sum_list (map unat [4, 5 :: usize]) \<le> unat (default_max_body)"
proof -
  let ?server = "effective_resolve False server_policy_default None"
  let ?policy = "Some (\<lambda>_. PolicyAdmits (body_admission_with_permit 10 7)) :: nat body_policy option"
  let ?facts = "\<lparr>rf_unhealthy = (\<lambda>_. False), rf_upload = (\<lambda>h. transfer_of (Some 100) None None),
      rf_reads_body = (\<lambda>_. False)\<rparr>"
  let ?handler = "ProxyStream ''http://backend'' ''/upload'' ()"
  let ?router = "freeze_router CeilingUnset ?policy None (es_request_body_hard_cap ?server)"
  let ?plan = "body_plan ?router ''/upload'' StreamingMode 100"
  let ?g = "\<lparr>bg_limit = 10, bg_permit = Some 7\<rparr> :: nat body_grant"
  have plan: "class_plan (classify_matched ?router ?facts ?handler ''/upload'' False) = Some ?plan"
    by (simp add: classify_matched_def registration_ceiling_def registration_upload_limit_def transfer_of_def
        freeze_router_def ceiling_defs default_hard_cap)
  have g: "fst (admit ?plan (declared_head ''9'')) = Inr ?g"
    by (simp add: admission_defs declared_head_nine declared_head_uncoded body_plan_def freeze_router_def
        declares_over_def declared_length_exceeds_limit_def body_admission_with_permit_def)
  have n: "fst (admit_frames [4, 5] (body_budget_new ?g)) = Inr 9"
    by (simp add: admit_frame_def admit_frame_within_def checked_total_iff body_budget_new_def)
  have "(default_max_body, RouterLayer, True) \<in> set (ceiling_candidates CeilingUnset None)"
    by (simp add: ceiling_candidates_def)
  moreover have "bp_ceiling ?plan = 100"
    by (simp add: body_plan_def)
  ultimately show ?thesis
    using plan g n body_within_hard_cap [OF plan g n] by blast
qed

end
