(* ===== verification/Spec2Isabelle.thy ===== *)
theory Spec2Isabelle
  imports Route_Matching Aggregate_Shutdown Policy_Validity Rate_Limit
    Circuit_Breaker Request_Text Response_Commitment Multipart_Buffered Multipart_Slot
    Proxy_Forwarding Body_Plans
begin

text \<open>
  A verification library for Camber, an HTTP service framework on Tokio
  (\<open>src/crates/camber\<close>). Paths below are relative to \<open>src/crates/camber/src\<close>.

  \<^bold>\<open>The program.\<close> A server freezes a router and a policy, then serves connections. For each
  accepted request the trie selects a handler or explains why none serves it; the policies of
  runtime, server, host, router and route decide which deadlines and limits apply; anything that
  refuses the request becomes a refusal that an application policy maps to a response; and when
  the process stops, every owner drains under one shared deadline and reports its failures.

  \<^bold>\<open>The theories.\<close>

  \<^item> \<open>Camber_Prelude\<close>: strings, splitting, unsigned parsing and printing, case folding,
    durations and binary search, as the Rust standard library has them, and the locale
    \<open>keyed_registry\<close> of registrations under keys. \<open>Rust_Text\<close>: UTF-8
    validation and the trimming of Unicode white space.
  \<^item> \<open>Http_Method\<close> (\<open>http/method.rs\<close>), \<open>Response_Origin\<close>
    (\<open>http/response_commitment.rs\<close>) and \<open>Route_Trie\<close> (\<open>http/trie.rs\<close>): the
    routing trie as the code has it. \<open>Route_Matching\<close> specifies routing without a tree and
    proves that lookup refines it, that selection is complete and respects precedence, that the
    Allow value is exact, and that captures and normal forms round trip.
  \<^item> \<open>Runtime_Error\<close> (\<open>error.rs\<close>, \<open>error/integration.rs\<close>,
    \<open>http/boundary.rs\<close>, \<open>http/client/error.rs\<close>, the failure types of
    \<open>lifecycle/\<close>): the error datatype, its texts and labels, and the log of failures.
    \<open>Aggregate_Shutdown\<close> (\<open>lifecycle/shutdown.rs\<close>,
    \<open>lifecycle/resource_budget.rs\<close>): the set-once deadline and the windows it grants.
  \<^item> \<open>Policy_Value\<close>, \<open>Policy_Layers\<close>, \<open>Policy_Budgets\<close>,
    \<open>Server_Policy\<close> (the \<open>http/policy_*.rs\<close>, \<open>http/*_budget*.rs\<close>,
    \<open>http/health_route.rs\<close> and \<open>http/server_policy.rs\<close>): layered policy.
    \<open>Policy_Resolution\<close> states in the locale \<open>layered_policy\<close> what an
    implementation of \<open>PolicyValues\<close> owes, proves there that a chain of layers meets an
    order-free specification, and interprets the locale for route budgets and server policies.
    \<open>Policy_Validity\<close> proves that whatever an application can build from the constructors and
    setters of budgets and policies is valid and resolves as documented.
  \<^item> \<open>Rejection\<close>, \<open>Http_Response\<close>, \<open>Rejection_Scope\<close>
    (\<open>http/rejection.rs\<close>, \<open>http/response.rs\<close>, the failures of
    \<open>http/async_proxy.rs\<close>): request ids are distinct, a mapped response meets the
    obligations of its protocol, a response is reported exactly as the refusal it stands for or
    not at all, and each error is answered as documented with no undeclared text. \<open>Response_Commitment\<close> (\<open>http/response_commitment.rs\<close>): of all
    producers and causes that reach an operation's cell, the first owns the answer.
  \<^item> \<open>Body_Admission\<close> (\<open>http/body_admission.rs\<close> and the request head of
    \<open>http/request.rs\<close>): the ceiling of a route, the decision on a request head, and the
    account of its frames, counted without wrap-around; no permit of a body policy is lost.
    \<open>Body_Plans\<close> (the body part of \<open>Router::freeze\<close> in \<open>http/router.rs\<close> and the
    classification of a matched route in \<open>http/dispatch.rs\<close>): a body never exceeds the hard cap
    of the server or any ceiling above its route.
  \<^item> \<open>Request_Text\<close> (\<open>http/cookie.rs\<close>, \<open>http/encoding.rs\<close> and the form
    parser of \<open>http/request.rs\<close>): cookie headers cannot be extended from inside, and
    parsing a form inverts percent encoding.
  \<^item> \<open>Rate_Limit\<close> (\<open>http/rate_limit.rs\<close>): the token bucket as a machine of
    atomic steps under every interleaving, with the bound on what it grants and the honesty of
    its retry estimate. \<open>Circuit_Breaker\<close> (\<open>circuit_breaker.rs\<close>): the life of a
    circuit, and that no interleaving of the atomic accesses of checks opens it early.
  \<^item> \<open>Multipart_Grammar\<close>, \<open>Multipart_Parser\<close> (\<open>http/multipart/\<close>: \<open>grammar.rs\<close>,
    \<open>limits.rs\<close>, \<open>budget.rs\<close>, \<open>parser.rs\<close> and the event loop of
    \<open>session.rs\<close>): the grammar of multipart bodies and the incremental parser as the code has
    it, panics and assertions included. \<open>Multipart_Reference\<close> says what a whole body means
    without frames, buffer or budget; \<open>Multipart_Refinement\<close> proves that the incremental parser
    means that for every cut into frames, ends, and bounds what it hands out.
    \<open>Multipart_Buffered\<close> (\<open>http/multipart/buffered.rs\<close>) compares it with the parser of
    bodies in memory: what that one accepts is streamed alike, but not the other way around.
    \<open>Multipart_Slot\<close> (the command slot of \<open>session.rs\<close>): every access of a handler's
    operation, the driver and the coordinator is a step; replies arrive once and in order under
    every interleaving and cancellation, no side waits for ever, and a revoked driver ends even
    if the transport never delivers another byte.
  \<^item> \<open>Proxy_Forwarding\<close> (the target and the headers of \<open>http/async_proxy.rs\<close>): no path
    that climbs and no header that belongs to one hop reaches a backend, and what the backend is
    told about the peer comes from the proxy alone.
  \<^item> This theory: two properties across components. A body that is not admitted is answered with
    a closing response and reported once; a method refusal of the trie is answered with an Allow
    header that lists exactly the methods the router serves at that path.

  \<^bold>\<open>Conventions.\<close> A \<open>usize\<close> is a 64-bit word where it wraps and a natural number
  where the code only compares it; a counter that saturates has its limit written out; durations
  and instants are nanoseconds. A result is a sum with the error on the left. A closure is a
  function or an opaque value. Log lines are events in a returned list. A mapper is any function that answers, fails or panics. The clock, the nonce and
  the counter behind request ids are arguments. No definition uses fuel: every recursion is
  structural or has a termination proof, in particular the finalisation of a response, which
  re-enters itself at most once. The reading of a multipart session is a partial function that is
  proved to return.

  \<^bold>\<open>Parameters.\<close> What the \<open>http\<close> crate accepts as a status, method, header name or
  header value, and the largest number of permits of a Tokio semaphore, are arguments of the
  definitions that ask for them. The features \<open>grpc\<close> and \<open>ws\<close> are on; \<open>profiling\<close> is an
  argument.

  \<^bold>\<open>Not modelled.\<close> Sockets, TLS, tasks and channels are calls into Tokio and rustls. Router
  building and dispatch beyond the body plans of matched routes, transfers, the client,
  WebSockets, message queues, the lifecycle of servers and integrations, and the command line tool are outside the present library. So are
  the route entries of the policy report, the emission of diagnostics, the middleware closure
  around the rate limiter, the requests built from Hyper, and the transfer of bodies through the
  proxy. Concurrency is modelled as interleavings of atomic steps in the token bucket,
  the circuit breaker and the command slot, and as arbitrary sequences of whole operations on the
  shutdown deadline and the response commitment. Weak memory orderings between different
  locations are not modelled.
\<close>

section \<open>A refused body, from the head to the wire\<close>

lemma scope_map_headers:
  "header_values name (fst (scope_map sc r)) =
     header_values name (enforce_protocol sc
       (fst (scope_answer sc (rd_rejection r) (materialize (sc_identity sc))))
       (rd_protected r) (rd_disposition r))"
  by (simp add: scope_map_def Let_def split_def)

lemma admit_refusal_closes:
  "fst (admit plan head) = Inl r \<Longrightarrow> rd_disposition r = CloseTransport"
  by (auto simp: admit_def admit_declared_def admit_under_policy_def run_policy_def Let_def
      refusals_close split: option.splits if_splits policy_outcome.splits)

text \<open>The values a wire response carries under a name, in any ASCII case.\<close>

definition wire_header_values :: "string \<Rightarrow> wire_response \<Rightarrow> string list" where
  "wire_header_values name wire =
     map snd (filter (\<lambda>(key, _). eq_ignore_ascii_case key name) (wr_headers wire))"

text \<open>C38:
  A body that is not admitted is answered, reported and, where the protocol lets it, disowned,
  whatever the application's mapper does. Mapping the refusal and finalising the answer leaves
  exactly one record of a refusal as sent: it has the kind and the cause that admission decided,
  the context of the request and the status that is on the wire. On a transport that closes by
  header, an answer that can be represented says close on the wire, exactly once, so that no other
  request follows the unread body.
\<close>

theorem refused_body_closes_and_reports:
  assumes refused: "fst (admit plan head) = Inl r"
    and answer: "scope_map sc r = (answer, ev)" and final: "scope_finalize lib sc answer = (fz, ev')"
  shows "reports_as (Some (rejected_account r (materialize (sc_identity sc)))) (fz, ev @ ev')
    \<and> (closes_transport sc \<and> hl_refuses lib (rs_status answer) (rs_headers answer) = None \<longrightarrow>
         wire_header_values connection_header (fz_response fz) = [close_disposition])"
proof (intro conjI impI)
  obtain m where m: "rs_provenance answer = ProvMapped m"
    "rejected_account (mr_rejected m) (mr_context m) = rejected_account r (materialize (sc_identity sc))"
    using scope_map_refusal [of sc r] unfolding answer fst_conv .
  have "sent_reports ev = []"
    using scope_map_unsent [of sc r] unfolding answer by simp
  then show "reports_as (Some (rejected_account r (materialize (sc_identity sc)))) (fz, ev @ ev')"
    using scope_finalize_mapped [OF m(1), of lib sc] reports_as_after [of _ "(fz, ev')" ev]
    unfolding m(2) final by simp
  assume sendable: "closes_transport sc \<and> hl_refuses lib (rs_status answer) (rs_headers answer) = None"
  then have "header_values connection_header answer = [close_disposition]"
    using scope_map_headers [of connection_header sc r] enforce_disposition_connection
    unfolding answer fst_conv enforce_protocol_def admit_refusal_closes [OF refused] by simp
  then show "wire_header_values connection_header (fz_response fz) = [close_disposition]"
    using scope_finalize_representable(2) [of lib answer sc] sendable
    unfolding final by (simp add: wire_header_values_def header_values_def)
qed

definition plain_scope :: rejection_scope where
  "plain_scope = scope_new None (identity_admitted ''id'' (Known Post) ''/upload'' None HTTP_11)"

text \<open>A mapper that answers every refusal with a page of its own that keeps the connection.\<close>

definition page_scope :: rejection_scope where
  "page_scope = plain_scope
     \<lparr>sc_mapper := Some (\<lambda>_ _. MapperResponse (with_pair ''Connection'' ''keep-alive'' (build_text 499 ''page'')))\<rparr>"

theorem refused_body_closes_and_reports_witness:
  "\<exists>fz evs e. scope_finalize \<lparr>hl_refuses = (\<lambda>_ _. None), hl_value_ok = (\<lambda>_. True)\<rparr> page_scope
        (fst (scope_map page_scope (body_too_large 10))) = (fz, evs)
   \<and> fst (admit permit_plan (declared_head ''50'')) = Inl (body_too_large 10)
   \<and> sent_reports (snd (scope_map page_scope (body_too_large 10)) @ evs) = [e]
   \<and> em_kind e = KindBodyLimit \<and> em_status e = Some (wr_status (fz_response fz))
   \<and> wire_header_values connection_header (fz_response fz) = [close_disposition]"
proof -
  let ?lib = "\<lparr>hl_refuses = (\<lambda>_ _. None), hl_value_ok = (\<lambda>_. True)\<rparr> :: http_lib"
  have refused: "fst (admit permit_plan (declared_head ''50'')) = Inl (body_too_large 10)"
    by (simp add: admission_defs declared_head_fifty declared_head_uncoded permit_plan_def
        declares_over_def declared_length_exceeds_limit_def body_admission_with_permit_def)
  obtain answer ev where answer: "scope_map page_scope (body_too_large 10) = (answer, ev)"
    by fastforce
  obtain fz evs where final: "scope_finalize ?lib page_scope answer = (fz, evs)"
    by fastforce
  have "closes_transport page_scope"
    by (simp add: page_scope_def plain_scope_def scope_new_def identity_admitted_def)
  then show ?thesis
    using refused refused_body_closes_and_reports [OF refused answer final] answer final
    by (auto simp: reports_as_def rejected_account_def body_too_large_def rejected_decided_def
        rejected_plain_def rejection_raw_def)
qed

section \<open>A method refusal, from the trie to the Allow header\<close>

lemma allow_header_kept: "\<not> connection_specific allow_header"
  by code_simp

lemma built_in_status: "rs_status (built_in_response rejection context) = rj_status rejection"
proof -
  have "rs_status (fold (\<lambda>(name, val) r. with_pair name val r) hs r) = rs_status r" for hs r
    by (induction hs arbitrary: r) auto
  then show ?thesis
    by (simp add: built_in_response_def build_text_def)
qed

lemma mismatch_status: "rj_status (rd_rejection (method_not_allowed received allow)) = 405"
  by (simp add: method_not_allowed_def protecting_def rejected_decided_def rejected_plain_def
      rejection_raw_def)

lemma mismatch_protected:
  "rd_protected (method_not_allowed received allow)
     = Some \<lparr>ph_status = 405, ph_name = allow_header, ph_value = allow\<rparr>"
  using mismatch_status [of received allow] by (simp add: method_not_allowed_def protecting_def)

text \<open>C39:
  A request whose path is claimed but not with its method is answered with the methods the router
  does serve there. When the trie refuses the method and either the built-in policy answers or the
  application's mapper keeps the status, the response is a 405 whose Allow header appears exactly
  once and lists, in canonical order, exactly the methods that a lookup of the same path matches.
\<close>

theorem mismatch_answers_allow:
  assumes "lookup (freeze (build_trie rs)) mo path segs = MethodMismatch route allow"
    and "sc_mapper sc = None \<or> rs_status (fst (scope_map sc (method_not_allowed received allow))) = 405"
  shows "rs_status (fst (scope_map sc (method_not_allowed received allow))) = 405
    \<and> header_values allow_header (fst (scope_map sc (method_not_allowed received allow)))
       = [allow_text (filter (\<lambda>m. \<exists>sel.
            lookup (freeze (build_trie rs)) (Some m) path segs = Matched sel) canonical_methods)]"
proof -
  let ?r = "method_not_allowed received allow"
  let ?a = "fst (scope_answer sc (rd_rejection ?r) (materialize (sc_identity sc)))"
  have same: "rs_status (fst (scope_map sc ?r)) = rs_status ?a"
    by (simp add: scope_map_def Let_def split_def)
  have "sc_mapper sc = None \<Longrightarrow> rs_status ?a = 405"
    by (simp add: scope_answer_def scope_invoke_def without_informational_status_def built_in_status
        mismatch_status)
  then have status: "rs_status ?a = 405"
    using assms(2) same by auto
  then have "header_values allow_header (fst (scope_map sc ?r)) = [allow]"
    unfolding scope_map_headers enforce_protocol_def mismatch_protected
    by (simp add: enforce_disposition_other allow_header_kept)
  with status same mismatch_allow [OF assms(1)] show ?thesis
    by simp
qed

theorem mismatch_answers_allow_witness:
  "header_values allow_header (fst (scope_map plain_scope (method_not_allowed ''PUT'' ''GET, HEAD, POST'')))
     = [allow_text (filter (\<lambda>m. \<exists>sel.
          lookup (freeze (build_trie [(Get, ''/:id'', Stream (0::nat)), (Post, ''/a'', Stream 1)]))
            (Some m) ''/a'' [(1, ''a'')] = Matched sel) canonical_methods)]"
proof -
  have "lookup (freeze (build_trie [(Get, ''/:id'', Stream (0::nat)), (Post, ''/a'', Stream 1)]))
      (Some Put) ''/a'' [(1, ''a'')] = MethodMismatch ''/a'' ''GET, HEAD, POST''"
    by code_simp
  moreover have "sc_mapper plain_scope = None"
    by (simp add: plain_scope_def scope_new_def)
  ultimately show ?thesis
    using mismatch_answers_allow [of _ _ _ _ _ "''GET, HEAD, POST''" plain_scope "''PUT''"] by blast
qed

end
